(* ===== verification/Prelude.thy ===== *)
theory Prelude
  imports Main "HOL-Library.Word"
begin

unbundle bit_operations_syntax

text \<open>
  Shared vocabulary of the development: the machine integer types of the C++ code, the
  result type of operations that can abort, and the generic facts about words, lists and
  powers of two that the component theories use.

  The C++ types map as follows. \<open>uint8_t\<close>, \<open>uint16_t\<close>, \<open>uint32_t\<close>, \<open>uint64_t\<close> are
  \<open>u8\<close>, \<open>u16\<close>, \<open>u32\<close>, \<open>u64\<close>. An \<open>int32_t\<close> that the code casts to and from
  \<open>uint32_t\<close> is a \<open>u32\<close> whose signed reading is \<open>sint\<close>. A counter that is an \<open>int\<close>
  is an \<open>int\<close>. An index into a \<open>std::vector\<close> or \<open>std::array\<close> is a \<open>nat\<close>.
\<close>

type_synonym u8 = "8 word"
type_synonym u16 = "16 word"
type_synonym u32 = "32 word"
type_synonym u64 = "64 word"

section \<open>Aborting operations\<close>

text \<open>
  An operation that can fail an \<open>assert\<close>, or index a \<open>std::vector\<close> past its end after
  the \<open>assert\<close> has passed, returns a \<open>fault\<close> on the left of a sum.
\<close>

datatype fault =
    Assert_failed
  | Out_of_bounds

type_synonym 'a res = "fault + 'a"

definition res_bind :: "'e + 'a \<Rightarrow> ('a \<Rightarrow> 'e + 'b) \<Rightarrow> 'e + 'b" where
  "res_bind r f = (case r of Inl e \<Rightarrow> Inl e | Inr x \<Rightarrow> f x)"

lemma res_bind_simps [simp]:
  "res_bind (Inl e) f = Inl e"
  "res_bind (Inr x) f = f x"
  by (simp_all add: res_bind_def)

lemma res_bind_Inr_iff:
  "res_bind r f = Inr y \<longleftrightarrow> (\<exists>x. r = Inr x \<and> f x = Inr y)"
  by (cases r) simp_all

lemma res_bind_Inr_E:
  assumes "res_bind r f = Inr y"
  obtains x where "r = Inr x" and "f x = Inr y"
  using assms by (auto simp: res_bind_Inr_iff)

definition is_ok :: "'a res \<Rightarrow> bool" where
  "is_ok r = (case r of Inl _ \<Rightarrow> False | Inr _ \<Rightarrow> True)"

lemma is_ok_simps [simp]: "\<not> is_ok (Inl e)" "is_ok (Inr x)"
  by (simp_all add: is_ok_def)

lemma is_ok_iff: "is_ok r \<longleftrightarrow> (\<exists>x. r = Inr x)"
  by (cases r) simp_all

section \<open>Collections of facts\<close>

named_theorems field_defs \<open>the bit-field extractors of an instruction word\<close>
named_theorems frame \<open>which part of the state an operation leaves alone\<close>
named_theorems data_frame \<open>timing operations leave the memory's data alone\<close>

section \<open>Words\<close>

lemma word_and_mask_less:
  fixes x :: "'a::len word"
  assumes "n < LENGTH('a)"
  shows "x AND mask n < 2 ^ n"
  using assms by (rule and_mask_less')

lemma numeral_mask_32:
  "(0x1 :: u32) = mask 1" "(0x7 :: u32) = mask 3" "(0xf :: u32) = mask 4"
  "(0x1f :: u32) = mask 5" "(0x3f :: u32) = mask 6" "(0x7f :: u32) = mask 7"
  "(0xff :: u32) = mask 8" "(0x3ff :: u32) = mask 10" "(0xffff :: u32) = mask 16"
  by (simp_all add: mask_eq_exp_minus_1)

lemma unat_and_mask_less:
  fixes x :: u32
  shows "unat (x AND mask n) < 2 ^ n"
  by (simp add: take_bit_eq_mask [symmetric] unsigned_take_bit_eq)

lemma bit_u32_less: "bit (w :: u32) n \<Longrightarrow> n < 32"
  using bit_imp_le_length [of w n] by simp

lemma u32_eqI: "(\<And>n. n < 32 \<Longrightarrow> bit (a :: u32) n \<longleftrightarrow> bit b n) \<Longrightarrow> a = b"
  by (rule bit_word_eqI) simp

text \<open>The bits of a field that is cut out of \<open>w\<close> at \<open>b\<close> and moved to \<open>a\<close>.\<close>

lemma bit_moved_field:
  "bit (push_bit a (drop_bit b (w :: u32) AND mask n)) j \<longleftrightarrow>
     j < 32 \<and> a \<le> j \<and> j < a + n \<and> bit w (j - a + b)"
  by (auto simp: bit_and_iff bit_push_bit_iff bit_drop_bit_eq bit_mask_iff add.commute dest: bit_u32_less)

lemma bit_moved_rest:
  "bit (push_bit a (drop_bit b (w :: u32))) j \<longleftrightarrow> j < 32 \<and> a \<le> j \<and> bit w (j - a + b)"
  by (auto simp: bit_push_bit_iff bit_drop_bit_eq add.commute dest: bit_u32_less)

lemma bit_low_field:
  "bit (drop_bit b (w :: u32) AND mask n) j \<longleftrightarrow> j < n \<and> bit w (j + b)"
  by (auto simp: bit_and_iff bit_drop_bit_eq bit_mask_iff add.commute dest: bit_u32_less)

lemma bit_placed:
  "bit (push_bit a ((v :: u32) AND mask n)) j \<longleftrightarrow> j < 32 \<and> a \<le> j \<and> j < a + n \<and> bit v (j - a)"
  using bit_moved_field [of a 0 v n j] by simp

lemma bit_low: "bit ((v :: u32) AND mask n) j \<longleftrightarrow> j < n \<and> bit v j"
  using bit_low_field [of 0 v n j] by simp

lemma bit_shifted_down: "bit (drop_bit a (v :: u32)) j \<longleftrightarrow> bit v (j + a)"
  by (simp add: bit_drop_bit_eq add.commute)

lemmas bit_fields =
  bit_or_iff bit_moved_field bit_moved_rest bit_low_field bit_placed bit_low bit_shifted_down

end
