(* ===== verification/Encoding.thy ===== *)
theory Encoding
  imports Prelude
begin

unbundle bit_operations_syntax

text \<open>
  The bit-field extractors and immediate decoders of
  \<open>include/cpusim/isa/rv32i/encoding.h\<close> and the constants of
  \<open>include/cpusim/isa/rv32i/defs.h\<close>. The lemmas say which bits of the word each
  extractor reads, that \<open>sext\<close> is two's complement sign extension, and the range of
  every immediate.
\<close>

section \<open>Opcodes and function codes (defs.h)\<close>

definition OPC_LUI :: u32 where "OPC_LUI = 0b0110111"
definition OPC_AUIPC :: u32 where "OPC_AUIPC = 0b0010111"
definition OPC_JAL :: u32 where "OPC_JAL = 0b1101111"
definition OPC_JALR :: u32 where "OPC_JALR = 0b1100111"
definition OPC_BRANCH :: u32 where "OPC_BRANCH = 0b1100011"
definition OPC_LOAD :: u32 where "OPC_LOAD = 0b0000011"
definition OPC_STORE :: u32 where "OPC_STORE = 0b0100011"
definition OPC_OP_IMM :: u32 where "OPC_OP_IMM = 0b0010011"
definition OPC_OP :: u32 where "OPC_OP = 0b0110011"
definition OPC_MISC_MEM :: u32 where "OPC_MISC_MEM = 0b0001111"
definition OPC_SYSTEM :: u32 where "OPC_SYSTEM = 0b1110011"

definition F3_BEQ :: u32 where "F3_BEQ = 0b000"
definition F3_BNE :: u32 where "F3_BNE = 0b001"
definition F3_BLT :: u32 where "F3_BLT = 0b100"
definition F3_BGE :: u32 where "F3_BGE = 0b101"
definition F3_BLTU :: u32 where "F3_BLTU = 0b110"
definition F3_BGEU :: u32 where "F3_BGEU = 0b111"

definition F3_LB :: u32 where "F3_LB = 0b000"
definition F3_LH :: u32 where "F3_LH = 0b001"
definition F3_LW :: u32 where "F3_LW = 0b010"
definition F3_LBU :: u32 where "F3_LBU = 0b100"
definition F3_LHU :: u32 where "F3_LHU = 0b101"

definition F3_SB :: u32 where "F3_SB = 0b000"
definition F3_SH :: u32 where "F3_SH = 0b001"
definition F3_SW :: u32 where "F3_SW = 0b010"

definition F3_ADD_SUB :: u32 where "F3_ADD_SUB = 0b000"
definition F3_SLL :: u32 where "F3_SLL = 0b001"
definition F3_SLT :: u32 where "F3_SLT = 0b010"
definition F3_SLTU :: u32 where "F3_SLTU = 0b011"
definition F3_XOR :: u32 where "F3_XOR = 0b100"
definition F3_SRL_SRA :: u32 where "F3_SRL_SRA = 0b101"
definition F3_OR :: u32 where "F3_OR = 0b110"
definition F3_AND :: u32 where "F3_AND = 0b111"

definition F7_BASE :: u32 where "F7_BASE = 0b0000000"
definition F7_ALT :: u32 where "F7_ALT = 0b0100000"

definition F12_ECALL :: u32 where "F12_ECALL = 0b000000000000"
definition F12_EBREAK :: u32 where "F12_EBREAK = 0b000000000001"

lemmas opc_defs =
  OPC_LUI_def OPC_AUIPC_def OPC_JAL_def OPC_JALR_def OPC_BRANCH_def OPC_LOAD_def
  OPC_STORE_def OPC_OP_IMM_def OPC_OP_def OPC_MISC_MEM_def OPC_SYSTEM_def

lemmas f3_defs =
  F3_BEQ_def F3_BNE_def F3_BLT_def F3_BGE_def F3_BLTU_def F3_BGEU_def
  F3_LB_def F3_LH_def F3_LW_def F3_LBU_def F3_LHU_def F3_SB_def F3_SH_def F3_SW_def
  F3_ADD_SUB_def F3_SLL_def F3_SLT_def F3_SLTU_def F3_XOR_def F3_SRL_SRA_def
  F3_OR_def F3_AND_def

lemmas f7_defs = F7_BASE_def F7_ALT_def F12_ECALL_def F12_EBREAK_def

section \<open>Fixed fields\<close>

definition enc_opcode :: "u32 \<Rightarrow> u32" where "enc_opcode w = w AND 0x7f"
definition enc_rd :: "u32 \<Rightarrow> u32" where "enc_rd w = drop_bit 7 w AND 0x1f"
definition enc_funct3 :: "u32 \<Rightarrow> u32" where "enc_funct3 w = drop_bit 12 w AND 0x07"
definition enc_rs1 :: "u32 \<Rightarrow> u32" where "enc_rs1 w = drop_bit 15 w AND 0x1f"
definition enc_rs2 :: "u32 \<Rightarrow> u32" where "enc_rs2 w = drop_bit 20 w AND 0x1f"
definition enc_funct7 :: "u32 \<Rightarrow> u32" where "enc_funct7 w = drop_bit 25 w AND 0x7f"
definition enc_funct12 :: "u32 \<Rightarrow> u32" where "enc_funct12 w = drop_bit 20 w"

declare enc_opcode_def [field_defs] enc_rd_def [field_defs] enc_funct3_def [field_defs]
  enc_rs1_def [field_defs] enc_rs2_def [field_defs] enc_funct7_def [field_defs]
  enc_funct12_def [field_defs]

section \<open>Sign extension and immediates\<close>

text \<open>\<open>sext val bits\<close>: \<open>(val ^ sign) - sign\<close> with \<open>sign = 1u << (bits - 1)\<close>.\<close>

definition sext :: "u32 \<Rightarrow> nat \<Rightarrow> u32" where
  "sext val bits = (let sign = push_bit (bits - 1) 1 in (val XOR sign) - sign)"

definition imm_i :: "u32 \<Rightarrow> u32" where
  "imm_i w = sext (drop_bit 20 w) 12"

definition imm_s :: "u32 \<Rightarrow> u32" where
  "imm_s w = (let imm = push_bit 5 (drop_bit 25 w) OR (drop_bit 7 w AND 0x1f) in sext imm 12)"

definition imm_b :: "u32 \<Rightarrow> u32" where
  "imm_b w =
     (let imm = push_bit 12 (drop_bit 31 w)
             OR push_bit 11 (drop_bit 7 w AND 0x1)
             OR push_bit 5 (drop_bit 25 w AND 0x3f)
             OR push_bit 1 (drop_bit 8 w AND 0xf)
      in sext imm 13)"

definition imm_u :: "u32 \<Rightarrow> u32" where
  "imm_u w = w AND 0xfffff000"

definition imm_j :: "u32 \<Rightarrow> u32" where
  "imm_j w =
     (let imm = push_bit 20 (drop_bit 31 w)
             OR push_bit 12 (drop_bit 12 w AND 0xff)
             OR push_bit 11 (drop_bit 20 w AND 0x1)
             OR push_bit 1 (drop_bit 21 w AND 0x3ff)
      in sext imm 21)"

section \<open>Field bounds\<close>

lemma enc_fields_less:
  "unat (enc_rd w) < 32" "unat (enc_rs1 w) < 32" "unat (enc_rs2 w) < 32"
  "unat (enc_funct3 w) < 8" "unat (enc_funct7 w) < 128" "unat (enc_opcode w) < 128"
  using unat_and_mask_less [of "drop_bit 7 w" 5] unat_and_mask_less [of "drop_bit 15 w" 5]
    unat_and_mask_less [of "drop_bit 20 w" 5] unat_and_mask_less [of "drop_bit 12 w" 3]
    unat_and_mask_less [of "drop_bit 25 w" 7] unat_and_mask_less [of w 7]
  by (simp_all add: field_defs mask_eq_exp_minus_1)

section \<open>Sign extension is two's complement\<close>

text \<open>
  Flipping the sign bit and subtracting it again copies it into every higher bit: on a
  value that fits in \<open>n\<close> bits, \<open>sext\<close> is the library's \<open>signed_take_bit\<close>.
\<close>

lemma sext_eq_signed_take_bit:
  assumes n: "0 < n" and v: "take_bit n v = v"
  shows "sext v n = signed_take_bit (n - 1) v"
proof -
  obtain k where k: "n = Suc k" using n by (cases n) auto
  have "sext v n = flip_bit k v - 2 ^ k"
    by (simp add: sext_def Let_def k flip_bit_eq_xor)
  also have "\<dots> = v - 2 ^ Suc k * of_bool (bit v k)"
    by (simp add: flip_bit_eq_if set_bit_eq unset_bit_eq)
  also have "\<dots> = take_bit (Suc k) v + NOT (mask (Suc k)) * of_bool (bit v k)"
    using v k minus_exp_eq_not_mask [of "Suc k", where ?'a = "32 word"] by (simp add: of_bool_def)
  also have "\<dots> = signed_take_bit k v"
    by (rule signed_take_bit_eq_take_bit_add [symmetric])
  finally show ?thesis by (simp add: k)
qed

lemma bit_signed_take_bit_32:
  "j < 32 \<Longrightarrow> bit (signed_take_bit n (v :: u32)) j \<longleftrightarrow> bit v (min j n)"
  by (simp add: bit_signed_take_bit_iff min.commute)

lemma bit_sext:
  assumes "0 < n" and "take_bit n v = v" and "j < 32"
  shows "bit (sext v n) j \<longleftrightarrow> bit v (min j (n - 1))"
  using assms by (simp add: sext_eq_signed_take_bit bit_signed_take_bit_32)

lemma sint_signed_take_bit_32:
  "n < 32 \<Longrightarrow> sint (signed_take_bit n (v :: u32)) = signed_take_bit n (uint v)"
  by (rule bit_eqI) (auto simp: bit_simps bit_sint_iff min_def)

lemma sint_sext:
  assumes "0 < n" "n \<le> 32" and "take_bit n v = v"
  shows "sint (sext v n) = (if bit v (n - 1) then uint v - 2 ^ n else uint v)"
proof -
  obtain k where k: "n = Suc k" "k < 32" using assms by (cases n) auto
  have "take_bit (Suc k) (uint v) = uint v"
    using assms(3) k by (metis unsigned_take_bit_eq)
  moreover have "sext v n = signed_take_bit k v"
    using assms k by (simp add: sext_eq_signed_take_bit)
  ultimately show ?thesis using k
    by (simp add: sint_signed_take_bit_32 signed_take_bit_eq_take_bit_minus [of k "uint v"] bit_uint_iff)
qed

lemma sint_sext_range:
  assumes "0 < n" "n \<le> 32" and "take_bit n v = v"
  shows "- (2 ^ (n - 1)) \<le> sint (sext v n)" "sint (sext v n) < 2 ^ (n - 1)"
proof -
  have "n - 1 < 32" using assms by simp
  then have "sint (sext v n) = signed_take_bit (n - 1) (uint v)"
    using assms by (simp add: sext_eq_signed_take_bit sint_signed_take_bit_32)
  then show "- (2 ^ (n - 1)) \<le> sint (sext v n)" "sint (sext v n) < 2 ^ (n - 1)"
    by (simp_all add: signed_take_bit_int_greater_eq_minus_exp signed_take_bit_int_less_exp)
qed

section \<open>Which bit of the word each immediate bit comes from\<close>

text \<open>
  The scattered bits of each immediate, before sign extension: they fit the width that
  \<open>sext\<close> is told, and every bit is read off the instruction word.
\<close>

lemma take_bit_fits: "(\<And>j. bit (v :: u32) j \<Longrightarrow> j < n) \<Longrightarrow> take_bit n v = v"
  by (rule bit_word_eqI) (auto simp: bit_take_bit_iff)

lemma bit_scatter_i: "bit (drop_bit 20 (w :: u32)) j \<longleftrightarrow> j < 12 \<and> bit w (j + 20)"
  by (auto simp: bit_drop_bit_eq add.commute dest: bit_u32_less)

lemma bit_scatter_s:
  "bit (push_bit 5 (drop_bit 25 (w :: u32)) OR (drop_bit 7 w AND 0x1f)) j \<longleftrightarrow>
     j < 12 \<and> bit w (if j < 5 then j + 7 else j + 20)"
  unfolding numeral_mask_32 bit_fields by (auto simp: add.commute dest: bit_u32_less)

lemma bit_scatter_b:
  "bit (push_bit 12 (drop_bit 31 (w :: u32)) OR push_bit 11 (drop_bit 7 w AND 0x1)
       OR push_bit 5 (drop_bit 25 w AND 0x3f) OR push_bit 1 (drop_bit 8 w AND 0xf)) j \<longleftrightarrow>
     0 < j \<and> j < 13 \<and>
     bit w (if j < 5 then j + 7 else if j < 11 then j + 20 else if j = 11 then 7 else j + 19)"
  unfolding numeral_mask_32 bit_fields by (auto simp: add.commute dest: bit_u32_less)

lemma bit_scatter_j:
  "bit (push_bit 20 (drop_bit 31 (w :: u32)) OR push_bit 12 (drop_bit 12 w AND 0xff)
       OR push_bit 11 (drop_bit 20 w AND 0x1) OR push_bit 1 (drop_bit 21 w AND 0x3ff)) j \<longleftrightarrow>
     0 < j \<and> j < 21 \<and>
     bit w (if j < 11 then j + 20 else if j = 11 then 20 else if j < 20 then j else j + 11)"
  unfolding numeral_mask_32 bit_fields by (auto simp: add.commute dest: bit_u32_less)

lemma imm_i_fits: "take_bit 12 (drop_bit 20 (w :: u32)) = drop_bit 20 w"
  by (rule take_bit_fits) (simp add: bit_scatter_i)

lemma imm_s_fits:
  "take_bit 12 (push_bit 5 (drop_bit 25 (w :: u32)) OR (drop_bit 7 w AND 0x1f))
     = push_bit 5 (drop_bit 25 w) OR (drop_bit 7 w AND 0x1f)"
  by (rule take_bit_fits) (simp only: bit_scatter_s)

lemma imm_b_fits:
  "take_bit 13 (push_bit 12 (drop_bit 31 (w :: u32)) OR push_bit 11 (drop_bit 7 w AND 0x1)
       OR push_bit 5 (drop_bit 25 w AND 0x3f) OR push_bit 1 (drop_bit 8 w AND 0xf))
     = push_bit 12 (drop_bit 31 w) OR push_bit 11 (drop_bit 7 w AND 0x1)
       OR push_bit 5 (drop_bit 25 w AND 0x3f) OR push_bit 1 (drop_bit 8 w AND 0xf)"
  by (rule take_bit_fits) (simp only: bit_scatter_b)

lemma imm_j_fits:
  "take_bit 21 (push_bit 20 (drop_bit 31 (w :: u32)) OR push_bit 12 (drop_bit 12 w AND 0xff)
       OR push_bit 11 (drop_bit 20 w AND 0x1) OR push_bit 1 (drop_bit 21 w AND 0x3ff))
     = push_bit 20 (drop_bit 31 w) OR push_bit 12 (drop_bit 12 w AND 0xff)
       OR push_bit 11 (drop_bit 20 w AND 0x1) OR push_bit 1 (drop_bit 21 w AND 0x3ff)"
  by (rule take_bit_fits) (simp only: bit_scatter_j)

lemma bit_imm_i:
  assumes "j < 32"
  shows "bit (imm_i w) j \<longleftrightarrow> bit w (if j < 11 then j + 20 else 31)"
  unfolding imm_i_def bit_sext [OF zero_less_numeral imm_i_fits assms] bit_scatter_i
  using assms by (auto simp: min_def)

lemma bit_imm_s:
  assumes "j < 32"
  shows "bit (imm_s w) j \<longleftrightarrow>
    bit w (if j < 5 then j + 7 else if j < 11 then j + 20 else 31)"
  unfolding imm_s_def Let_def bit_sext [OF zero_less_numeral imm_s_fits assms] bit_scatter_s
  using assms by (auto simp: min_def)

lemma bit_imm_b:
  assumes "j < 32"
  shows "bit (imm_b w) j \<longleftrightarrow> j \<noteq> 0 \<and>
    bit w (if j < 5 then j + 7 else if j < 11 then j + 20 else if j = 11 then 7 else 31)"
  unfolding imm_b_def Let_def bit_sext [OF zero_less_numeral imm_b_fits assms] bit_scatter_b
  using assms by (cases "j < 12") (auto simp: min_absorb1 min_absorb2 not_less)

lemma high20_mask: "(0xfffff000 :: u32) = push_bit 12 (mask 20)"
  by (simp add: mask_eq_exp_minus_1)

lemma bit_imm_u: "bit (imm_u w) j \<longleftrightarrow> 12 \<le> j \<and> bit w j"
  unfolding imm_u_def high20_mask
  by (auto simp: bit_and_iff bit_push_bit_iff bit_mask_iff dest: bit_u32_less)

lemma bit_imm_j:
  assumes "j < 32"
  shows "bit (imm_j w) j \<longleftrightarrow> j \<noteq> 0 \<and>
    bit w (if j < 11 then j + 20 else if j = 11 then 20 else if j < 20 then j else 31)"
  unfolding imm_j_def Let_def bit_sext [OF zero_less_numeral imm_j_fits assms] bit_scatter_j
  using assms by (auto simp: min_def)

lemmas bit_imm = bit_imm_i bit_imm_s bit_imm_b bit_imm_u bit_imm_j

section \<open>Ranges of the immediates\<close>

lemma imm_i_range: "- 2048 \<le> sint (imm_i w)" "sint (imm_i w) < 2048"
  using sint_sext_range [of 12 "drop_bit 20 w"] by (simp_all add: imm_i_def imm_i_fits)

lemma imm_s_range: "- 2048 \<le> sint (imm_s w)" "sint (imm_s w) < 2048"
  using sint_sext_range [OF _ _ imm_s_fits, of w] by (simp_all add: imm_s_def Let_def)

lemma imm_b_range: "- 4096 \<le> sint (imm_b w)" "sint (imm_b w) < 4096"
  using sint_sext_range [OF _ _ imm_b_fits, of w] by (simp_all add: imm_b_def Let_def)

lemma imm_j_range: "- 1048576 \<le> sint (imm_j w)" "sint (imm_j w) < 1048576"
  using sint_sext_range [OF _ _ imm_j_fits, of w] by (simp_all add: imm_j_def Let_def)

lemma imm_b_even: "\<not> bit (imm_b w) 0"
  by (simp add: bit_imm_b)

lemma imm_j_even: "\<not> bit (imm_j w) 0"
  by (simp add: bit_imm_j)

end
