(* ===== verification/Decoder.thy ===== *)
theory Decoder
  imports Encoding
begin

unbundle bit_operations_syntax

text \<open>
  The instruction decoder: \<open>include/cpusim/isa/rv32i/decoder.h\<close> and
  \<open>src/isa/rv32i/decoder.cpp\<close>. \<open>decode\<close> follows the nested \<open>switch\<close> of the source,
  one branch per \<open>case\<close>; a \<open>break\<close> that leaves \<open>insn.op\<close> untouched is the \<open>Op_ILLEGAL\<close>
  of the initial value.

  \<open>Assembler\<close> relates it to an assembler for the six RV32I formats.
\<close>

section \<open>Operations and decoded instructions (decoder.h)\<close>

datatype op =
    Op_ADD | Op_SUB | Op_SLL | Op_SRL | Op_SRA | Op_SLT | Op_SLTU | Op_AND | Op_OR | Op_XOR
  | Op_ADDI | Op_SLLI | Op_SRLI | Op_SRAI | Op_SLTI | Op_SLTIU | Op_ANDI | Op_ORI | Op_XORI
  | Op_LB | Op_LH | Op_LW | Op_LBU | Op_LHU
  | Op_SB | Op_SH | Op_SW
  | Op_BEQ | Op_BNE | Op_BLT | Op_BGE | Op_BLTU | Op_BGEU
  | Op_JAL | Op_JALR
  | Op_LUI | Op_AUIPC
  | Op_ECALL | Op_EBREAK | Op_FENCE
  | Op_ILLEGAL

record instruction =
  in_raw :: u32
  in_pc :: u32
  in_op :: op
  in_rd :: u8
  in_rs1 :: u8
  in_rs2 :: u8
  in_imm :: u32

section \<open>The decoder (decoder.cpp)\<close>

definition decode_branch_op :: "u32 \<Rightarrow> op" where
  "decode_branch_op f3 =
     (if f3 = F3_BEQ then Op_BEQ else if f3 = F3_BNE then Op_BNE
      else if f3 = F3_BLT then Op_BLT else if f3 = F3_BGE then Op_BGE
      else if f3 = F3_BLTU then Op_BLTU else if f3 = F3_BGEU then Op_BGEU
      else Op_ILLEGAL)"

definition decode_load_op :: "u32 \<Rightarrow> op" where
  "decode_load_op f3 =
     (if f3 = F3_LB then Op_LB else if f3 = F3_LH then Op_LH
      else if f3 = F3_LW then Op_LW else if f3 = F3_LBU then Op_LBU
      else if f3 = F3_LHU then Op_LHU else Op_ILLEGAL)"

definition decode_store_op :: "u32 \<Rightarrow> op" where
  "decode_store_op f3 =
     (if f3 = F3_SB then Op_SB else if f3 = F3_SH then Op_SH
      else if f3 = F3_SW then Op_SW else Op_ILLEGAL)"

definition decode_op_imm :: "u32 \<Rightarrow> u32 \<Rightarrow> instruction \<Rightarrow> instruction" where
  "decode_op_imm f3 f7 insn =
     (let raw = in_raw insn; shamt = imm_i raw AND 0x1f in
      if f3 = F3_ADD_SUB then insn\<lparr>in_op := Op_ADDI\<rparr>
      else if f3 = F3_SLT then insn\<lparr>in_op := Op_SLTI\<rparr>
      else if f3 = F3_SLTU then insn\<lparr>in_op := Op_SLTIU\<rparr>
      else if f3 = F3_XOR then insn\<lparr>in_op := Op_XORI\<rparr>
      else if f3 = F3_OR then insn\<lparr>in_op := Op_ORI\<rparr>
      else if f3 = F3_AND then insn\<lparr>in_op := Op_ANDI\<rparr>
      else if f3 = F3_SLL then
        (if f7 = F7_BASE then insn\<lparr>in_op := Op_SLLI, in_imm := shamt\<rparr> else insn)
      else if f3 = F3_SRL_SRA then
        (if f7 = F7_BASE then insn\<lparr>in_op := Op_SRLI, in_imm := shamt\<rparr>
         else if f7 = F7_ALT then insn\<lparr>in_op := Op_SRAI, in_imm := shamt\<rparr>
         else insn)
      else insn)"

definition decode_op_reg :: "u32 \<Rightarrow> u32 \<Rightarrow> op" where
  "decode_op_reg f3 f7 =
     (if f3 = F3_ADD_SUB then
        (if f7 = F7_BASE then Op_ADD else if f7 = F7_ALT then Op_SUB else Op_ILLEGAL)
      else if f3 = F3_SLL then (if f7 = F7_BASE then Op_SLL else Op_ILLEGAL)
      else if f3 = F3_SLT then (if f7 = F7_BASE then Op_SLT else Op_ILLEGAL)
      else if f3 = F3_SLTU then (if f7 = F7_BASE then Op_SLTU else Op_ILLEGAL)
      else if f3 = F3_XOR then (if f7 = F7_BASE then Op_XOR else Op_ILLEGAL)
      else if f3 = F3_SRL_SRA then
        (if f7 = F7_BASE then Op_SRL else if f7 = F7_ALT then Op_SRA else Op_ILLEGAL)
      else if f3 = F3_OR then (if f7 = F7_BASE then Op_OR else Op_ILLEGAL)
      else if f3 = F3_AND then (if f7 = F7_BASE then Op_AND else Op_ILLEGAL)
      else Op_ILLEGAL)"

definition decode_system_op :: "u32 \<Rightarrow> op" where
  "decode_system_op f12 =
     (if f12 = F12_ECALL then Op_ECALL else if f12 = F12_EBREAK then Op_EBREAK
      else Op_ILLEGAL)"

definition decode :: "u32 \<Rightarrow> u32 \<Rightarrow> instruction" where
  "decode raw pc =
     (let opc = enc_opcode raw; f3 = enc_funct3 raw; f7 = enc_funct7 raw;
          insn = \<lparr>in_raw = raw, in_pc = pc, in_op = Op_ILLEGAL, in_rd = ucast (enc_rd raw),
                  in_rs1 = ucast (enc_rs1 raw), in_rs2 = ucast (enc_rs2 raw), in_imm = 0\<rparr>
      in
      if opc = OPC_LUI then
        insn\<lparr>in_op := Op_LUI, in_imm := imm_u raw, in_rs1 := 0, in_rs2 := 0\<rparr>
      else if opc = OPC_AUIPC then
        insn\<lparr>in_op := Op_AUIPC, in_imm := imm_u raw, in_rs1 := 0, in_rs2 := 0\<rparr>
      else if opc = OPC_JAL then
        insn\<lparr>in_op := Op_JAL, in_imm := imm_j raw, in_rs1 := 0, in_rs2 := 0\<rparr>
      else if opc = OPC_JALR then
        (if f3 \<noteq> 0b000 then insn
         else insn\<lparr>in_op := Op_JALR, in_imm := imm_i raw, in_rs2 := 0\<rparr>)
      else if opc = OPC_BRANCH then
        insn\<lparr>in_imm := imm_b raw, in_rd := 0, in_op := decode_branch_op f3\<rparr>
      else if opc = OPC_LOAD then
        insn\<lparr>in_imm := imm_i raw, in_rs2 := 0, in_op := decode_load_op f3\<rparr>
      else if opc = OPC_STORE then
        insn\<lparr>in_imm := imm_s raw, in_rd := 0, in_op := decode_store_op f3\<rparr>
      else if opc = OPC_OP_IMM then
        decode_op_imm f3 f7 (insn\<lparr>in_imm := imm_i raw, in_rs2 := 0\<rparr>)
      else if opc = OPC_OP then
        insn\<lparr>in_imm := 0, in_op := decode_op_reg f3 f7\<rparr>
      else if opc = OPC_MISC_MEM then
        (if f3 \<noteq> 0b000 then insn
         else insn\<lparr>in_op := Op_FENCE, in_rd := 0, in_rs1 := 0, in_rs2 := 0, in_imm := 0\<rparr>)
      else if opc = OPC_SYSTEM then
        (if f3 \<noteq> 0b000 then insn
         else insn\<lparr>in_rd := 0, in_rs1 := 0, in_rs2 := 0, in_imm := 0,
                   in_op := decode_system_op (enc_funct12 raw)\<rparr>)
      else insn)"

primrec op_name :: "op \<Rightarrow> string" where
  "op_name Op_ADD = ''add''"
| "op_name Op_SUB = ''sub''"
| "op_name Op_SLL = ''sll''"
| "op_name Op_SRL = ''srl''"
| "op_name Op_SRA = ''sra''"
| "op_name Op_SLT = ''slt''"
| "op_name Op_SLTU = ''sltu''"
| "op_name Op_AND = ''and''"
| "op_name Op_OR = ''or''"
| "op_name Op_XOR = ''xor''"
| "op_name Op_ADDI = ''addi''"
| "op_name Op_SLLI = ''slli''"
| "op_name Op_SRLI = ''srli''"
| "op_name Op_SRAI = ''srai''"
| "op_name Op_SLTI = ''slti''"
| "op_name Op_SLTIU = ''sltiu''"
| "op_name Op_ANDI = ''andi''"
| "op_name Op_ORI = ''ori''"
| "op_name Op_XORI = ''xori''"
| "op_name Op_LB = ''lb''"
| "op_name Op_LH = ''lh''"
| "op_name Op_LW = ''lw''"
| "op_name Op_LBU = ''lbu''"
| "op_name Op_LHU = ''lhu''"
| "op_name Op_SB = ''sb''"
| "op_name Op_SH = ''sh''"
| "op_name Op_SW = ''sw''"
| "op_name Op_BEQ = ''beq''"
| "op_name Op_BNE = ''bne''"
| "op_name Op_BLT = ''blt''"
| "op_name Op_BGE = ''bge''"
| "op_name Op_BLTU = ''bltu''"
| "op_name Op_BGEU = ''bgeu''"
| "op_name Op_JAL = ''jal''"
| "op_name Op_JALR = ''jalr''"
| "op_name Op_LUI = ''lui''"
| "op_name Op_AUIPC = ''auipc''"
| "op_name Op_ECALL = ''ecall''"
| "op_name Op_EBREAK = ''ebreak''"
| "op_name Op_FENCE = ''fence''"
| "op_name Op_ILLEGAL = ''ILLEGAL''"

section \<open>Classes of operations\<close>

text \<open>
  Each stage of the source has its own \<open>switch\<close> over operations (\<open>is_load\<close>,
  \<open>is_store\<close>, \<open>is_cond_branch\<close>, \<open>has_writeback\<close>); those are modelled with the stage.
  The formats of the specification:
\<close>

datatype fmt = R_fmt | I_fmt | Shift_fmt | S_fmt | B_fmt | U_fmt | J_fmt | Bare_fmt | No_fmt

primrec op_fmt :: "op \<Rightarrow> fmt" where
  "op_fmt Op_ADD = R_fmt"
| "op_fmt Op_SUB = R_fmt"
| "op_fmt Op_SLL = R_fmt"
| "op_fmt Op_SRL = R_fmt"
| "op_fmt Op_SRA = R_fmt"
| "op_fmt Op_SLT = R_fmt"
| "op_fmt Op_SLTU = R_fmt"
| "op_fmt Op_AND = R_fmt"
| "op_fmt Op_OR = R_fmt"
| "op_fmt Op_XOR = R_fmt"
| "op_fmt Op_ADDI = I_fmt"
| "op_fmt Op_SLLI = Shift_fmt"
| "op_fmt Op_SRLI = Shift_fmt"
| "op_fmt Op_SRAI = Shift_fmt"
| "op_fmt Op_SLTI = I_fmt"
| "op_fmt Op_SLTIU = I_fmt"
| "op_fmt Op_ANDI = I_fmt"
| "op_fmt Op_ORI = I_fmt"
| "op_fmt Op_XORI = I_fmt"
| "op_fmt Op_LB = I_fmt"
| "op_fmt Op_LH = I_fmt"
| "op_fmt Op_LW = I_fmt"
| "op_fmt Op_LBU = I_fmt"
| "op_fmt Op_LHU = I_fmt"
| "op_fmt Op_SB = S_fmt"
| "op_fmt Op_SH = S_fmt"
| "op_fmt Op_SW = S_fmt"
| "op_fmt Op_BEQ = B_fmt"
| "op_fmt Op_BNE = B_fmt"
| "op_fmt Op_BLT = B_fmt"
| "op_fmt Op_BGE = B_fmt"
| "op_fmt Op_BLTU = B_fmt"
| "op_fmt Op_BGEU = B_fmt"
| "op_fmt Op_JAL = J_fmt"
| "op_fmt Op_JALR = I_fmt"
| "op_fmt Op_LUI = U_fmt"
| "op_fmt Op_AUIPC = U_fmt"
| "op_fmt Op_ECALL = Bare_fmt"
| "op_fmt Op_EBREAK = Bare_fmt"
| "op_fmt Op_FENCE = Bare_fmt"
| "op_fmt Op_ILLEGAL = No_fmt"

section \<open>The register fields of a decoded instruction\<close>

text \<open>
  What the interlock and the forwarding unit rely on: a source register is the field of the
  raw word or \<open>x0\<close>, and an instruction that writes no register carries \<open>rd = 0\<close> (an illegal
  one excepted).
\<close>

lemma decode_op_imm_fields [simp]:
  "in_rd (decode_op_imm f3 f7 i) = in_rd i" "in_rs1 (decode_op_imm f3 f7 i) = in_rs1 i"
  "in_rs2 (decode_op_imm f3 f7 i) = in_rs2 i" "in_raw (decode_op_imm f3 f7 i) = in_raw i"
  "in_pc (decode_op_imm f3 f7 i) = in_pc i"
  by (simp_all add: decode_op_imm_def Let_def)

lemma decode_sources:
  "in_rs1 (decode raw pc) \<in> {0, ucast (enc_rs1 raw)}"
  "in_rs2 (decode raw pc) \<in> {0, ucast (enc_rs2 raw)}"
  by (simp_all add: decode_def Let_def)

lemma decode_fmt_writes:
  "op_fmt (decode_load_op f3) \<notin> {S_fmt, B_fmt, Bare_fmt}"
  "op_fmt (decode_op_reg f3 f7) \<notin> {S_fmt, B_fmt, Bare_fmt}"
  "in_op i = Op_ILLEGAL \<Longrightarrow> op_fmt (in_op (decode_op_imm f3 f7 i)) \<notin> {S_fmt, B_fmt, Bare_fmt}"
  by (simp_all add: decode_load_op_def decode_op_reg_def decode_op_imm_def Let_def)

lemma decode_rd_zero:
  "op_fmt (in_op (decode raw pc)) \<in> {S_fmt, B_fmt, Bare_fmt} \<Longrightarrow> in_rd (decode raw pc) = 0"
proof (rule ccontr)
  assume rd: "in_rd (decode raw pc) \<noteq> 0"
  have "op_fmt (in_op (decode raw pc)) \<notin> {S_fmt, B_fmt, Bare_fmt}"
  proof -
    consider "enc_opcode raw = OPC_LUI" | "enc_opcode raw = OPC_AUIPC" | "enc_opcode raw = OPC_JAL"
      | "enc_opcode raw = OPC_JALR" | "enc_opcode raw = OPC_BRANCH" | "enc_opcode raw = OPC_LOAD"
      | "enc_opcode raw = OPC_STORE" | "enc_opcode raw = OPC_OP_IMM" | "enc_opcode raw = OPC_OP"
      | "enc_opcode raw = OPC_MISC_MEM" | "enc_opcode raw = OPC_SYSTEM"
      | "enc_opcode raw \<notin> {OPC_LUI, OPC_AUIPC, OPC_JAL, OPC_JALR, OPC_BRANCH, OPC_LOAD, OPC_STORE,
          OPC_OP_IMM, OPC_OP, OPC_MISC_MEM, OPC_SYSTEM}" by blast
    then show ?thesis
      using rd decode_fmt_writes
      by cases (simp_all add: decode_def Let_def opc_defs split: if_splits)
  qed
  moreover assume "op_fmt (in_op (decode raw pc)) \<in> {S_fmt, B_fmt, Bare_fmt}"
  ultimately show False by blast
qed

end
