(* ===== verification/Assembler.thy ===== *)
theory Assembler
  imports Decoder
begin

unbundle bit_operations_syntax

text \<open>
  The specification of the decoder: an assembler for the instruction formats of the
  RV32I manual, the well-formed instructions, and the theorems that \<open>decode\<close> inverts the
  assembler on them and that every word \<open>decode\<close> accepts is the assembler's output.
  Nothing here models code; the definitions of the code are in \<open>Decoder\<close> and \<open>Encoding\<close>.
\<close>

section \<open>The fields of an instruction word\<close>

definition pack :: "u32 \<Rightarrow> u32 \<Rightarrow> u32 \<Rightarrow> u32 \<Rightarrow> u32 \<Rightarrow> u32 \<Rightarrow> u32" where
  "pack f7 rs2 rs1 f3 rd opc =
     push_bit 25 (f7 AND mask 7) OR push_bit 20 (rs2 AND mask 5) OR push_bit 15 (rs1 AND mask 5)
     OR push_bit 12 (f3 AND mask 3) OR push_bit 7 (rd AND mask 5) OR (opc AND mask 7)"

lemma bit_pack:
  "bit (pack f7 rs2 rs1 f3 rd opc) j \<longleftrightarrow>
     (if j < 7 then bit opc j else if j < 12 then bit rd (j - 7)
      else if j < 15 then bit f3 (j - 12) else if j < 20 then bit rs1 (j - 15)
      else if j < 25 then bit rs2 (j - 20) else j < 32 \<and> bit f7 (j - 25))"
  unfolding pack_def bit_fields by auto

lemma pack_fields [simp]:
  "enc_opcode (pack f7 rs2 rs1 f3 rd opc) = opc AND mask 7"
  "enc_rd (pack f7 rs2 rs1 f3 rd opc) = rd AND mask 5"
  "enc_funct3 (pack f7 rs2 rs1 f3 rd opc) = f3 AND mask 3"
  "enc_rs1 (pack f7 rs2 rs1 f3 rd opc) = rs1 AND mask 5"
  "enc_rs2 (pack f7 rs2 rs1 f3 rd opc) = rs2 AND mask 5"
  "enc_funct7 (pack f7 rs2 rs1 f3 rd opc) = f7 AND mask 7"
  unfolding field_defs numeral_mask_32
  by (rule u32_eqI; simp only: bit_fields bit_pack; auto)+

lemma pack_funct12:
  "enc_funct12 (pack f7 rs2 rs1 f3 rd opc) = push_bit 5 (f7 AND mask 7) OR (rs2 AND mask 5)"
  unfolding field_defs
  by (rule u32_eqI; simp only: bit_fields bit_pack; auto)

text \<open>Every word is the packing of its own fields.\<close>

lemma pack_of_fields:
  "pack (enc_funct7 w) (enc_rs2 w) (enc_rs1 w) (enc_funct3 w) (enc_rd w) (enc_opcode w) = w"
  unfolding field_defs numeral_mask_32
  by (rule u32_eqI; simp only: bit_fields bit_pack; auto)

section \<open>The formats\<close>

definition r_type :: "u32 \<Rightarrow> u32 \<Rightarrow> u32 \<Rightarrow> u32 \<Rightarrow> u32 \<Rightarrow> u32 \<Rightarrow> u32" where
  "r_type opc f3 f7 rd rs1 rs2 = pack f7 rs2 rs1 f3 rd opc"

definition i_type :: "u32 \<Rightarrow> u32 \<Rightarrow> u32 \<Rightarrow> u32 \<Rightarrow> u32 \<Rightarrow> u32" where
  "i_type opc f3 rd rs1 imm = pack (drop_bit 5 imm) imm rs1 f3 rd opc"

definition s_type :: "u32 \<Rightarrow> u32 \<Rightarrow> u32 \<Rightarrow> u32 \<Rightarrow> u32 \<Rightarrow> u32" where
  "s_type opc f3 rs1 rs2 imm = pack (drop_bit 5 imm) rs2 rs1 f3 imm opc"

definition b_type :: "u32 \<Rightarrow> u32 \<Rightarrow> u32 \<Rightarrow> u32 \<Rightarrow> u32 \<Rightarrow> u32" where
  "b_type opc f3 rs1 rs2 imm =
     pack (push_bit 6 (drop_bit 12 imm AND mask 1) OR (drop_bit 5 imm AND mask 6)) rs2 rs1 f3
       (push_bit 1 (drop_bit 1 imm AND mask 4) OR (drop_bit 11 imm AND mask 1)) opc"

definition u_type :: "u32 \<Rightarrow> u32 \<Rightarrow> u32 \<Rightarrow> u32" where
  "u_type opc rd imm =
     pack (drop_bit 25 imm) (drop_bit 20 imm) (drop_bit 15 imm) (drop_bit 12 imm) rd opc"

definition j_type :: "u32 \<Rightarrow> u32 \<Rightarrow> u32 \<Rightarrow> u32" where
  "j_type opc rd imm =
     pack (push_bit 6 (drop_bit 20 imm AND mask 1) OR (drop_bit 5 imm AND mask 6))
       (push_bit 1 (drop_bit 1 imm AND mask 4) OR (drop_bit 11 imm AND mask 1))
       (drop_bit 15 imm) (drop_bit 12 imm) rd opc"

lemmas type_defs = r_type_def i_type_def s_type_def b_type_def u_type_def j_type_def

primrec op_opc :: "op \<Rightarrow> u32" where
  "op_opc Op_ADD = OPC_OP"
| "op_opc Op_SUB = OPC_OP"
| "op_opc Op_SLL = OPC_OP"
| "op_opc Op_SRL = OPC_OP"
| "op_opc Op_SRA = OPC_OP"
| "op_opc Op_SLT = OPC_OP"
| "op_opc Op_SLTU = OPC_OP"
| "op_opc Op_AND = OPC_OP"
| "op_opc Op_OR = OPC_OP"
| "op_opc Op_XOR = OPC_OP"
| "op_opc Op_ADDI = OPC_OP_IMM"
| "op_opc Op_SLLI = OPC_OP_IMM"
| "op_opc Op_SRLI = OPC_OP_IMM"
| "op_opc Op_SRAI = OPC_OP_IMM"
| "op_opc Op_SLTI = OPC_OP_IMM"
| "op_opc Op_SLTIU = OPC_OP_IMM"
| "op_opc Op_ANDI = OPC_OP_IMM"
| "op_opc Op_ORI = OPC_OP_IMM"
| "op_opc Op_XORI = OPC_OP_IMM"
| "op_opc Op_LB = OPC_LOAD"
| "op_opc Op_LH = OPC_LOAD"
| "op_opc Op_LW = OPC_LOAD"
| "op_opc Op_LBU = OPC_LOAD"
| "op_opc Op_LHU = OPC_LOAD"
| "op_opc Op_SB = OPC_STORE"
| "op_opc Op_SH = OPC_STORE"
| "op_opc Op_SW = OPC_STORE"
| "op_opc Op_BEQ = OPC_BRANCH"
| "op_opc Op_BNE = OPC_BRANCH"
| "op_opc Op_BLT = OPC_BRANCH"
| "op_opc Op_BGE = OPC_BRANCH"
| "op_opc Op_BLTU = OPC_BRANCH"
| "op_opc Op_BGEU = OPC_BRANCH"
| "op_opc Op_JAL = OPC_JAL"
| "op_opc Op_JALR = OPC_JALR"
| "op_opc Op_LUI = OPC_LUI"
| "op_opc Op_AUIPC = OPC_AUIPC"
| "op_opc Op_ECALL = OPC_SYSTEM"
| "op_opc Op_EBREAK = OPC_SYSTEM"
| "op_opc Op_FENCE = OPC_MISC_MEM"
| "op_opc Op_ILLEGAL = 0"

primrec op_f3 :: "op \<Rightarrow> u32" where
  "op_f3 Op_ADD = F3_ADD_SUB"
| "op_f3 Op_SUB = F3_ADD_SUB"
| "op_f3 Op_SLL = F3_SLL"
| "op_f3 Op_SRL = F3_SRL_SRA"
| "op_f3 Op_SRA = F3_SRL_SRA"
| "op_f3 Op_SLT = F3_SLT"
| "op_f3 Op_SLTU = F3_SLTU"
| "op_f3 Op_AND = F3_AND"
| "op_f3 Op_OR = F3_OR"
| "op_f3 Op_XOR = F3_XOR"
| "op_f3 Op_ADDI = F3_ADD_SUB"
| "op_f3 Op_SLLI = F3_SLL"
| "op_f3 Op_SRLI = F3_SRL_SRA"
| "op_f3 Op_SRAI = F3_SRL_SRA"
| "op_f3 Op_SLTI = F3_SLT"
| "op_f3 Op_SLTIU = F3_SLTU"
| "op_f3 Op_ANDI = F3_AND"
| "op_f3 Op_ORI = F3_OR"
| "op_f3 Op_XORI = F3_XOR"
| "op_f3 Op_LB = F3_LB"
| "op_f3 Op_LH = F3_LH"
| "op_f3 Op_LW = F3_LW"
| "op_f3 Op_LBU = F3_LBU"
| "op_f3 Op_LHU = F3_LHU"
| "op_f3 Op_SB = F3_SB"
| "op_f3 Op_SH = F3_SH"
| "op_f3 Op_SW = F3_SW"
| "op_f3 Op_BEQ = F3_BEQ"
| "op_f3 Op_BNE = F3_BNE"
| "op_f3 Op_BLT = F3_BLT"
| "op_f3 Op_BGE = F3_BGE"
| "op_f3 Op_BLTU = F3_BLTU"
| "op_f3 Op_BGEU = F3_BGEU"
| "op_f3 Op_JAL = 0"
| "op_f3 Op_JALR = 0"
| "op_f3 Op_LUI = 0"
| "op_f3 Op_AUIPC = 0"
| "op_f3 Op_ECALL = 0"
| "op_f3 Op_EBREAK = 0"
| "op_f3 Op_FENCE = 0"
| "op_f3 Op_ILLEGAL = 0"

primrec op_f7 :: "op \<Rightarrow> u32" where
  "op_f7 Op_ADD = F7_BASE"
| "op_f7 Op_SUB = F7_ALT"
| "op_f7 Op_SLL = F7_BASE"
| "op_f7 Op_SRL = F7_BASE"
| "op_f7 Op_SRA = F7_ALT"
| "op_f7 Op_SLT = F7_BASE"
| "op_f7 Op_SLTU = F7_BASE"
| "op_f7 Op_AND = F7_BASE"
| "op_f7 Op_OR = F7_BASE"
| "op_f7 Op_XOR = F7_BASE"
| "op_f7 Op_ADDI = F7_BASE"
| "op_f7 Op_SLLI = F7_BASE"
| "op_f7 Op_SRLI = F7_BASE"
| "op_f7 Op_SRAI = F7_ALT"
| "op_f7 Op_SLTI = F7_BASE"
| "op_f7 Op_SLTIU = F7_BASE"
| "op_f7 Op_ANDI = F7_BASE"
| "op_f7 Op_ORI = F7_BASE"
| "op_f7 Op_XORI = F7_BASE"
| "op_f7 Op_LB = F7_BASE"
| "op_f7 Op_LH = F7_BASE"
| "op_f7 Op_LW = F7_BASE"
| "op_f7 Op_LBU = F7_BASE"
| "op_f7 Op_LHU = F7_BASE"
| "op_f7 Op_SB = F7_BASE"
| "op_f7 Op_SH = F7_BASE"
| "op_f7 Op_SW = F7_BASE"
| "op_f7 Op_BEQ = F7_BASE"
| "op_f7 Op_BNE = F7_BASE"
| "op_f7 Op_BLT = F7_BASE"
| "op_f7 Op_BGE = F7_BASE"
| "op_f7 Op_BLTU = F7_BASE"
| "op_f7 Op_BGEU = F7_BASE"
| "op_f7 Op_JAL = F7_BASE"
| "op_f7 Op_JALR = F7_BASE"
| "op_f7 Op_LUI = F7_BASE"
| "op_f7 Op_AUIPC = F7_BASE"
| "op_f7 Op_ECALL = F7_BASE"
| "op_f7 Op_EBREAK = F7_BASE"
| "op_f7 Op_FENCE = F7_BASE"
| "op_f7 Op_ILLEGAL = F7_BASE"

definition encode :: "instruction \<Rightarrow> u32" where
  "encode i =
     (let opc = op_opc (in_op i); f3 = op_f3 (in_op i); f7 = op_f7 (in_op i);
          rd = ucast (in_rd i); rs1 = ucast (in_rs1 i); rs2 = ucast (in_rs2 i); imm = in_imm i
      in case op_fmt (in_op i) of
           R_fmt \<Rightarrow> r_type opc f3 f7 rd rs1 rs2
         | I_fmt \<Rightarrow> i_type opc f3 rd rs1 imm
         | Shift_fmt \<Rightarrow> r_type opc f3 f7 rd rs1 imm
         | S_fmt \<Rightarrow> s_type opc f3 rs1 rs2 imm
         | B_fmt \<Rightarrow> b_type opc f3 rs1 rs2 imm
         | U_fmt \<Rightarrow> u_type opc rd imm
         | J_fmt \<Rightarrow> j_type opc rd imm
         | Bare_fmt \<Rightarrow> i_type opc 0 0 0 (if in_op i = Op_EBREAK then 1 else 0)
         | No_fmt \<Rightarrow> 0)"

text \<open>
  The operands each format can express: register numbers fit in five bits, immediates in
  the format's field, and the fields it lacks are zero.
\<close>

definition reg_ok :: "u8 \<Rightarrow> bool" where
  "reg_ok r \<longleftrightarrow> take_bit 5 r = r"

definition wf_insn :: "instruction \<Rightarrow> bool" where
  "wf_insn i =
     (let imm = in_imm i in
      reg_ok (in_rd i) \<and> reg_ok (in_rs1 i) \<and> reg_ok (in_rs2 i) \<and>
      (case op_fmt (in_op i) of
         R_fmt \<Rightarrow> imm = 0
       | I_fmt \<Rightarrow> in_rs2 i = 0 \<and> signed_take_bit 11 imm = imm
       | Shift_fmt \<Rightarrow> in_rs2 i = 0 \<and> take_bit 5 imm = imm
       | S_fmt \<Rightarrow> in_rd i = 0 \<and> signed_take_bit 11 imm = imm
       | B_fmt \<Rightarrow> in_rd i = 0 \<and> signed_take_bit 12 imm = imm \<and> \<not> bit imm 0
       | U_fmt \<Rightarrow> in_rs1 i = 0 \<and> in_rs2 i = 0 \<and> take_bit 12 imm = 0
       | J_fmt \<Rightarrow> in_rs1 i = 0 \<and> in_rs2 i = 0 \<and> signed_take_bit 20 imm = imm \<and> \<not> bit imm 0
       | Bare_fmt \<Rightarrow> in_rd i = 0 \<and> in_rs1 i = 0 \<and> in_rs2 i = 0 \<and> imm = 0
       | No_fmt \<Rightarrow> False))"

section \<open>The immediates of packed words\<close>

lemma imm_i_pack: "imm_i (pack (drop_bit 5 imm) imm rs1 f3 rd opc) = signed_take_bit 11 imm"
  by (rule u32_eqI)
    (auto simp: bit_imm_i bit_pack bit_shifted_down bit_signed_take_bit_32 min_def)

lemma imm_s_pack: "imm_s (pack (drop_bit 5 imm) rs2 rs1 f3 imm opc) = signed_take_bit 11 imm"
  by (rule u32_eqI)
    (auto simp: bit_imm_s bit_pack bit_shifted_down bit_signed_take_bit_32 min_def)

lemma imm_b_type:
  "\<not> bit imm 0 \<Longrightarrow> imm_b (b_type opc f3 rs1 rs2 imm) = signed_take_bit 12 imm"
  unfolding b_type_def
  by (rule u32_eqI; rename_tac n; case_tac "n = 0 \<or> n = 12"; simp only: bit_imm_b bit_pack bit_fields bit_signed_take_bit_32)
    (auto simp: min_def)

lemma imm_u_type: "imm_u (u_type opc rd imm) = push_bit 12 (drop_bit 12 imm)"
  unfolding u_type_def
  by (rule u32_eqI; simp only: bit_imm_u bit_pack bit_fields) auto

lemma imm_j_type:
  "\<not> bit imm 0 \<Longrightarrow> imm_j (j_type opc rd imm) = signed_take_bit 20 imm"
  unfolding j_type_def
  by (rule u32_eqI; rename_tac n; case_tac "n = 0"; simp only: bit_imm_j bit_pack bit_fields bit_signed_take_bit_32)
    (auto simp: min_def)

lemma imm_i_type: "imm_i (i_type opc f3 rd rs1 imm) = signed_take_bit 11 imm"
  by (simp add: i_type_def imm_i_pack)

lemma imm_s_type: "imm_s (s_type opc f3 rs1 rs2 imm) = signed_take_bit 11 imm"
  by (simp add: s_type_def imm_s_pack)

lemma shamt_pack: "imm_i (pack f7 imm rs1 f3 rd opc) AND mask 5 = imm AND mask 5"
  by (rule u32_eqI; simp only: bit_low bit_imm_i bit_pack) auto

lemma i_type_funct12: "enc_funct12 (i_type opc f3 rd rs1 imm) = imm AND mask 12"
  unfolding i_type_def field_defs
  by (rule u32_eqI; simp only: bit_fields bit_pack; auto)

lemma type_fields:
  "enc_opcode (r_type opc f3 f7 rd rs1 rs2) = opc AND mask 7"
  "enc_opcode (i_type opc f3 rd rs1 imm) = opc AND mask 7"
  "enc_opcode (s_type opc f3 rs1 rs2 imm) = opc AND mask 7"
  "enc_opcode (b_type opc f3 rs1 rs2 imm) = opc AND mask 7"
  "enc_opcode (u_type opc rd imm) = opc AND mask 7"
  "enc_opcode (j_type opc rd imm) = opc AND mask 7"
  "enc_funct3 (r_type opc f3 f7 rd rs1 rs2) = f3 AND mask 3"
  "enc_funct3 (i_type opc f3 rd rs1 imm) = f3 AND mask 3"
  "enc_funct3 (s_type opc f3 rs1 rs2 imm) = f3 AND mask 3"
  "enc_funct3 (b_type opc f3 rs1 rs2 imm) = f3 AND mask 3"
  "enc_rd (r_type opc f3 f7 rd rs1 rs2) = rd AND mask 5"
  "enc_rd (i_type opc f3 rd rs1 imm) = rd AND mask 5"
  "enc_rd (u_type opc rd imm) = rd AND mask 5"
  "enc_rd (j_type opc rd imm) = rd AND mask 5"
  "enc_rs1 (r_type opc f3 f7 rd rs1 rs2) = rs1 AND mask 5"
  "enc_rs1 (i_type opc f3 rd rs1 imm) = rs1 AND mask 5"
  "enc_rs1 (s_type opc f3 rs1 rs2 imm) = rs1 AND mask 5"
  "enc_rs1 (b_type opc f3 rs1 rs2 imm) = rs1 AND mask 5"
  "enc_rs2 (r_type opc f3 f7 rd rs1 rs2) = rs2 AND mask 5"
  "enc_rs2 (s_type opc f3 rs1 rs2 imm) = rs2 AND mask 5"
  "enc_rs2 (b_type opc f3 rs1 rs2 imm) = rs2 AND mask 5"
  "enc_funct7 (r_type opc f3 f7 rd rs1 rs2) = f7 AND mask 7"
  "imm_i (r_type opc f3 f7 rd rs1 rs2) AND mask 5 = rs2 AND mask 5"
  unfolding type_defs by (simp_all only: pack_fields shamt_pack)

lemmas asm_simps = type_fields imm_i_type imm_s_type imm_b_type imm_u_type imm_j_type
  i_type_funct12

section \<open>Decoding inverts assembling\<close>

lemma bit_reg_ok: "reg_ok r \<Longrightarrow> bit r n \<Longrightarrow> n < 5"
  by (metis bit_take_bit_iff reg_ok_def)

lemma ucast_reg_ok: "reg_ok r \<Longrightarrow> ucast ((ucast r :: u32) AND mask 5) = r"
  by (rule bit_word_eqI) (auto simp: bit_simps dest: bit_reg_ok)

lemma const_fields:
  "op_opc op AND mask 7 = op_opc op" "op_f3 op AND mask 3 = op_f3 op"
  "op_f7 op AND mask 7 = op_f7 op"
  by (cases op; simp add: opc_defs f3_defs f7_defs mask_eq_exp_minus_1)+

lemma low12_clear: "take_bit 12 imm = 0 \<Longrightarrow> push_bit 12 (drop_bit 12 (imm :: u32)) = imm"
  by (metis add.left_neutral bits_ident add.commute)

lemma encode_opcode:
  "op_fmt (in_op i) \<noteq> No_fmt \<Longrightarrow> enc_opcode (encode i) = op_opc (in_op i)"
  unfolding encode_def Let_def
  by (cases "op_fmt (in_op i)") (simp_all add: type_fields const_fields)

lemma bare_funct3: "op_fmt op = Bare_fmt \<Longrightarrow> op_f3 op = 0"
  by (cases op) simp_all

lemma encode_funct3:
  "op_fmt (in_op i) \<notin> {No_fmt, U_fmt, J_fmt} \<Longrightarrow> enc_funct3 (encode i) = op_f3 (in_op i)"
  using const_fields(2) [of "in_op i"] unfolding encode_def Let_def
  by (cases "op_fmt (in_op i)") (simp_all add: type_fields bare_funct3)

lemma encode_funct7:
  "op_fmt (in_op i) \<in> {R_fmt, Shift_fmt} \<Longrightarrow> enc_funct7 (encode i) = op_f7 (in_op i)"
  unfolding encode_def Let_def
  by (cases "op_fmt (in_op i)") (simp_all add: type_fields const_fields)

lemma encode_regs:
  assumes "wf_insn i"
  shows "op_fmt (in_op i) \<in> {R_fmt, I_fmt, Shift_fmt, U_fmt, J_fmt} \<Longrightarrow>
           ucast (enc_rd (encode i)) = in_rd i"
    and "op_fmt (in_op i) \<in> {R_fmt, I_fmt, Shift_fmt, S_fmt, B_fmt} \<Longrightarrow>
           ucast (enc_rs1 (encode i)) = in_rs1 i"
    and "op_fmt (in_op i) \<in> {R_fmt, S_fmt, B_fmt} \<Longrightarrow>
           ucast (enc_rs2 (encode i)) = in_rs2 i"
  using assms unfolding encode_def wf_insn_def Let_def
  by (cases "op_fmt (in_op i)"; simp add: type_fields ucast_reg_ok)+

lemma encode_imm:
  assumes "wf_insn i"
  shows "op_fmt (in_op i) = I_fmt \<Longrightarrow> imm_i (encode i) = in_imm i"
    and "op_fmt (in_op i) = Shift_fmt \<Longrightarrow> imm_i (encode i) AND mask 5 = in_imm i"
    and "op_fmt (in_op i) = S_fmt \<Longrightarrow> imm_s (encode i) = in_imm i"
    and "op_fmt (in_op i) = B_fmt \<Longrightarrow> imm_b (encode i) = in_imm i"
    and "op_fmt (in_op i) = U_fmt \<Longrightarrow> imm_u (encode i) = in_imm i"
    and "op_fmt (in_op i) = J_fmt \<Longrightarrow> imm_j (encode i) = in_imm i"
  using assms unfolding encode_def wf_insn_def Let_def
  by (simp_all add: asm_simps low12_clear take_bit_eq_mask)

lemma encode_funct12:
  "in_op i = Op_ECALL \<Longrightarrow> enc_funct12 (encode i) = F12_ECALL"
  "in_op i = Op_EBREAK \<Longrightarrow> enc_funct12 (encode i) = F12_EBREAK"
  unfolding encode_def Let_def f7_defs
  by (simp_all add: i_type_funct12 mask_eq_exp_minus_1)

lemmas decoder_defs = decode_op_imm_def decode_op_reg_def decode_branch_op_def
  decode_load_op_def decode_store_op_def decode_system_op_def

text \<open>What \<open>decode\<close> returns for each major opcode.\<close>

lemma decode_by_opcode:
  "enc_opcode w = OPC_OP \<Longrightarrow> decode w pc =
     \<lparr>in_raw = w, in_pc = pc, in_op = decode_op_reg (enc_funct3 w) (enc_funct7 w),
      in_rd = ucast (enc_rd w), in_rs1 = ucast (enc_rs1 w), in_rs2 = ucast (enc_rs2 w),
      in_imm = 0\<rparr>"
  "enc_opcode w = OPC_OP_IMM \<Longrightarrow> decode w pc =
     decode_op_imm (enc_funct3 w) (enc_funct7 w)
       \<lparr>in_raw = w, in_pc = pc, in_op = Op_ILLEGAL, in_rd = ucast (enc_rd w),
        in_rs1 = ucast (enc_rs1 w), in_rs2 = 0, in_imm = imm_i w\<rparr>"
  "enc_opcode w = OPC_LOAD \<Longrightarrow> decode w pc =
     \<lparr>in_raw = w, in_pc = pc, in_op = decode_load_op (enc_funct3 w),
      in_rd = ucast (enc_rd w), in_rs1 = ucast (enc_rs1 w), in_rs2 = 0, in_imm = imm_i w\<rparr>"
  "enc_opcode w = OPC_STORE \<Longrightarrow> decode w pc =
     \<lparr>in_raw = w, in_pc = pc, in_op = decode_store_op (enc_funct3 w), in_rd = 0,
      in_rs1 = ucast (enc_rs1 w), in_rs2 = ucast (enc_rs2 w), in_imm = imm_s w\<rparr>"
  "enc_opcode w = OPC_BRANCH \<Longrightarrow> decode w pc =
     \<lparr>in_raw = w, in_pc = pc, in_op = decode_branch_op (enc_funct3 w), in_rd = 0,
      in_rs1 = ucast (enc_rs1 w), in_rs2 = ucast (enc_rs2 w), in_imm = imm_b w\<rparr>"
  "enc_opcode w = OPC_LUI \<Longrightarrow> decode w pc =
     \<lparr>in_raw = w, in_pc = pc, in_op = Op_LUI, in_rd = ucast (enc_rd w), in_rs1 = 0,
      in_rs2 = 0, in_imm = imm_u w\<rparr>"
  "enc_opcode w = OPC_AUIPC \<Longrightarrow> decode w pc =
     \<lparr>in_raw = w, in_pc = pc, in_op = Op_AUIPC, in_rd = ucast (enc_rd w), in_rs1 = 0,
      in_rs2 = 0, in_imm = imm_u w\<rparr>"
  "enc_opcode w = OPC_JAL \<Longrightarrow> decode w pc =
     \<lparr>in_raw = w, in_pc = pc, in_op = Op_JAL, in_rd = ucast (enc_rd w), in_rs1 = 0,
      in_rs2 = 0, in_imm = imm_j w\<rparr>"
  "enc_opcode w = OPC_JALR \<Longrightarrow> enc_funct3 w = 0 \<Longrightarrow> decode w pc =
     \<lparr>in_raw = w, in_pc = pc, in_op = Op_JALR, in_rd = ucast (enc_rd w),
      in_rs1 = ucast (enc_rs1 w), in_rs2 = 0, in_imm = imm_i w\<rparr>"
  "enc_opcode w = OPC_MISC_MEM \<Longrightarrow> enc_funct3 w = 0 \<Longrightarrow> decode w pc =
     \<lparr>in_raw = w, in_pc = pc, in_op = Op_FENCE, in_rd = 0, in_rs1 = 0, in_rs2 = 0,
      in_imm = 0\<rparr>"
  "enc_opcode w = OPC_SYSTEM \<Longrightarrow> enc_funct3 w = 0 \<Longrightarrow> decode w pc =
     \<lparr>in_raw = w, in_pc = pc, in_op = decode_system_op (enc_funct12 w), in_rd = 0,
      in_rs1 = 0, in_rs2 = 0, in_imm = 0\<rparr>"
  by (simp_all add: decode_def Let_def opc_defs)

lemma insn_with_raw:
  "i\<lparr>in_raw := w\<rparr> = \<lparr>in_raw = w, in_pc = in_pc i, in_op = in_op i, in_rd = in_rd i,
     in_rs1 = in_rs1 i, in_rs2 = in_rs2 i, in_imm = in_imm i\<rparr>"
  by simp

lemma decode_assembled:
  assumes wf: "wf_insn i"
  shows "decode (encode i) (in_pc i) = i\<lparr>in_raw := encode i\<rparr>"
proof -
  note enc = encode_regs [OF wf] encode_imm [OF wf]
  show ?thesis
    unfolding insn_with_raw using wf
    by (cases "in_op i") (simp_all add: decode_by_opcode encode_opcode encode_funct3
      encode_funct7 encode_funct12 enc wf_insn_def Let_def decoder_defs numeral_mask_32(4)
      f3_defs f7_defs)
qed

text \<open>
  C24: decoding the assembled encoding of any well-formed instruction gives back that
  instruction, operand for operand.
\<close>

theorem decode_encode:
  assumes "wf_insn i"
  shows "decode (encode i) (in_pc i) = i\<lparr>in_raw := encode i\<rparr>"
  using decode_assembled [OF assms] .

section \<open>Every accepted word is the assembler's output\<close>

lemma reassemble:
  "i_type (enc_opcode w) (enc_funct3 w) (enc_rd w) (enc_rs1 w) (imm_i w) = w"
  "s_type (enc_opcode w) (enc_funct3 w) (enc_rs1 w) (enc_rs2 w) (imm_s w) = w"
  "b_type (enc_opcode w) (enc_funct3 w) (enc_rs1 w) (enc_rs2 w) (imm_b w) = w"
  "u_type (enc_opcode w) (enc_rd w) (imm_u w) = w"
  "j_type (enc_opcode w) (enc_rd w) (imm_j w) = w"
  unfolding type_defs field_defs numeral_mask_32
  by (rule u32_eqI, rename_tac n, case_tac "n = 7 \<or> n = 20 \<or> n = 31";
      simp only: bit_fields bit_pack; auto simp: bit_imm)+

lemma reassemble_r:
  "r_type (enc_opcode w) (enc_funct3 w) (enc_funct7 w) (enc_rd w) (enc_rs1 w) (enc_rs2 w) = w"
  by (simp add: r_type_def pack_of_fields)

lemma reassemble_shift:
  "r_type (enc_opcode w) (enc_funct3 w) (enc_funct7 w) (enc_rd w) (enc_rs1 w) (imm_i w AND 0x1f) = w"
  unfolding type_defs field_defs numeral_mask_32
  by (rule u32_eqI; simp only: bit_fields bit_pack; auto simp: bit_imm)

lemma ucast_field:
  "ucast (ucast (enc_rd w) :: u8) = enc_rd w"
  "ucast (ucast (enc_rs1 w) :: u8) = enc_rs1 w"
  "ucast (ucast (enc_rs2 w) :: u8) = enc_rs2 w"
  unfolding field_defs numeral_mask_32
  by (rule u32_eqI; auto simp: bit_simps)+

lemma reg_ok_field [simp]:
  "reg_ok (ucast (enc_rd w))" "reg_ok (ucast (enc_rs1 w))" "reg_ok (ucast (enc_rs2 w))" "reg_ok 0"
  unfolding reg_ok_def field_defs numeral_mask_32
  by (rule bit_word_eqI; auto simp: bit_simps)+ 

lemma imm_fits [simp]:
  "signed_take_bit 11 (imm_i w) = imm_i w" "signed_take_bit 11 (imm_s w) = imm_s w"
  "signed_take_bit 12 (imm_b w) = imm_b w" "signed_take_bit 20 (imm_j w) = imm_j w"
  "take_bit 12 (imm_u w) = 0" "take_bit 5 (imm_i w AND 0x1f) = imm_i w AND 0x1f"
  "take_bit 5 (imm_i w) AND 0x1f = imm_i w AND 0x1f"
  unfolding numeral_mask_32
  by (rule u32_eqI; auto simp: bit_signed_take_bit_32 bit_imm min_def bit_take_bit_iff bit_low)+

text \<open>The nested switches are inverted by the assembler's opcode tables.\<close>

lemma decode_op_reg_inv:
  "decode_op_reg f3 f7 = op \<Longrightarrow> op \<noteq> Op_ILLEGAL \<Longrightarrow>
     op_opc op = OPC_OP \<and> op_f3 op = f3 \<and> op_f7 op = f7 \<and> op_fmt op = R_fmt"
  unfolding decode_op_reg_def by (auto split: if_splits)

lemma decode_load_op_inv:
  "decode_load_op f3 = op \<Longrightarrow> op \<noteq> Op_ILLEGAL \<Longrightarrow>
     op_opc op = OPC_LOAD \<and> op_f3 op = f3 \<and> op_fmt op = I_fmt"
  unfolding decode_load_op_def by (auto split: if_splits)

lemma decode_store_op_inv:
  "decode_store_op f3 = op \<Longrightarrow> op \<noteq> Op_ILLEGAL \<Longrightarrow>
     op_opc op = OPC_STORE \<and> op_f3 op = f3 \<and> op_fmt op = S_fmt"
  unfolding decode_store_op_def by (auto split: if_splits)

lemma decode_branch_op_inv:
  "decode_branch_op f3 = op \<Longrightarrow> op \<noteq> Op_ILLEGAL \<Longrightarrow>
     op_opc op = OPC_BRANCH \<and> op_f3 op = f3 \<and> op_fmt op = B_fmt"
  unfolding decode_branch_op_def by (auto split: if_splits)

lemma decode_system_op_inv:
  "decode_system_op f12 = op \<Longrightarrow> op \<noteq> Op_ILLEGAL \<Longrightarrow> op_fmt op = Bare_fmt"
  unfolding decode_system_op_def by (auto split: if_splits)

lemma decode_op_imm_simps:
  "decode_op_imm F3_ADD_SUB f7 insn = insn\<lparr>in_op := Op_ADDI\<rparr>"
  "decode_op_imm F3_SLT f7 insn = insn\<lparr>in_op := Op_SLTI\<rparr>"
  "decode_op_imm F3_SLTU f7 insn = insn\<lparr>in_op := Op_SLTIU\<rparr>"
  "decode_op_imm F3_XOR f7 insn = insn\<lparr>in_op := Op_XORI\<rparr>"
  "decode_op_imm F3_OR f7 insn = insn\<lparr>in_op := Op_ORI\<rparr>"
  "decode_op_imm F3_AND f7 insn = insn\<lparr>in_op := Op_ANDI\<rparr>"
  "decode_op_imm F3_SLL F7_BASE insn =
     insn\<lparr>in_op := Op_SLLI, in_imm := imm_i (in_raw insn) AND 0x1f\<rparr>"
  "decode_op_imm F3_SRL_SRA F7_BASE insn =
     insn\<lparr>in_op := Op_SRLI, in_imm := imm_i (in_raw insn) AND 0x1f\<rparr>"
  "decode_op_imm F3_SRL_SRA F7_ALT insn =
     insn\<lparr>in_op := Op_SRAI, in_imm := imm_i (in_raw insn) AND 0x1f\<rparr>"
  by (simp_all add: decode_op_imm_def Let_def f3_defs f7_defs)

lemma decode_op_imm_cases:
  obtains "f3 \<in> {F3_ADD_SUB, F3_SLT, F3_SLTU, F3_XOR, F3_OR, F3_AND}"
    | "f3 = F3_SLL" "f7 = F7_BASE"
    | "f3 = F3_SRL_SRA" "f7 = F7_BASE"
    | "f3 = F3_SRL_SRA" "f7 = F7_ALT"
    | "decode_op_imm f3 f7 insn = insn"
proof (cases "f3 \<in> {F3_ADD_SUB, F3_SLT, F3_SLTU, F3_XOR, F3_OR, F3_AND}")
  case False
  then have "decode_op_imm f3 f7 insn = insn \<or> f3 = F3_SLL \<and> f7 = F7_BASE \<or>
      f3 = F3_SRL_SRA \<and> (f7 = F7_BASE \<or> f7 = F7_ALT)"
    by (simp add: decode_op_imm_def Let_def)
  then show ?thesis using that by blast
qed (use that in blast)

lemma decode_op_imm_inv:
  assumes "in_op insn = Op_ILLEGAL" and "in_op (decode_op_imm f3 f7 insn) = op"
    and "op \<noteq> Op_ILLEGAL"
  shows "op_opc op = OPC_OP_IMM \<and> op_f3 op = f3 \<and>
    (op_fmt op = I_fmt \<and> decode_op_imm f3 f7 insn = insn\<lparr>in_op := op\<rparr> \<or>
     op_fmt op = Shift_fmt \<and> op_f7 op = f7 \<and>
       decode_op_imm f3 f7 insn = insn\<lparr>in_op := op, in_imm := imm_i (in_raw insn) AND 0x1f\<rparr>)"
  by (rule decode_op_imm_cases [where ?f3.0 = f3 and ?f7.0 = f7 and insn = insn])
    (use assms in \<open>auto simp: decode_op_imm_simps\<close>)

lemma decode_illegal_opcode:
  assumes "in_op (decode w pc) \<noteq> Op_ILLEGAL"
  shows "enc_opcode w \<in> {OPC_LUI, OPC_AUIPC, OPC_JAL, OPC_JALR, OPC_BRANCH, OPC_LOAD, OPC_STORE,
           OPC_OP_IMM, OPC_OP, OPC_MISC_MEM, OPC_SYSTEM}"
    and "enc_opcode w \<in> {OPC_JALR, OPC_MISC_MEM, OPC_SYSTEM} \<Longrightarrow> enc_funct3 w = 0"
  using assms unfolding decode_def Let_def by (auto split: if_splits simp: opc_defs)

lemma assemble_decoded:
  assumes legal: "op_fmt (in_op (decode w pc)) \<notin> {No_fmt, Bare_fmt}"
  shows "wf_insn (decode w pc) \<and> encode (decode w pc) = w"
proof -
  have op: "in_op (decode w pc) \<noteq> Op_ILLEGAL"
    using legal by auto
  note dec = decode_by_opcode [of w pc]
  note recode = wf_insn_def encode_def Let_def ucast_field reassemble_r reassemble reassemble_shift
  consider "enc_opcode w = OPC_OP" | "enc_opcode w = OPC_OP_IMM" | "enc_opcode w = OPC_LOAD"
    | "enc_opcode w = OPC_STORE" | "enc_opcode w = OPC_BRANCH" | "enc_opcode w = OPC_LUI"
    | "enc_opcode w = OPC_AUIPC" | "enc_opcode w = OPC_JAL"
    | "enc_opcode w = OPC_JALR" "enc_funct3 w = 0" 
    | "enc_opcode w \<in> {OPC_MISC_MEM, OPC_SYSTEM}" "enc_funct3 w = 0"
    using decode_illegal_opcode [OF op] by auto
  then show ?thesis
  proof cases
    case 1
    then show ?thesis
      using op decode_op_reg_inv [OF refl, of "enc_funct3 w" "enc_funct7 w"] reassemble_r [of w]
      by (simp add: dec(1) recode)
  next
    case 2
    let ?insn = "\<lparr>in_raw = w, in_pc = pc, in_op = Op_ILLEGAL, in_rd = ucast (enc_rd w),
      in_rs1 = ucast (enc_rs1 w), in_rs2 = 0, in_imm = imm_i w\<rparr>"
    obtain o' where o': "in_op (decode w pc) = o'" "o' \<noteq> Op_ILLEGAL" using op by blast
    have "in_op ?insn = Op_ILLEGAL" by simp
    from decode_op_imm_inv [OF this, of "enc_funct3 w" "enc_funct7 w" o'] 2 o'
    consider "op_opc o' = OPC_OP_IMM" "op_f3 o' = enc_funct3 w" "op_fmt o' = I_fmt"
        "decode w pc = ?insn\<lparr>in_op := o'\<rparr>"
      | "op_opc o' = OPC_OP_IMM" "op_f3 o' = enc_funct3 w" "op_f7 o' = enc_funct7 w"
        "op_fmt o' = Shift_fmt" "decode w pc = ?insn\<lparr>in_op := o', in_imm := imm_i w AND 0x1f\<rparr>"
      by (auto simp: dec(2))
    then show ?thesis using 2 reassemble(1) [of w] reassemble_shift [of w]
      by cases (simp_all add: recode)
  next
    case 3
    then show ?thesis
      using op decode_load_op_inv [OF refl, of "enc_funct3 w"] reassemble(1) [of w]
      by (simp add: dec(3) recode)
  next
    case 4
    then show ?thesis
      using op decode_store_op_inv [OF refl, of "enc_funct3 w"] reassemble(2) [of w]
      by (simp add: dec(4) recode)
  next
    case 5
    then show ?thesis
      using op decode_branch_op_inv [OF refl, of "enc_funct3 w"] reassemble(3) [of w] imm_b_even [of w]
      by (simp add: dec(5) recode)
  next
    case 6
    then show ?thesis using reassemble(4) [of w] by (simp add: dec(6) recode)
  next
    case 7
    then show ?thesis using reassemble(4) [of w] by (simp add: dec(7) recode)
  next
    case 8
    then show ?thesis using reassemble(5) [of w] imm_j_even [of w] by (simp add: dec(8) recode)
  next
    case 9
    then show ?thesis using reassemble(1) [of w] by (simp add: dec(9) recode)
  next
    case 10
    then show ?thesis
      using legal op decode_system_op_inv [OF refl, of "enc_funct12 w"]
      by (auto simp: dec(10,11))
  qed
qed

text \<open>
  C25: every word that the decoder accepts as an operation with operands is exactly the
  encoding of the well-formed instruction it decodes to. Together with the previous
  theorem, \<open>decode\<close> is a bijection between these words and the well-formed instructions.
\<close>

theorem encode_decode:
  assumes "op_fmt (in_op (decode w pc)) \<notin> {No_fmt, Bare_fmt}"
  shows "wf_insn (decode w pc) \<and> encode (decode w pc) = w"
  using assemble_decoded [OF assms] .

lemma insn_pc_irrelevant: "wf_insn (i\<lparr>in_pc := pc\<rparr>) = wf_insn i" "encode (i\<lparr>in_pc := pc\<rparr>) = encode i"
  by (cases "op_fmt (in_op i)"; simp add: wf_insn_def encode_def Let_def)+

lemma bare_word:
  "in_op (decode w pc) = Op_FENCE \<Longrightarrow> enc_opcode w = OPC_MISC_MEM \<and> enc_funct3 w = 0"
  "in_op (decode w pc) = Op_ECALL \<Longrightarrow> enc_opcode w = OPC_SYSTEM \<and> enc_funct3 w = 0 \<and> enc_funct12 w = F12_ECALL"
  "in_op (decode w pc) = Op_EBREAK \<Longrightarrow> enc_opcode w = OPC_SYSTEM \<and> enc_funct3 w = 0 \<and> enc_funct12 w = F12_EBREAK"
  unfolding decode_def Let_def decoder_defs by (auto split: if_splits)

text \<open>
  C26: which words are illegal. The decoder rejects a word exactly when it is not the encoding of a
  well-formed instruction, it is not a \<open>FENCE\<close> (any operands), and it is not an \<open>ECALL\<close> or
  \<open>EBREAK\<close> (where the decoder ignores the \<open>rd\<close> and \<open>rs1\<close> fields).
\<close>

theorem decode_illegal_iff:
  "in_op (decode w pc) = Op_ILLEGAL \<longleftrightarrow>
     \<not> ((\<exists>i. wf_insn i \<and> encode i = w) \<or> enc_opcode w = OPC_MISC_MEM \<and> enc_funct3 w = 0 \<or>
        enc_opcode w = OPC_SYSTEM \<and> enc_funct3 w = 0 \<and> enc_funct12 w \<in> {F12_ECALL, F12_EBREAK})"
    (is "?ill \<longleftrightarrow> \<not> (?asm \<or> ?fence \<or> ?sys)")
proof -
  note dec = decode_by_opcode(10,11) [of w pc]
  have asm: "\<not> ?ill" if a: "?asm"
  proof -
    obtain i where i: "wf_insn i" "encode i = w" using a by blast
    have "wf_insn (i\<lparr>in_pc := pc\<rparr>)" "encode (i\<lparr>in_pc := pc\<rparr>) = w"
      using i by (simp_all add: insn_pc_irrelevant)
    then have "in_op (decode w pc) = in_op i" using decode_assembled [of "i\<lparr>in_pc := pc\<rparr>"] by simp
    then show ?thesis using i(1) by (auto simp: wf_insn_def Let_def)
  qed
  have bare: "?fence \<or> ?sys" if "op_fmt (in_op (decode w pc)) = Bare_fmt"
    using that by (cases "in_op (decode w pc)") (simp_all add: bare_word [of w pc])
  show ?thesis
  proof (cases "op_fmt (in_op (decode w pc))")
    case No_fmt
    then show ?thesis using asm dec by (cases "in_op (decode w pc)") (auto simp: decode_system_op_def split: if_splits)
  next
    case Bare_fmt
    then show ?thesis using bare by auto
  qed (use assemble_decoded [of w pc] in auto)
qed

theorem decode_encode_witness:
  "decode (encode \<lparr>in_raw = 0, in_pc = 16, in_op = Op_BNE, in_rd = 0, in_rs1 = 5, in_rs2 = 6,
      in_imm = - 8\<rparr>) 16
   = \<lparr>in_raw = 0xfe629ce3, in_pc = 16, in_op = Op_BNE, in_rd = 0, in_rs1 = 5, in_rs2 = 6,
      in_imm = - 8\<rparr>"
proof -
  let ?i = "\<lparr>in_raw = 0, in_pc = 16, in_op = Op_BNE, in_rd = 0, in_rs1 = 5, in_rs2 = 6,
      in_imm = - 8\<rparr>"
  have "wf_insn ?i" by code_simp
  from decode_encode [OF this] have "decode (encode ?i) 16 = ?i\<lparr>in_raw := encode ?i\<rparr>" by simp
  moreover have "encode ?i = 0xfe629ce3" by code_simp
  ultimately show ?thesis by simp
qed

theorem encode_decode_witness:
  "wf_insn (decode 0x40315093 0) \<and> encode (decode 0x40315093 0) = 0x40315093
   \<and> in_op (decode 0x40315093 0) = Op_SRAI"
proof -
  have op: "in_op (decode 0x40315093 0) = Op_SRAI" by code_simp
  then have "op_fmt (in_op (decode 0x40315093 0)) \<notin> {No_fmt, Bare_fmt}" by simp
  from encode_decode [OF this] op show ?thesis by simp
qed

end
