(* ===== verification/Alu.thy ===== *)
theory Alu
  imports Decoder
begin

unbundle bit_operations_syntax

text \<open>
  The combinational units of the EX stage: \<open>include/cpusim/uarch/alu.h\<close> and
  \<open>src/uarch/alu.cpp\<close>. The lemmas read the ALU's results as integers (two's complement,
  modulo \<open>2 ^ 32\<close>) and show that the comparator's six conditions are three complementary
  pairs.
\<close>

section \<open>Definitions (alu.h, alu.cpp)\<close>

datatype alu_op =
    Alu_ADD | Alu_SUB | Alu_AND | Alu_OR | Alu_XOR | Alu_SLL | Alu_SRL | Alu_SRA
  | Alu_SLT | Alu_SLTU | Alu_PASS_B

text \<open>
  \<open>>>\<close> on an \<open>int32_t\<close> is the arithmetic shift, \<open>signed_drop_bit\<close>; the \<open>int32_t\<close>
  comparisons are comparisons of \<open>sint\<close>.
\<close>

primrec alu_exec :: "alu_op \<Rightarrow> u32 \<Rightarrow> u32 \<Rightarrow> u32" where
  "alu_exec Alu_ADD a b = a + b"
| "alu_exec Alu_SUB a b = a - b"
| "alu_exec Alu_AND a b = a AND b"
| "alu_exec Alu_OR a b = a OR b"
| "alu_exec Alu_XOR a b = a XOR b"
| "alu_exec Alu_SLL a b = push_bit (unat (b AND 0x1f)) a"
| "alu_exec Alu_SRL a b = drop_bit (unat (b AND 0x1f)) a"
| "alu_exec Alu_SRA a b = signed_drop_bit (unat (b AND 0x1f)) a"
| "alu_exec Alu_SLT a b = (if sint a < sint b then 1 else 0)"
| "alu_exec Alu_SLTU a b = (if a < b then 1 else 0)"
| "alu_exec Alu_PASS_B a b = b"

primrec alu_op_for :: "op \<Rightarrow> alu_op" where
  "alu_op_for Op_ADD = Alu_ADD"
| "alu_op_for Op_SUB = Alu_SUB"
| "alu_op_for Op_SLL = Alu_SLL"
| "alu_op_for Op_SRL = Alu_SRL"
| "alu_op_for Op_SRA = Alu_SRA"
| "alu_op_for Op_SLT = Alu_SLT"
| "alu_op_for Op_SLTU = Alu_SLTU"
| "alu_op_for Op_AND = Alu_AND"
| "alu_op_for Op_OR = Alu_OR"
| "alu_op_for Op_XOR = Alu_XOR"
| "alu_op_for Op_ADDI = Alu_ADD"
| "alu_op_for Op_SLLI = Alu_SLL"
| "alu_op_for Op_SRLI = Alu_SRL"
| "alu_op_for Op_SRAI = Alu_SRA"
| "alu_op_for Op_SLTI = Alu_SLT"
| "alu_op_for Op_SLTIU = Alu_SLTU"
| "alu_op_for Op_ANDI = Alu_AND"
| "alu_op_for Op_ORI = Alu_OR"
| "alu_op_for Op_XORI = Alu_XOR"
| "alu_op_for Op_LB = Alu_ADD"
| "alu_op_for Op_LH = Alu_ADD"
| "alu_op_for Op_LW = Alu_ADD"
| "alu_op_for Op_LBU = Alu_ADD"
| "alu_op_for Op_LHU = Alu_ADD"
| "alu_op_for Op_SB = Alu_ADD"
| "alu_op_for Op_SH = Alu_ADD"
| "alu_op_for Op_SW = Alu_ADD"
| "alu_op_for Op_BEQ = Alu_ADD"
| "alu_op_for Op_BNE = Alu_ADD"
| "alu_op_for Op_BLT = Alu_ADD"
| "alu_op_for Op_BGE = Alu_ADD"
| "alu_op_for Op_BLTU = Alu_ADD"
| "alu_op_for Op_BGEU = Alu_ADD"
| "alu_op_for Op_JAL = Alu_ADD"
| "alu_op_for Op_JALR = Alu_ADD"
| "alu_op_for Op_LUI = Alu_PASS_B"
| "alu_op_for Op_AUIPC = Alu_ADD"
| "alu_op_for Op_ECALL = Alu_ADD"
| "alu_op_for Op_EBREAK = Alu_ADD"
| "alu_op_for Op_FENCE = Alu_ADD"
| "alu_op_for Op_ILLEGAL = Alu_ADD"

fun branch_taken :: "op \<Rightarrow> u32 \<Rightarrow> u32 \<Rightarrow> bool" where
  "branch_taken Op_BEQ rs1 rs2 = (rs1 = rs2)"
| "branch_taken Op_BNE rs1 rs2 = (rs1 \<noteq> rs2)"
| "branch_taken Op_BLT rs1 rs2 = (sint rs1 < sint rs2)"
| "branch_taken Op_BGE rs1 rs2 = (sint rs1 \<ge> sint rs2)"
| "branch_taken Op_BLTU rs1 rs2 = (rs1 < rs2)"
| "branch_taken Op_BGEU rs1 rs2 = (rs1 \<ge> rs2)"
| "branch_taken _ rs1 rs2 = False"

section \<open>The results as integers\<close>

lemma unat_shamt: "unat ((b :: u32) AND 0x1f) = unat b mod 32"
  unfolding numeral_mask_32
  by (simp add: take_bit_eq_mask [symmetric] unsigned_take_bit_eq take_bit_eq_mod unat_mod)

lemma uint_alu_sll: "uint (alu_exec Alu_SLL a b) = (uint a * 2 ^ (unat b mod 32)) mod 2 ^ 32"
  unfolding alu_exec.simps unat_shamt
  by (simp only: unsigned_push_bit_eq) (simp add: push_bit_eq_mult take_bit_eq_mod)

lemma uint_alu_srl: "uint (alu_exec Alu_SRL a b) = uint a div 2 ^ (unat b mod 32)"
  using uint_lt2p [of a] unfolding alu_exec.simps unat_shamt unsigned_drop_bit_eq
  by (simp add: drop_bit_eq_div take_bit_int_eq_self)

lemma sint_alu_sra: "sint (alu_exec Alu_SRA a b) = sint a div 2 ^ (unat b mod 32)"
  unfolding alu_exec.simps unat_shamt by (simp add: sint_signed_drop_bit_eq drop_bit_eq_div)

text \<open>
  The ALU computes the RV32I integer operations: addition and subtraction modulo
  \<open>2 ^ 32\<close>, shifts by the low five bits of the second operand (multiplication and
  flooring division by a power of two, the arithmetic shift on the signed value), and the
  signed and unsigned comparisons.
\<close>

theorem alu_exec_integers:
  "uint (alu_exec Alu_ADD a b) = (uint a + uint b) mod 2 ^ 32 \<and>
   uint (alu_exec Alu_SUB a b) = (uint a - uint b) mod 2 ^ 32 \<and>
   uint (alu_exec Alu_SLL a b) = (uint a * 2 ^ (unat b mod 32)) mod 2 ^ 32 \<and>
   uint (alu_exec Alu_SRL a b) = uint a div 2 ^ (unat b mod 32) \<and>
   sint (alu_exec Alu_SRA a b) = sint a div 2 ^ (unat b mod 32) \<and>
   alu_exec Alu_SLT a b = of_bool (sint a < sint b) \<and>
   alu_exec Alu_SLTU a b = of_bool (uint a < uint b)"
  using uint_alu_sll [of a b] uint_alu_srl [of a b] sint_alu_sra [of a b]
  by (simp add: uint_word_ariths word_less_def del: alu_exec.simps(6-8))

section \<open>Complementary branch conditions\<close>

lemma branch_complement:
  "branch_taken Op_BNE a b = (\<not> branch_taken Op_BEQ a b)"
  "branch_taken Op_BGE a b = (\<not> branch_taken Op_BLT a b)"
  "branch_taken Op_BGEU a b = (\<not> branch_taken Op_BLTU a b)"
  by auto

end
