(* ===== verification/Latch.thy ===== *)
theory Latch
  imports Decoder
begin

text \<open>
  \<open>Latch<T>\<close> (\<open>include/cpusim/uarch/latch.h\<close>), the pipeline register with its two-phase
  protocol, and the four structs it carries (\<open>pipe_regs.h\<close>). The value \<open>T{}\<close>, the bubble, is
  an argument of \<open>flush\<close> and of the initial latch.
\<close>

section \<open>The register\<close>

record 'a latch =
  la_reg :: 'a
  la_shadow :: 'a

definition latch_init :: "'a \<Rightarrow> 'a latch" where
  "latch_init bubble = \<lparr>la_reg = bubble, la_shadow = bubble\<rparr>"

definition latch_read :: "'a latch \<Rightarrow> 'a" where
  "latch_read l = la_reg l"

definition latch_write :: "'a \<Rightarrow> 'a latch \<Rightarrow> 'a latch" where
  "latch_write v l = l\<lparr>la_shadow := v\<rparr>"

definition latch_commit :: "'a latch \<Rightarrow> 'a latch" where
  "latch_commit l = l\<lparr>la_reg := la_shadow l\<rparr>"

definition latch_flush :: "'a \<Rightarrow> 'a latch \<Rightarrow> 'a latch" where
  "latch_flush bubble l = l\<lparr>la_reg := bubble, la_shadow := bubble\<rparr>"

definition latch_reset :: "'a \<Rightarrow> 'a latch \<Rightarrow> 'a latch" where
  "latch_reset bubble l = l\<lparr>la_reg := bubble, la_shadow := bubble\<rparr>"

lemmas latch_defs = latch_init_def latch_read_def latch_write_def latch_commit_def latch_flush_def

lemma latch_simps [simp]:
  "latch_read (latch_init b) = b"
  "latch_read (latch_write v l) = latch_read l"
  "latch_read (latch_commit (latch_write v l)) = v"
  "latch_read (latch_flush b l) = b"
  by (simp_all add: latch_defs)

text \<open>
  The contract a stage relies on: what was written is seen after the next commit and not
  before, a commit that is skipped holds the value, and a flush leaves the bubble.
\<close>

locale pipe_register =
  fixes bubble :: 'a
    and init :: "'l"
    and get :: "'l \<Rightarrow> 'a"
    and put :: "'a \<Rightarrow> 'l \<Rightarrow> 'l"
    and clock :: "'l \<Rightarrow> 'l"
    and squash :: "'l \<Rightarrow> 'l"
  assumes read_init: "get init = bubble"
    and read_write: "get (put v l) = get l"
    and read_commit: "get (clock (put v l)) = v"
    and read_flush: "get (squash l) = bubble"
    and write_write: "put w (put v l) = put w l"
    and flush_commit: "get (clock (squash l)) = bubble"
begin

text \<open>A stalled register holds its value whatever upstream writes; then the last put counts.\<close>

lemma stall_holds: "get (fold put vs l) = get l"
  by (induction vs arbitrary: l) (simp_all add: read_write)

lemma stall_then_commit: "get (clock (put v (fold put vs l))) = v"
  by (simp add: read_commit)

end

section \<open>The four pipeline registers (pipe_regs.h)\<close>

record if_id =
  ifid_pc :: u32
  ifid_raw :: u32
  ifid_valid :: bool
  ifid_predicted_taken :: bool

record id_ex =
  idex_pc :: u32
  idex_raw :: u32
  idex_op :: op
  idex_rd :: u8
  idex_rs1 :: u8
  idex_rs2 :: u8
  idex_imm :: u32
  idex_rs1_val :: u32
  idex_rs2_val :: u32
  idex_valid :: bool
  idex_predicted_taken :: bool

record ex_mem =
  exm_pc :: u32
  exm_raw :: u32
  exm_op :: op
  exm_rd :: u8
  exm_alu_out :: u32
  exm_rs2_val :: u32
  exm_branch_taken :: bool
  exm_branch_target :: u32
  exm_valid :: bool

record mem_wb =
  mwb_pc :: u32
  mwb_raw :: u32
  mwb_op :: op
  mwb_rd :: u8
  mwb_wb_val :: u32
  mwb_mem_addr :: u32
  mwb_mem_val :: u32
  mwb_is_store :: bool
  mwb_valid :: bool

definition if_id_bubble :: if_id where
  "if_id_bubble = \<lparr>ifid_pc = 0, ifid_raw = 0, ifid_valid = False, ifid_predicted_taken = False\<rparr>"

definition id_ex_bubble :: id_ex where
  "id_ex_bubble = \<lparr>idex_pc = 0, idex_raw = 0, idex_op = Op_ILLEGAL, idex_rd = 0, idex_rs1 = 0,
     idex_rs2 = 0, idex_imm = 0, idex_rs1_val = 0, idex_rs2_val = 0, idex_valid = False,
     idex_predicted_taken = False\<rparr>"

definition ex_mem_bubble :: ex_mem where
  "ex_mem_bubble = \<lparr>exm_pc = 0, exm_raw = 0, exm_op = Op_ILLEGAL, exm_rd = 0, exm_alu_out = 0,
     exm_rs2_val = 0, exm_branch_taken = False, exm_branch_target = 0, exm_valid = False\<rparr>"

definition mem_wb_bubble :: mem_wb where
  "mem_wb_bubble = \<lparr>mwb_pc = 0, mwb_raw = 0, mwb_op = Op_ILLEGAL, mwb_rd = 0, mwb_wb_val = 0,
     mwb_mem_addr = 0, mwb_mem_val = 0, mwb_is_store = False, mwb_valid = False\<rparr>"

lemma bubbles_invalid [simp]:
  "\<not> ifid_valid if_id_bubble" "\<not> idex_valid id_ex_bubble" "\<not> exm_valid ex_mem_bubble"
  "\<not> mwb_valid mem_wb_bubble"
  by (simp_all add: if_id_bubble_def id_ex_bubble_def ex_mem_bubble_def mem_wb_bubble_def)

interpretation if_id_reg: pipe_register if_id_bubble "latch_init if_id_bubble" latch_read latch_write
  latch_commit "latch_flush if_id_bubble"
  by unfold_locales (simp_all add: latch_defs)

interpretation id_ex_reg: pipe_register id_ex_bubble "latch_init id_ex_bubble" latch_read latch_write
  latch_commit "latch_flush id_ex_bubble"
  by unfold_locales (simp_all add: latch_defs)

interpretation ex_mem_reg: pipe_register ex_mem_bubble "latch_init ex_mem_bubble" latch_read latch_write
  latch_commit "latch_flush ex_mem_bubble"
  by unfold_locales (simp_all add: latch_defs)

interpretation mem_wb_reg: pipe_register mem_wb_bubble "latch_init mem_wb_bubble" latch_read latch_write
  latch_commit "latch_flush mem_wb_bubble"
  by unfold_locales (simp_all add: latch_defs)

end
