(* ===== verification/Pow2.thy ===== *)
theory Pow2
  imports Prelude
begin

unbundle bit_operations_syntax

text \<open>
  Powers of two: the test that the constructors of \<open>Cache\<close>, \<open>TreePlru\<close> and \<open>BranchPredictor\<close>
  assert, and the function \<open>log2_exact\<close> (the same in \<open>src/memory/cache.cpp\<close> and
  \<open>src/uarch/branch_predictor.cpp\<close>), with what they establish.
\<close>

section \<open>Powers of two\<close>

text \<open>The test \<open>v && (v & (v - 1)) == 0\<close> of the constructors.\<close>

definition pow2_ok :: "u32 \<Rightarrow> bool" where
  "pow2_ok v \<longleftrightarrow> v \<noteq> 0 \<and> v AND (v - 1) = 0"

lemma nat_pow2:
  fixes m :: nat
  assumes "m \<noteq> 0" and "m AND (m - 1) = 0"
  shows "\<exists>k. m = 2 ^ k"
  using assms
proof (induction m rule: less_induct)
  case (less m)
  have rec: "m AND (m - 1) = of_bool (odd m \<and> odd (m - 1)) + 2 * ((m div 2) AND ((m - 1) div 2))"
    by (rule and_nat_rec)
  show ?case
  proof (cases "odd m")
    case True
    then obtain q where q: "m = 2 * q + 1" by (elim oddE)
    have "q = 0" using rec less.prems(2) by (simp add: q)
    then show ?thesis using q by (intro exI [of _ 0]) simp
  next
    case False
    then obtain q where q: "m = 2 * q" by auto
    with less.prems(1) have q0: "q \<noteq> 0" "q < m" by auto
    have "(2 * q - 1) div 2 = q - 1" using q0 by arith
    then have "q AND (q - 1) = 0" using rec less.prems(2) False by (simp add: q)
    from less.IH [OF q0(2,1) this] obtain k where "q = 2 ^ k" by blast
    then show ?thesis using q by (intro exI [of _ "Suc k"]) simp
  qed
qed

lemma pow2_ok_unat:
  assumes "pow2_ok v"
  obtains k where "k < 32" "v = push_bit k 1" "unat v = 2 ^ k"
proof -
  from assms have v0: "v \<noteq> 0" and a: "v AND (v - 1) = 0" by (simp_all add: pow2_ok_def)
  have "unat (v AND (v - 1)) = unat v AND unat (v - 1)" by (rule unsigned_and_eq)
  then have "unat v AND (unat v - 1) = 0" using a v0 by (simp add: unat_minus_one)
  moreover have "unat v \<noteq> 0" using v0 by (simp add: unat_eq_0)
  ultimately obtain k where k: "unat v = 2 ^ k" using nat_pow2 by blast
  have "k < 32"
  proof (rule ccontr)
    assume "\<not> k < 32"
    then have "(2::nat) ^ 32 \<le> 2 ^ k" by (intro power_increasing) simp_all
    moreover have "unat v < 2 ^ 32" using unsigned_less [of v] by simp
    ultimately show False using k by simp
  qed
  moreover have "v = push_bit k 1"
  proof -
    have "(2::nat) ^ k < 2 ^ 32" using \<open>k < 32\<close> by (intro power_strict_increasing) simp_all
    then have "unat (push_bit k (1::u32)) = 2 ^ k"
      by (subst unsigned_push_bit_eq) (simp add: take_bit_eq_mod push_bit_eq_mult)
    with k show ?thesis by (simp add: word_unat_eq_iff)
  qed
  ultimately show ?thesis using k that by blast
qed

text \<open>\<open>log2_exact\<close>: asserts a power of two, then counts the shifts to 1.\<close>

lemma unat_drop_1: "unat (drop_bit 1 (v :: u32)) = unat v div 2"
proof -
  have "take_bit 32 (unat v) = unat v" using unsigned_less [of v] by (intro take_bit_nat_eq_self) simp
  then show ?thesis by (subst unsigned_drop_bit_eq) (simp add: drop_bit_eq_div)
qed

function log2_loop :: "u32 \<Rightarrow> nat \<Rightarrow> nat" where
  "log2_loop v n = (if v > 1 then log2_loop (drop_bit 1 v) (n + 1) else n)"
  by pat_completeness auto
termination
  by (relation "measure (\<lambda>(v, n). unat v)")
    (auto simp: unat_drop_1 [unfolded One_nat_def] word_less_nat_alt)

declare log2_loop.simps [simp del]

definition log2_exact :: "u32 \<Rightarrow> nat res" where
  "log2_exact v = (if pow2_ok v then Inr (log2_loop v 0) else Inl Assert_failed)"

lemma log2_loop_pow2: "unat v = 2 ^ n \<Longrightarrow> log2_loop v m = m + n"
proof (induction n arbitrary: v m)
  case 0
  then show ?case by (subst log2_loop.simps) (simp add: word_less_nat_alt)
next
  case (Suc n)
  have "(1 :: nat) < 2 ^ Suc n" by (rule one_less_power) simp_all
  then have "v > 1" using Suc.prems by (simp add: word_less_nat_alt)
  moreover have "unat (drop_bit 1 v) = 2 ^ n" by (simp add: unat_drop_1 [unfolded One_nat_def] Suc.prems)
  ultimately show ?case using Suc.IH [of "drop_bit 1 v" "m + 1"] by (subst log2_loop.simps) simp
qed

lemma log2_exact_Inr:
  assumes "log2_exact v = Inr n"
  shows "v = push_bit n 1 \<and> unat v = 2 ^ n \<and> n < 32"
proof -
  have p: "pow2_ok v" and n: "log2_loop v 0 = n"
    using assms by (simp_all add: log2_exact_def split: if_splits)
  from p obtain k where "k < 32" "v = push_bit k 1" "unat v = 2 ^ k" by (rule pow2_ok_unat)
  with log2_loop_pow2 [of v k 0] n show ?thesis by simp
qed

lemma mask_of_pow2: "push_bit n 1 - 1 = (mask n :: u32)"
  by (simp add: mask_eq_exp_minus_1)

end
