(* ===== verification/Tree_Plru.thy ===== *)
theory Tree_Plru
  imports Pow2
begin

unbundle bit_operations_syntax

text \<open>
  The replacement policy of the cache: the interface \<open>EvictionPolicy\<close>
  (\<open>include/cpusim/memory/eviction_policy.h\<close>) as a locale, and \<open>TreePlru\<close>
  (\<open>tree_plru.h\<close>, \<open>src/memory/tree_plru.cpp\<close>). The theorem of this theory is the guarantee
  of the tree: the victim is never one of the log2(ways) ways touched last.
\<close>

section \<open>The interface\<close>

text \<open>
  A policy orders recency among the ways of a full set. What the cache relies on: the victim
  is a way of the set, an access to one set leaves the victims of the others alone, and (in a
  set with more than one way) the way used last is not the victim.
\<close>

locale eviction_policy =
  fixes victim :: "'p \<Rightarrow> nat \<Rightarrow> nat"
    and touch :: "nat \<Rightarrow> nat \<Rightarrow> 'p \<Rightarrow> 'p"
    and inv :: "'p \<Rightarrow> bool"
    and ways :: "'p \<Rightarrow> nat"
    and sets :: "'p \<Rightarrow> nat"
  assumes touch_inv: "inv p \<Longrightarrow> set' < sets p \<Longrightarrow> way < ways p \<Longrightarrow>
      inv (touch set' way p) \<and> ways (touch set' way p) = ways p \<and> sets (touch set' way p) = sets p"
    and victim_range: "inv p \<Longrightarrow> set' < sets p \<Longrightarrow> victim p set' < ways p"
    and victim_not_last: "inv p \<Longrightarrow> set' < sets p \<Longrightarrow> way < ways p \<Longrightarrow> 1 < ways p \<Longrightarrow>
      victim (touch set' way p) set' \<noteq> way"
    and victim_other_set: "inv p \<Longrightarrow> set' < sets p \<Longrightarrow> other < sets p \<Longrightarrow> way < ways p \<Longrightarrow>
      set' \<noteq> other \<Longrightarrow> victim (touch set' way p) other = victim p other"
begin

text \<open>A history of accesses, the latest first.\<close>

fun touches :: "(nat \<times> nat) list \<Rightarrow> 'p \<Rightarrow> 'p" where
  "touches [] p = p"
| "touches ((set', way) # h) p = touch set' way (touches h p)"

definition in_range :: "(nat \<times> nat) list \<Rightarrow> 'p \<Rightarrow> bool" where
  "in_range h p \<longleftrightarrow> (\<forall>(set', way) \<in> set h. set' < sets p \<and> way < ways p)"

lemma touches_inv:
  assumes "inv p" and "in_range h p"
  shows "inv (touches h p) \<and> ways (touches h p) = ways p \<and> sets (touches h p) = sets p"
  using assms by (induction h p rule: touches.induct) (auto simp: in_range_def touch_inv)

text \<open>The way a set used last is safe, whatever the other sets did since.\<close>

lemma last_use_kept:
  assumes "inv p" and "in_range (h @ (s, w) # h') p" and "\<forall>(s', w') \<in> set h. s' \<noteq> s"
    and "1 < ways p"
  shows "victim (touches (h @ (s, w) # h') p) s \<noteq> w"
  using assms(2,3)
proof (induction h)
  case Nil
  then have r: "s < sets p" "w < ways p" "in_range h' p" by (auto simp: in_range_def)
  from touches_inv [OF assms(1) r(3)] r assms(4) show ?case
    by (simp add: victim_not_last)
next
  case (Cons sw h)
  obtain s' w' where sw: "sw = (s', w')" by (cases sw)
  have r: "in_range (h @ (s, w) # h') p" "s' < sets p" "w' < ways p" "s < sets p" "s' \<noteq> s"
    using Cons.prems by (auto simp: in_range_def sw)
  have "\<forall>(s', w') \<in> set h. s' \<noteq> s" using Cons.prems(2) by auto
  from Cons.IH [OF r(1) this] touches_inv [OF assms(1) r(1)] r show ?case
    by (simp add: sw victim_other_set)
qed

end

section \<open>The tree\<close>

text \<open>
  \<open>ways\<close> bits per set, a 1-based heap: node \<open>i\<close> has children \<open>2 i\<close> and \<open>2 i + 1\<close>, and leaf \<open>i\<close>
  is way \<open>i - ways\<close>. Index 0 of a set is unused.
\<close>

record plru =
  pl_ways :: nat
  pl_bits :: "u8 list"

definition plru_init :: "nat \<Rightarrow> u32 \<Rightarrow> plru res" where
  "plru_init sets ways =
     (if pow2_ok ways
      then Inr \<lparr>pl_ways = unat ways, pl_bits = replicate (sets * unat ways) 0\<rparr>
      else Inl Assert_failed)"

text \<open>
  The loops of \<open>victim\<close> and \<open>touch\<close>, on the heap at \<open>base\<close>. The walk starts at the root 1, so the
  conjunct \<open>0 < i\<close>, which makes the recursion terminate, always holds. For a set below the
  number of sets every index is below \<open>sets * ways\<close> (\<open>plru_index\<close>), so \<open>!\<close> and the list update
  are never out of range.
\<close>

function plru_walk :: "nat \<Rightarrow> u8 list \<Rightarrow> nat \<Rightarrow> nat \<Rightarrow> nat" where
  "plru_walk ways bits base i =
     (if 0 < i \<and> i < ways then plru_walk ways bits base (2 * i + unat (bits ! (base + i)))
      else i - ways)"
  by pat_completeness auto
termination by (relation "measure (\<lambda>(ways, bits, base, i). ways - i)") auto

declare plru_walk.simps [simp del]

definition plru_victim :: "plru \<Rightarrow> nat \<Rightarrow> nat" where
  "plru_victim p set' = plru_walk (pl_ways p) (pl_bits p) (set' * pl_ways p) 1"

fun plru_mark :: "nat \<Rightarrow> nat \<Rightarrow> u8 list \<Rightarrow> u8 list" where
  "plru_mark base i bits =
     (if i > 1
      then plru_mark base (i div 2) (bits[base + i div 2 := if i = 2 * (i div 2) then 1 else 0])
      else bits)"

declare plru_mark.simps [simp del]

definition plru_touch :: "nat \<Rightarrow> nat \<Rightarrow> plru \<Rightarrow> plru" where
  "plru_touch set' way p =
     p\<lparr>pl_bits := plru_mark (set' * pl_ways p) (way + pl_ways p) (pl_bits p)\<rparr>"

section \<open>What one access does to the bits\<close>

lemma div_half_power: "(i :: nat) div 2 div 2 ^ d = i div 2 ^ Suc d"
  by (simp only: power_Suc div_mult2_eq)

lemma plru_mark_length [simp]: "length (plru_mark base i bits) = length bits"
  by (induction base i bits rule: plru_mark.induct) (subst plru_mark.simps, simp)

lemma plru_mark_other:
  "q \<le> base \<or> base + i div 2 < q \<Longrightarrow> plru_mark base i bits ! q = bits ! q"
proof (induction base i bits rule: plru_mark.induct)
  case (1 base i bits)
  show ?case
  proof (cases "i > 1")
    case True
    have "q \<le> base \<or> base + i div 2 div 2 < q" "base + i div 2 \<noteq> q"
      using "1.prems" True by (auto intro: le_less_trans [OF add_left_mono [OF div_le_dividend]])
    with "1.IH" [OF True] True show ?thesis by (subst plru_mark.simps) simp
  qed (simp add: plru_mark.simps)
qed

lemma plru_mark_off:
  assumes "\<forall>d. i div 2 ^ Suc d \<noteq> q"
  shows "plru_mark base i bits ! (base + q) = bits ! (base + q)"
  using assms
proof (induction base i bits rule: plru_mark.induct)
  case (1 base i bits)
  show ?case
  proof (cases "i > 1")
    case True
    have "i div 2 div 2 ^ Suc d \<noteq> q" for d
      using "1.prems" [rule_format, of "Suc d"] by (simp only: div_half_power not_False_eq_True)
    then have "\<forall>d. i div 2 div 2 ^ Suc d \<noteq> q" by blast
    moreover have "i div 2 \<noteq> q" using "1.prems" [rule_format, of 0] by simp
    ultimately show ?thesis using "1.IH" [OF True] True by (subst plru_mark.simps) simp
  qed (simp add: plru_mark.simps)
qed

lemma plru_mark_on:
  assumes "i div 2 ^ Suc e = q" and "0 < q" and "base + i div 2 < length bits"
  shows "plru_mark base i bits ! (base + q) = (if even (i div 2 ^ e) then 1 else 0)"
  using assms
proof (induction e arbitrary: i bits)
  case 0
  then have i: "i > 1" "i div 2 = q" by auto
  have "q div 2 ^ Suc d \<noteq> q" for d
    using i(1) 0(2) by (metis div_less_dividend less_irrefl one_less_numeral_iff one_less_power
        semiring_norm(76) zero_less_Suc)
  then have "plru_mark base q b ! (base + q) = b ! (base + q)" for b
    by (intro plru_mark_off) simp
  moreover have "(i = 2 * q) = even i" using i(2) by (metis dvd_div_mult_self dvd_triv_left mult.commute)
  ultimately show ?case using i 0(3) by (subst plru_mark.simps) simp
next
  case (Suc e)
  have i: "i > 1"
  proof (rule ccontr)
    assume "\<not> i > 1"
    moreover have "(1::nat) < 2 ^ Suc (Suc e)" by (rule one_less_power) simp_all
    ultimately have "i < 2 ^ Suc (Suc e)" by linarith
    then have "i div 2 ^ Suc (Suc e) = 0" by (rule div_less)
    with Suc.prems show False by simp
  qed
  have "i div 2 div 2 ^ Suc e = q" using Suc.prems(1) by (simp only: div_half_power)
  moreover have "base + i div 2 div 2 < length (bits[base + i div 2 := x])" for x
    using Suc.prems(3) by (auto intro: le_less_trans [OF add_left_mono [OF div_le_dividend]])
  ultimately have "plru_mark base (i div 2) (bits[base + i div 2 := x]) ! (base + q) =
      (if even (i div 2 div 2 ^ e) then 1 else 0)" for x
    using Suc.IH [of "i div 2"] Suc.prems(2) by blast
  then show ?case using i by (subst plru_mark.simps) (simp only: div_half_power if_True)
qed

section \<open>What a history of accesses leaves in a set\<close>

text \<open>
  \<open>steered k base bits L\<close>: in the tree of \<open>2 ^ k\<close> ways at \<open>base\<close>, every node points away from
  the leaf below it that was accessed last, where \<open>L\<close> lists the accessed leaves, the latest
  first. The nodes \<open>d\<close> levels above the leaves are \<open>2 ^ (k - d)\<close> to \<open>2 ^ (k - d + 1) - 1\<close>, and
  the one above leaf \<open>l\<close> is \<open>l div 2 ^ d\<close>.
\<close>

definition at_level :: "nat \<Rightarrow> nat \<Rightarrow> nat \<Rightarrow> bool" where
  "at_level k d q \<longleftrightarrow> 2 ^ (k - d) \<le> q \<and> q < 2 * 2 ^ (k - d)"

definition steered :: "nat \<Rightarrow> nat \<Rightarrow> u8 list \<Rightarrow> nat list \<Rightarrow> bool" where
  "steered k base bits L \<longleftrightarrow>
     (\<forall>e q. Suc e \<le> k \<longrightarrow> at_level k (Suc e) q \<longrightarrow>
        (case filter (\<lambda>l. l div 2 ^ Suc e = q) L of
           [] \<Rightarrow> bits ! (base + q) \<le> 1
         | l # _ \<Rightarrow> bits ! (base + q) = (if even (l div 2 ^ e) then 1 else 0)))"

lemma leaf_level:
  assumes "at_level k 0 l" and "d \<le> k"
  shows "at_level k d (l div 2 ^ d)"
proof -
  have "(2::nat) ^ k = 2 ^ (k - d) * 2 ^ d" using assms(2) by (simp flip: power_add)
  with assms(1) have "2 ^ (k - d) * 2 ^ d \<le> l" "l < 2 * 2 ^ (k - d) * 2 ^ d"
    by (simp_all add: at_level_def)
  then show ?thesis
    by (simp add: at_level_def less_eq_div_iff_mult_less_eq div_less_iff_less_mult)
qed

lemma level_unique:
  assumes "at_level k d q" and "at_level k d' q" and "d \<le> k" and "d' \<le> k"
  shows "d = d'"
proof -
  have less: "2 * (2::nat) ^ m \<le> 2 ^ n" if "m < n" for m n
    using power_increasing [of "Suc m" n "2::nat"] that by simp
  show ?thesis
  proof (rule ccontr)
    assume "d \<noteq> d'"
    then have "k - d < k - d' \<or> k - d' < k - d" using assms(3,4) by linarith
    then show False using assms(1,2) less [of "k - d" "k - d'"] less [of "k - d'" "k - d"]
      by (auto simp: at_level_def)
  qed
qed

lemma level_pos: "at_level k d q \<Longrightarrow> 0 < q"
  by (cases "q = 0") (simp_all add: at_level_def)

lemma level_less:
  assumes "at_level k (Suc e) q" and "Suc e \<le> k"
  shows "q < 2 ^ k"
proof -
  have "2 * (2::nat) ^ (k - Suc e) \<le> 2 ^ k"
    using power_increasing [of "Suc (k - Suc e)" k "2::nat"] assms(2) by simp
  then show ?thesis using assms(1) by (simp add: at_level_def)
qed

lemma steered_mark:
  assumes "steered k base bits L" and "at_level k 0 l" and "base + 2 ^ k \<le> length bits"
  shows "steered k base (plru_mark base l bits) (l # L)"
  unfolding steered_def
proof (intro allI impI)
  fix e q assume e: "Suc e \<le> k" and q: "at_level k (Suc e) q"
  have b: "base + l div 2 < length bits"
    using leaf_level [OF assms(2), of 1] level_less [of k 0 "l div 2"] e assms(3) by auto
  show "case filter (\<lambda>l. l div 2 ^ Suc e = q) (l # L) of
      [] \<Rightarrow> plru_mark base l bits ! (base + q) \<le> 1
    | l' # _ \<Rightarrow> plru_mark base l bits ! (base + q) = (if even (l' div 2 ^ e) then 1 else 0)"
  proof (cases "l div 2 ^ Suc e = q")
    case True
    with plru_mark_on [OF True level_pos [OF q] b] show ?thesis by simp
  next
    case False
    have "l div 2 ^ Suc d \<noteq> q" for d
    proof
      assume d: "l div 2 ^ Suc d = q"
      show False
      proof (cases "Suc d \<le> k")
        case True
        then have "d = e"
          using level_unique [OF q, of "Suc d"] leaf_level [OF assms(2) True] d e by simp
        with d False show False by simp
      next
        case False
        then have "(2::nat) ^ Suc k \<le> 2 ^ Suc d" by (intro power_increasing) simp_all
        then have "l < 2 ^ Suc d"
          using assms(2) unfolding at_level_def by (auto intro: less_le_trans)
        then show False using d level_pos [OF q] by simp
      qed
    qed
    then have "plru_mark base l bits ! (base + q) = bits ! (base + q)"
      by (intro plru_mark_off) blast
    with assms(1) [unfolded steered_def, rule_format, OF e q] False show ?thesis
      by (simp split: list.splits)
  qed
qed

lemma steered_bit_le_1:
  assumes "steered k base bits L" and "Suc e \<le> k" and "at_level k (Suc e) q"
  shows "unat (bits ! (base + q)) \<le> 1"
  using assms(1) [unfolded steered_def, rule_format, OF assms(2,3)]
  by (auto split: list.splits if_splits simp: word_le_nat_alt)

section \<open>The victim\<close>

text \<open>
  The walk down from a node \<open>d\<close> levels above the leaves ends in a leaf below it; and if that
  leaf was ever accessed, \<open>d\<close> different leaves below the node have been accessed since.
\<close>

lemma other_child: "2 * (x div 2) + (if even x then 1 else 0) \<noteq> (x :: nat)"
  by presburger

lemma plru_walk_leaf:
  assumes "steered k base bits L" and "d \<le> k" and "at_level k d i"
  shows "\<exists>v. plru_walk (2 ^ k) bits base i = v - 2 ^ k \<and> v div 2 ^ d = i \<and>
    (\<forall>pre suf. L = pre @ v # suf \<longrightarrow> d \<le> card (set (filter (\<lambda>l. l div 2 ^ d = i) pre)))"
  using assms(2,3)
proof (induction d arbitrary: i)
  case 0
  then show ?case by (subst plru_walk.simps) (simp add: at_level_def)
next
  case (Suc e)
  define c where "c = 2 * i + unat (bits ! (base + i))"
  have b: "unat (bits ! (base + i)) \<le> 1" by (rule steered_bit_le_1 [OF assms(1) Suc.prems])
  have kd: "k - e = Suc (k - Suc e)" using Suc.prems(1) by simp
  have c: "at_level k e c" and ci: "c div 2 = i"
    using Suc.prems(2) b by (auto simp: at_level_def c_def kd)
  obtain v where v: "plru_walk (2 ^ k) bits base c = v - 2 ^ k" "v div 2 ^ e = c"
    and card: "\<And>pre suf. L = pre @ v # suf \<Longrightarrow> e \<le> card (set (filter (\<lambda>l. l div 2 ^ e = c) pre))"
    using Suc.IH [of c] Suc.prems(1) c by auto
  have up: "l div 2 ^ Suc e = (l div 2 ^ e) div 2" for l :: nat
    by (simp only: power_Suc2 div_mult2_eq)
  have vi: "v div 2 ^ Suc e = i" unfolding up using v(2) ci by simp
  have "Suc e \<le> card (set (filter (\<lambda>l. l div 2 ^ Suc e = i) pre))" if L: "L = pre @ v # suf" for pre suf
  proof -
    define F where "F = filter (\<lambda>l. l div 2 ^ Suc e = i) pre"
    have FL: "filter (\<lambda>l. l div 2 ^ Suc e = i) L = F @ v # filter (\<lambda>l. l div 2 ^ Suc e = i) suf"
      using vi by (simp add: L F_def)
    obtain l0 R where l0: "F @ v # filter (\<lambda>l. l div 2 ^ Suc e = i) suf = l0 # R"
      by (cases F) auto
    have "bits ! (base + i) = (if even (l0 div 2 ^ e) then 1 else 0)"
      using assms(1) Suc.prems FL l0 by (fastforce simp: steered_def)
    moreover have "l0 \<in> set (filter (\<lambda>l. l div 2 ^ Suc e = i) L)" by (simp only: FL l0) simp
    then have "l0 div 2 ^ Suc e = i" by simp
    then have "(l0 div 2 ^ e) div 2 = i" unfolding up .
    ultimately have "c = 2 * ((l0 div 2 ^ e) div 2) + (if even (l0 div 2 ^ e) then 1 else 0)"
      by (simp add: c_def)
    then have away: "l0 div 2 ^ e \<noteq> c" by (metis other_child)
    then have "l0 \<in> set F" using l0 v(2) by (cases F) auto
    moreover have "set (filter (\<lambda>l. l div 2 ^ e = c) pre) \<subseteq> set F - {l0}"
      using away ci unfolding F_def up by auto
    ultimately have "card (set (filter (\<lambda>l. l div 2 ^ e = c) pre)) < card (set F)"
      by (intro psubset_card_mono) auto
    with card [OF L] show ?thesis by (simp add: F_def)
  qed
  moreover have "plru_walk (2 ^ k) bits base i = plru_walk (2 ^ k) bits base c"
    using level_pos [OF Suc.prems(2)] level_less [OF Suc.prems(2,1)]
    by (subst plru_walk.simps) (simp add: c_def)
  ultimately show ?case using v(1) vi by metis
qed


section \<open>The policy\<close>

definition plru_sets :: "plru \<Rightarrow> nat" where
  "plru_sets p = length (pl_bits p) div pl_ways p"

definition plru_wf :: "plru \<Rightarrow> bool" where
  "plru_wf p \<longleftrightarrow> (\<exists>k. pl_ways p = 2 ^ k) \<and> pl_ways p dvd length (pl_bits p) \<and>
     (\<forall>b \<in> set (pl_bits p). b \<le> 1)"

lemma plru_init_wf: "plru_init sets ways = Inr p \<Longrightarrow>
    plru_wf p \<and> plru_sets p = sets \<and> pl_ways p = unat ways"
  by (auto simp: plru_init_def plru_wf_def plru_sets_def split: if_splits elim: pow2_ok_unat)

lemma plru_index:
  assumes "plru_wf p" and "s < plru_sets p"
  shows "s * pl_ways p + pl_ways p \<le> length (pl_bits p)"
proof -
  have "length (pl_bits p) = plru_sets p * pl_ways p"
    using assms(1) by (simp add: plru_wf_def plru_sets_def)
  moreover have "(s + 1) * pl_ways p \<le> plru_sets p * pl_ways p"
    using assms(2) by (intro mult_le_mono) simp_all
  ultimately show ?thesis by simp
qed

lemma plru_mark_le_1:
  "\<forall>b \<in> set bits. b \<le> 1 \<Longrightarrow> \<forall>b \<in> set (plru_mark base i bits). b \<le> 1"
proof (induction base i bits rule: plru_mark.induct)
  case (1 base i bits)
  have "\<forall>b \<in> set (bits[base + i div 2 := if i = 2 * (i div 2) then 1 else 0]). b \<le> 1"
    using "1.prems" set_update_subset_insert by fastforce
  with "1.IH" "1.prems" show ?case by (subst plru_mark.simps) simp
qed

lemma plru_touch_wf:
  assumes "plru_wf p"
  shows "plru_wf (plru_touch s w p) \<and> pl_ways (plru_touch s w p) = pl_ways p \<and>
    plru_sets (plru_touch s w p) = plru_sets p"
  using assms plru_mark_le_1 [of "pl_bits p"] by (simp add: plru_wf_def plru_touch_def plru_sets_def)

lemma steered_initial:
  assumes "plru_wf p" and "pl_ways p = 2 ^ k" and "s < plru_sets p"
  shows "steered k (s * pl_ways p) (pl_bits p) []"
proof -
  have "pl_bits p ! (s * pl_ways p + q) \<le> 1" if "q < 2 ^ k" for q
    using plru_index [OF assms(1,3)] that assms(1,2) by (auto simp: plru_wf_def)
  then show ?thesis by (auto simp: steered_def intro: level_less)
qed

lemma steered_touches:
  assumes "plru_wf p" and "pl_ways p = 2 ^ k" and "s < plru_sets p" and "\<forall>w \<in> set ws. w < 2 ^ k"
  shows "let p' = foldr (plru_touch s) ws p in
    steered k (s * pl_ways p) (pl_bits p') (map (\<lambda>w. w + 2 ^ k) ws) \<and>
    plru_wf p' \<and> pl_ways p' = pl_ways p \<and> plru_sets p' = plru_sets p"
  using assms(4)
proof (induction ws)
  case Nil
  then show ?case using steered_initial [OF assms(1,2,3)] assms by simp
next
  case (Cons w ws)
  define p' where "p' = foldr (plru_touch s) ws p"
  have IH: "steered k (s * pl_ways p) (pl_bits p') (map (\<lambda>w. w + 2 ^ k) ws)" "plru_wf p'"
    "pl_ways p' = pl_ways p" "plru_sets p' = plru_sets p"
    using Cons by (simp_all add: p'_def Let_def)
  have "at_level k 0 (w + 2 ^ k)" using Cons.prems by (simp add: at_level_def)
  moreover have "s * pl_ways p + 2 ^ k \<le> length (pl_bits p')"
    using plru_index [OF IH(2), of s] IH assms(2,3) by simp
  ultimately have "steered k (s * pl_ways p) (pl_bits (plru_touch s w p'))
      (map (\<lambda>w. w + 2 ^ k) (w # ws))"
    using steered_mark [OF IH(1)] IH(3) assms(2) by (simp add: plru_touch_def)
  with plru_touch_wf [OF IH(2), of s w] IH show ?case by (simp add: p'_def Let_def)
qed

lemma plru_victim_steered:
  assumes "pl_ways p = 2 ^ k" and "steered k (s * pl_ways p) (pl_bits p) (map (\<lambda>w. w + 2 ^ k) ws)"
  shows "plru_victim p s < 2 ^ k \<and>
    (\<forall>pre suf. ws = pre @ plru_victim p s # suf \<longrightarrow> k \<le> card (set pre))"
proof -
  have root: "at_level k k 1" by (simp add: at_level_def)
  obtain v where v: "plru_victim p s = v - 2 ^ k" "v div 2 ^ k = 1"
    and card: "\<And>pre suf. map (\<lambda>w. w + 2 ^ k) ws = pre @ v # suf \<Longrightarrow>
      k \<le> card (set (filter (\<lambda>l. l div 2 ^ k = 1) pre))"
    using plru_walk_leaf [OF assms(2) order.refl root] assms(1) by (auto simp: plru_victim_def)
  have "v = 2 ^ k + v mod 2 ^ k" using div_mult_mod_eq [of v "2 ^ k"] v(2) by simp
  moreover have "v mod 2 ^ k < 2 ^ k" by simp
  ultimately have range: "2 ^ k \<le> v" "v < 2 * 2 ^ k" by linarith+
  have "k \<le> card (set pre)" if "ws = pre @ plru_victim p s # suf" for pre suf
  proof -
    have "map (\<lambda>w. w + 2 ^ k) ws = map (\<lambda>w. w + 2 ^ k) pre @ v # map (\<lambda>w. w + 2 ^ k) suf"
      using that v(1) range(1) by simp
    note card [OF this]
    also have "card (set (filter (\<lambda>l. l div 2 ^ k = 1) (map (\<lambda>w. w + 2 ^ k) pre))) \<le>
        card ((\<lambda>w. w + 2 ^ k) ` set pre)"
      by (intro card_mono) auto
    also have "\<dots> \<le> card (set pre)" by (rule card_image_le) simp
    finally show ?thesis .
  qed
  then show ?thesis using v(1) range by auto
qed

lemma plru_touch_other:
  assumes "plru_wf p" and "s < plru_sets p" and "s' < plru_sets p" and "w < pl_ways p" and "s \<noteq> s'"
    and "0 < q" and "q < pl_ways p"
  shows "pl_bits (plru_touch s w p) ! (s' * pl_ways p + q) = pl_bits p ! (s' * pl_ways p + q)"
proof -
  have half: "(w + pl_ways p) div 2 < pl_ways p" using assms(4) by simp
  have "s' * pl_ways p + q \<le> s * pl_ways p \<or> s * pl_ways p + (w + pl_ways p) div 2 < s' * pl_ways p + q"
  proof (cases "s' < s")
    case True
    then have "(s' + 1) * pl_ways p \<le> s * pl_ways p" by (intro mult_le_mono) simp_all
    with assms(7) show ?thesis by simp
  next
    case False
    with assms(5) have "(s + 1) * pl_ways p \<le> s' * pl_ways p" by (intro mult_le_mono) simp_all
    with half assms(6) show ?thesis by simp
  qed
  then show ?thesis by (simp add: plru_touch_def plru_mark_other)
qed

lemma plru_walk_cong:
  assumes "\<And>q. 0 < q \<Longrightarrow> q < ways \<Longrightarrow> bits ! (base + q) = bits' ! (base + q)"
  shows "plru_walk ways bits base i = plru_walk ways bits' base i"
  using assms
proof (induction ways bits base i rule: plru_walk.induct)
  case (1 ways bits base i)
  show ?case
  proof (cases "0 < i \<and> i < ways")
    case True
    have e: "bits ! (base + i) = bits' ! (base + i)" using True by (intro "1.prems") simp_all
    from "1.IH" [OF True "1.prems"] have "plru_walk ways bits base (2 * i + unat (bits' ! (base + i)))
        = plru_walk ways bits' base (2 * i + unat (bits' ! (base + i)))"
      unfolding e by blast
    then show ?thesis using True e
      by (subst (1 2) plru_walk.simps) simp
  next
    case False
    then show ?thesis by (subst (1 2) plru_walk.simps) auto
  qed
qed

lemma plru_victim_after:
  assumes "plru_wf p" and "pl_ways p = 2 ^ k" and "s < plru_sets p" and "\<forall>w \<in> set ws. w < 2 ^ k"
  shows "plru_victim (foldr (plru_touch s) ws p) s < 2 ^ k \<and>
    (\<forall>pre suf. ws = pre @ plru_victim (foldr (plru_touch s) ws p) s # suf \<longrightarrow> k \<le> card (set pre))"
  using plru_victim_steered [of "foldr (plru_touch s) ws p" k s ws] steered_touches [OF assms] assms(2)
  by (simp add: Let_def)

lemma plru_victim_not_last:
  assumes "plru_wf p" and "s < plru_sets p" and "w < pl_ways p" and "1 < pl_ways p"
  shows "plru_victim (plru_touch s w p) s \<noteq> w"
proof
  assume eq: "plru_victim (plru_touch s w p) s = w"
  obtain k where k: "pl_ways p = 2 ^ k" using assms(1) by (auto simp: plru_wf_def)
  with assms(4) have "k \<noteq> 0" by (cases k) simp_all
  moreover have "\<forall>pre suf. [w] = pre @ w # suf \<longrightarrow> k \<le> card (set pre)"
    using plru_victim_after [OF assms(1) k assms(2), of "[w]"] assms(3) k eq by simp
  then have "k \<le> card (set ([] :: nat list))" by blast
  ultimately show False by simp
qed

interpretation plru: eviction_policy plru_victim plru_touch plru_wf pl_ways plru_sets
proof unfold_locales
  fix p set' way
  assume "plru_wf p" "set' < plru_sets p"
  moreover obtain k where "pl_ways p = 2 ^ k" using \<open>plru_wf p\<close> by (auto simp: plru_wf_def)
  ultimately show "plru_victim p set' < pl_ways p"
    using plru_victim_after [of p k set' "[]"] by simp
next
  fix p set' way
  assume "plru_wf p" "set' < plru_sets p" "way < pl_ways p" "1 < pl_ways p"
  then show "plru_victim (plru_touch set' way p) set' \<noteq> way" by (rule plru_victim_not_last)
next
  fix p set' other way
  assume "plru_wf p" "set' < plru_sets p" "other < plru_sets p" "way < pl_ways p" "set' \<noteq> other"
  then show "plru_victim (plru_touch set' way p) other = plru_victim p other"
    using plru_walk_cong [OF plru_touch_other] plru_touch_wf [of p set' way]
    by (simp add: plru_victim_def)
qed (simp_all add: plru_touch_wf)

text \<open>
  C28: the guarantee of tree pseudo-LRU. After any sequence of accesses to a set (the latest
  first in the list), the way chosen for eviction is a way of the set; and if it was among the
  accesses, at least log2(ways) different ways have been accessed since its last use.
\<close>

theorem plru_protects_recent:
  assumes "plru_wf p" and "pl_ways p = 2 ^ k" and "s < plru_sets p" and "\<forall>w \<in> set ws. w < 2 ^ k"
  shows "plru_victim (foldr (plru_touch s) ws p) s < pl_ways p \<and>
    (\<forall>pre suf. ws = pre @ plru_victim (foldr (plru_touch s) ws p) s # suf \<longrightarrow> k \<le> card (set pre))"
  using plru_victim_after [OF assms] by (simp add: assms(2))

theorem plru_protects_recent_witness:
  "\<exists>p. plru_init 2 4 = Inr p \<and>
     plru_victim (foldr (plru_touch 1) [3, 0, 2, 1] p) 1 < pl_ways p"
proof -
  obtain p where p: "plru_init 2 4 = Inr p" by (simp add: plru_init_def pow2_ok_def)
  then have "pl_ways p = 2 ^ 2" "plru_wf p" "plru_sets p = 2"
    using plru_init_wf [OF p] by simp_all
  with plru_protects_recent [of p 2 1 "[3, 0, 2, 1]"] p show ?thesis by simp
qed

end
