(* ===== verification/Sim_Config.thy ===== *)
theory Sim_Config
  imports Prelude
begin

text \<open>
  \<open>SimConfig\<close> and \<open>SimStats\<close> (\<open>include/cpusim/sim/sim_config.h\<close>, \<open>sim_stats.h\<close>): the
  tunable parameters with their defaults, and the event counters. The counters are 64 bits
  wide and wrap.
\<close>

record sim_config =
  ram_base_addr :: u32
  ram_size_bytes :: nat
  dmem_latency_cycles :: u32
  dcache_enabled :: bool
  dcache_line_bytes :: u32
  dcache_sets :: u32
  dcache_hit_latency_cycles :: u32
  dcache_ways :: u32
  imem_latency_cycles :: u32
  icache_enabled :: bool
  icache_line_bytes :: u32
  icache_sets :: u32
  icache_hit_latency_cycles :: u32
  icache_ways :: u32
  icache_prefetch_enabled :: bool
  icache_prefetch_degree :: u32
  bpred_enabled :: bool
  bpred_bht_entries :: u32
  bpred_btb_entries :: u32

definition default_config :: sim_config where
  "default_config =
     \<lparr>ram_base_addr = 0x80000000, ram_size_bytes = 0x10000, dmem_latency_cycles = 1,
      dcache_enabled = False, dcache_line_bytes = 32, dcache_sets = 64,
      dcache_hit_latency_cycles = 1, dcache_ways = 1,
      imem_latency_cycles = 1, icache_enabled = False, icache_line_bytes = 32,
      icache_sets = 64, icache_hit_latency_cycles = 1, icache_ways = 1,
      icache_prefetch_enabled = False, icache_prefetch_degree = 1,
      bpred_enabled = False, bpred_bht_entries = 256, bpred_btb_entries = 64\<rparr>"

record sim_stats =
  st_cycles :: u64
  st_instructions :: u64
  st_branch_correct :: u64
  st_branch_mispredicts :: u64
  st_prefetch_useful :: u64
  st_prefetch_useless :: u64

definition stats_init :: sim_stats where
  "stats_init = \<lparr>st_cycles = 0, st_instructions = 0, st_branch_correct = 0,
     st_branch_mispredicts = 0, st_prefetch_useful = 0, st_prefetch_useless = 0\<rparr>"

text \<open>One increment per event.\<close>

definition count_cycle :: "sim_stats \<Rightarrow> sim_stats" where
  "count_cycle s = s\<lparr>st_cycles := st_cycles s + 1\<rparr>"

definition count_instruction :: "sim_stats \<Rightarrow> sim_stats" where
  "count_instruction s = s\<lparr>st_instructions := st_instructions s + 1\<rparr>"

definition count_useful :: "sim_stats \<Rightarrow> sim_stats" where
  "count_useful s = s\<lparr>st_prefetch_useful := st_prefetch_useful s + 1\<rparr>"

definition count_useless :: "sim_stats \<Rightarrow> sim_stats" where
  "count_useless s = s\<lparr>st_prefetch_useless := st_prefetch_useless s + 1\<rparr>"

lemmas count_defs = count_cycle_def count_instruction_def count_useful_def count_useless_def

end
