(* ===== verification/Cache.thy ===== *)
theory Cache
  imports Tree_Plru Sim_Config
begin

unbundle bit_operations_syntax

text \<open>
  The tag state of \<open>Cache\<close> (\<open>include/cpusim/memory/cache.h\<close>, \<open>src/memory/cache.cpp\<close>): a
  set-associative, timing-only overlay. This theory holds the state, the constructor, the
  lookup and replacement helpers, the prefetch policy and \<open>ready\<close>; the operations that drive
  the backing memory are in \<open>Memsys\<close>. The invariant \<open>cache_wf\<close> states what makes the tags
  sound, above all that a line is never resident in two ways.

  Shift counts: \<open>offset_bits_ + index_bits_\<close> is below 32 for every cache smaller than the
  address space; \<open>cache_wf\<close> requires it (the shift in \<open>tag_of\<close> is undefined otherwise).
\<close>

section \<open>State\<close>

datatype phase = Ph_Idle | Ph_HitWait | Ph_WriteBack | Ph_MissFetch | Ph_PrefetchWait

record line =
  ln_valid :: bool
  ln_dirty :: bool
  ln_prefetched :: bool
  ln_tag :: u32

text \<open>\<open>SequentialPrefetch\<close>, the only \<open>PrefetchPolicy\<close>: the line after the one accessed.\<close>

record seq_prefetch =
  sp_line_bytes :: u32

definition seq_next :: "seq_prefetch \<Rightarrow> u32 \<Rightarrow> u32" where
  "seq_next p addr = addr + sp_line_bytes p"

record cache =
  c_offset_bits :: nat
  c_index_bits :: nat
  c_index_mask :: u32
  c_hit_latency :: u32
  c_ways :: nat
  c_lines :: "line list"
  c_repl :: plru
  c_phase :: phase
  c_cur_addr :: u32
  c_cur_is_write :: bool
  c_victim_way :: nat
  c_wb_addr :: u32
  c_hit_remaining :: int
  c_last_hit :: bool
  c_pf_policy :: "seq_prefetch option"
  c_pf_degree :: u32
  c_pf_active :: bool
  c_pf_addr :: u32
  c_pf_way :: nat
  c_pf_chain :: u32
  c_stats_on :: bool

definition line_init :: line where
  "line_init = \<lparr>ln_valid = False, ln_dirty = False, ln_prefetched = False, ln_tag = 0\<rparr>"

definition cache_init ::
    "u32 \<Rightarrow> u32 \<Rightarrow> u32 \<Rightarrow> u32 \<Rightarrow> bool \<Rightarrow> u32 \<Rightarrow> bool \<Rightarrow> cache res" where
  "cache_init line_bytes sets hit_latency ways prefetch_enabled prefetch_degree stats_on =
     res_bind (log2_exact line_bytes) (\<lambda>offset_bits.
     res_bind (log2_exact sets) (\<lambda>index_bits.
     res_bind (plru_init (unat sets) ways) (\<lambda>repl.
       Inr \<lparr>c_offset_bits = offset_bits, c_index_bits = index_bits, c_index_mask = sets - 1,
         c_hit_latency = (if hit_latency \<noteq> 0 then hit_latency else 1), c_ways = unat ways,
         c_lines = replicate (unat sets * unat ways) line_init, c_repl = repl,
         c_phase = Ph_Idle, c_cur_addr = 0, c_cur_is_write = False, c_victim_way = 0,
         c_wb_addr = 0, c_hit_remaining = 0, c_last_hit = False,
         c_pf_policy = (if prefetch_enabled then Some \<lparr>sp_line_bytes = line_bytes\<rparr> else None),
         c_pf_degree = (if prefetch_degree \<noteq> 0 then prefetch_degree else 1),
         c_pf_active = False, c_pf_addr = 0, c_pf_way = 0, c_pf_chain = 0,
         c_stats_on = stats_on\<rparr>)))"

section \<open>Address split, lookup, replacement\<close>

definition index_of :: "cache \<Rightarrow> u32 \<Rightarrow> u32" where
  "index_of c addr = drop_bit (c_offset_bits c) addr AND c_index_mask c"

definition tag_of :: "cache \<Rightarrow> u32 \<Rightarrow> u32" where
  "tag_of c addr = drop_bit (c_offset_bits c + c_index_bits c) addr"

definition line_addr_of :: "cache \<Rightarrow> u32 \<Rightarrow> u32" where
  "line_addr_of c addr = addr AND NOT (push_bit (c_offset_bits c) 1 - 1)"

definition addr_of :: "cache \<Rightarrow> u32 \<Rightarrow> u32 \<Rightarrow> u32" where
  "addr_of c set' tag =
     push_bit (c_offset_bits c + c_index_bits c) tag OR push_bit (c_offset_bits c) set'"

definition slot :: "cache \<Rightarrow> u32 \<Rightarrow> nat \<Rightarrow> nat" where
  "slot c set' way = unat set' * c_ways c + way"

definition line_at :: "cache \<Rightarrow> u32 \<Rightarrow> nat \<Rightarrow> line" where
  "line_at c set' way = c_lines c ! slot c set' way"

definition set_line :: "cache \<Rightarrow> u32 \<Rightarrow> nat \<Rightarrow> line \<Rightarrow> cache" where
  "set_line c set' way l = c\<lparr>c_lines := (c_lines c)[slot c set' way := l]\<rparr>"

text \<open>The way holding the line of \<open>addr\<close>; \<open>None\<close> is the code's -1.\<close>

definition find_way :: "cache \<Rightarrow> u32 \<Rightarrow> nat option" where
  "find_way c addr =
     find (\<lambda>w. let l = line_at c (index_of c addr) w in ln_valid l \<and> ln_tag l = tag_of c addr)
       [0 ..< c_ways c]"

definition choose_victim :: "cache \<Rightarrow> u32 \<Rightarrow> nat" where
  "choose_victim c set' =
     (case find (\<lambda>w. \<not> ln_valid (line_at c set' w)) [0 ..< c_ways c] of
        Some w \<Rightarrow> w
      | None \<Rightarrow> plru_victim (c_repl c) (unat set'))"

definition touch_way :: "cache \<Rightarrow> u32 \<Rightarrow> nat \<Rightarrow> cache" where
  "touch_way c set' way = c\<lparr>c_repl := plru_touch (unat set') way (c_repl c)\<rparr>"

definition install_line ::
    "u32 \<Rightarrow> nat \<Rightarrow> u32 \<Rightarrow> bool \<Rightarrow> bool \<Rightarrow> cache \<Rightarrow> sim_stats \<Rightarrow> cache \<times> sim_stats" where
  "install_line set' way addr is_write from_prefetch c st =
     (let l = line_at c set' way;
          st' = (if ln_valid l \<and> ln_prefetched l \<and> c_stats_on c then count_useless st else st);
          l' = \<lparr>ln_valid = True, ln_dirty = is_write, ln_prefetched = from_prefetch,
                ln_tag = tag_of c addr\<rparr>
      in (touch_way (set_line c set' way l') set' way, st'))"

text \<open>A line that must not be replaced by the prefetch engine, which has no write-back path.\<close>

definition dirty_victim :: "cache \<Rightarrow> u32 \<Rightarrow> nat \<Rightarrow> bool" where
  "dirty_victim c set' way = (ln_valid (line_at c set' way) \<and> ln_dirty (line_at c set' way))"

definition maybe_start_prefetch :: "u32 \<Rightarrow> cache \<Rightarrow> cache" where
  "maybe_start_prefetch addr c =
     (case c_pf_policy c of
        None \<Rightarrow> c
      | Some pol \<Rightarrow>
          if c_pf_active c then c
          else
            let target = seq_next pol (line_addr_of c addr) in
            if find_way c target \<noteq> None then c
            else
              let set' = index_of c target; way = choose_victim c set' in
              if dirty_victim c set' way then c
              else c\<lparr>c_pf_addr := target, c_pf_way := way, c_pf_active := True, c_pf_chain := 1\<rparr>)"

section \<open>The query\<close>

definition start_hit :: "u32 \<Rightarrow> nat \<Rightarrow> bool \<Rightarrow> cache \<Rightarrow> sim_stats \<Rightarrow> cache \<times> sim_stats" where
  "start_hit set' way is_write c st =
     (let l = line_at c set' way;
          l1 = (if is_write then l\<lparr>ln_dirty := True\<rparr> else l);
          l2 = (if ln_prefetched l1 then l1\<lparr>ln_prefetched := False\<rparr> else l1);
          st' = (if ln_prefetched l1 \<and> c_stats_on c then count_useful st else st);
          c' = touch_way (set_line c set' way l2) set' way
      in (c'\<lparr>c_phase := Ph_HitWait, c_hit_remaining := sint (c_hit_latency c) - 1\<rparr>, st'))"

definition start_miss :: "u32 \<Rightarrow> u32 \<Rightarrow> cache \<Rightarrow> cache" where
  "start_miss set' addr c =
     (if c_pf_active c \<and> line_addr_of c addr = c_pf_addr c
      then c\<lparr>c_victim_way := c_pf_way c, c_phase := Ph_PrefetchWait\<rparr>
      else
        let way = choose_victim c set';
            c1 = c\<lparr>c_victim_way := way\<rparr>;
            c2 = (if c_pf_active c1 \<and> index_of c1 (c_pf_addr c1) = set' \<and> c_pf_way c1 = way
                  then c1\<lparr>c_pf_active := False\<rparr> else c1)
        in if dirty_victim c2 set' way
           then c2\<lparr>c_wb_addr := addr_of c2 set' (ln_tag (line_at c2 set' way)),
                   c_phase := Ph_WriteBack\<rparr>
           else c2\<lparr>c_phase := Ph_MissFetch\<rparr>)"

definition cache_start :: "u32 \<Rightarrow> bool \<Rightarrow> cache \<Rightarrow> sim_stats \<Rightarrow> cache \<times> sim_stats" where
  "cache_start addr is_write c st =
     (let c1 = c\<lparr>c_cur_addr := addr, c_cur_is_write := is_write\<rparr>;
          set' = index_of c1 addr;
          w = find_way c1 addr;
          c2 = maybe_start_prefetch addr (c1\<lparr>c_last_hit := (w \<noteq> None)\<rparr>)
      in case w of
           Some way \<Rightarrow> start_hit set' way is_write c2 st
         | None \<Rightarrow> (start_miss set' addr c2, st))"

definition cache_ready :: "u32 \<Rightarrow> bool \<Rightarrow> cache \<Rightarrow> sim_stats \<Rightarrow> bool \<times> cache \<times> sim_stats" where
  "cache_ready addr is_write c st =
     (let (c', st') = (if c_phase c = Ph_Idle then cache_start addr is_write c st else (c, st))
      in (c_phase c' = Ph_HitWait \<and> c_hit_remaining c' = 0, c', st'))"

definition last_was_hit :: "cache \<Rightarrow> bool" where
  "last_was_hit c = c_last_hit c"

section \<open>Geometry\<close>

definition cache_geom :: "cache \<Rightarrow> bool" where
  "cache_geom c \<longleftrightarrow>
     c_offset_bits c + c_index_bits c < 32 \<and> c_index_mask c = mask (c_index_bits c) \<and>
     length (c_lines c) = 2 ^ c_index_bits c * c_ways c \<and>
     plru_wf (c_repl c) \<and> pl_ways (c_repl c) = c_ways c \<and>
     plru_sets (c_repl c) = 2 ^ c_index_bits c"

lemma line_addr_of_alt: "line_addr_of c a = a AND NOT (mask (c_offset_bits c))"
  by (simp only: line_addr_of_def mask_of_pow2)

lemma index_less: "cache_geom c \<Longrightarrow> unat (index_of c a) < 2 ^ c_index_bits c"
  by (simp add: index_of_def cache_geom_def unat_and_mask_less)

text \<open>A line is determined by its set and tag.\<close>

lemma line_addr_eq_iff:
  assumes "cache_geom c"
  shows "line_addr_of c a = line_addr_of c b \<longleftrightarrow> index_of c a = index_of c b \<and> tag_of c a = tag_of c b"
proof
  assume L: "line_addr_of c a = line_addr_of c b"
  have hi: "bit a n = bit b n" if "c_offset_bits c \<le> n" for n
  proof (cases "n < 32")
    case True
    from arg_cong [OF L, of "\<lambda>w. bit w n"] that True show ?thesis
      by (auto simp: line_addr_of_alt bit_and_iff bit_not_iff bit_mask_iff)
  qed (auto dest: bit_u32_less)
  show "index_of c a = index_of c b \<and> tag_of c a = tag_of c b"
    using assms hi by (auto simp: index_of_def tag_of_def cache_geom_def bit_simps intro!: u32_eqI)
next
  assume "index_of c a = index_of c b \<and> tag_of c a = tag_of c b"
  then have i: "bit (index_of c a) n = bit (index_of c b) n"
    and t: "bit (tag_of c a) n = bit (tag_of c b) n" for n by simp_all
  have "bit a n = bit b n" if n: "c_offset_bits c \<le> n" "n < 32" for n
  proof (cases "n < c_offset_bits c + c_index_bits c")
    case True
    with i [of "n - c_offset_bits c"] n assms show ?thesis
      by (auto simp: index_of_def cache_geom_def bit_low_field)
  next
    case False
    with t [of "n - (c_offset_bits c + c_index_bits c)"] n show ?thesis
      by (auto simp: tag_of_def bit_shifted_down)
  qed
  then show "line_addr_of c a = line_addr_of c b"
    by (intro u32_eqI) (auto simp: line_addr_of_alt bit_and_iff bit_not_iff bit_mask_iff)
qed

lemma line_addr_idem [simp]: "line_addr_of c (line_addr_of c a) = line_addr_of c a"
  by (simp add: line_addr_of_alt and.assoc)

text \<open>The address rebuilt for a write-back is the one of the line in that set with that tag.\<close>

lemma addr_of_line:
  assumes "cache_geom c" and "unat set' < 2 ^ c_index_bits c"
  shows "index_of c (addr_of c set' (tag_of c a)) = set' \<and>
    tag_of c (addr_of c set' (tag_of c a)) = tag_of c a"
proof -
  let ?o = "c_offset_bits c" and ?i = "c_index_bits c"
  have s: "\<not> bit set' n" if "?i \<le> n" for n
  proof -
    have "take_bit ?i (unat set') = unat set'" using assms(2) by (rule take_bit_nat_eq_self)
    with that have "\<not> bit (unat set') n" by (metis bit_take_bit_iff leD)
    then show ?thesis by (auto simp: bit_unsigned_iff dest: bit_u32_less)
  qed
  show ?thesis
    using assms(1) s
    by (auto simp: index_of_def tag_of_def addr_of_def cache_geom_def bit_simps intro!: u32_eqI
        dest: bit_u32_less) (meson linorder_not_less)
qed

section \<open>Slots and residence\<close>

lemma slot_inj:
  assumes "w < c_ways c" and "w' < c_ways c"
  shows "slot c s w = slot c s' w' \<longleftrightarrow> s = s' \<and> w = w'"
proof
  assume e: "slot c s w = slot c s' w'"
  have "(unat s * c_ways c + w) div c_ways c = unat s" "(unat s' * c_ways c + w') div c_ways c = unat s'"
    using assms by simp_all
  with e have "unat s = unat s'" by (simp add: slot_def)
  with e show "s = s' \<and> w = w'" by (simp add: slot_def word_unat_eq_iff)
qed simp

lemma slot_less:
  assumes "cache_geom c" and "unat s < 2 ^ c_index_bits c" and "w < c_ways c"
  shows "slot c s w < length (c_lines c)"
proof -
  have "(unat s + 1) * c_ways c \<le> 2 ^ c_index_bits c * c_ways c"
    using assms(2) by (intro mult_le_mono) simp_all
  with assms(1,3) show ?thesis by (simp add: slot_def cache_geom_def)
qed

lemma line_at_set_line:
  assumes "cache_geom c" and "unat s < 2 ^ c_index_bits c" and "w < c_ways c" and "w' < c_ways c"
  shows "line_at (set_line c s w l) s' w' = (if s' = s \<and> w' = w then l else line_at c s' w')"
proof -
  have "line_at (set_line c s w l) s' w' = (c_lines c)[slot c s w := l] ! slot c s' w'"
    by (simp add: line_at_def set_line_def slot_def)
  also have "\<dots> = (if slot c s' w' = slot c s w then l else c_lines c ! slot c s' w')"
    using slot_less [OF assms(1,2,3)] by (auto simp: nth_list_update)
  finally show ?thesis using slot_inj [OF assms(4,3)] by (simp add: line_at_def)
qed

definition holds :: "cache \<Rightarrow> u32 \<Rightarrow> nat \<Rightarrow> u32 \<Rightarrow> bool" where
  "holds c s w t \<longleftrightarrow> ln_valid (line_at c s w) \<and> ln_tag (line_at c s w) = t"

definition resident :: "cache \<Rightarrow> u32 \<Rightarrow> bool" where
  "resident c a \<longleftrightarrow> (\<exists>w < c_ways c. holds c (index_of c a) w (tag_of c a))"

lemma find_way_Some:
  "find_way c a = Some w \<Longrightarrow> w < c_ways c \<and> holds c (index_of c a) w (tag_of c a)"
  by (auto simp: find_way_def find_Some_iff holds_def Let_def)

lemma find_way_None: "find_way c a = None \<longleftrightarrow> \<not> resident c a"
  by (auto simp: find_way_def find_None_iff holds_def Let_def resident_def)

lemma resident_line: "cache_geom c \<Longrightarrow> line_addr_of c a = line_addr_of c b \<Longrightarrow>
    resident c a = resident c b"
  by (simp add: resident_def line_addr_eq_iff)

definition tags_unique :: "cache \<Rightarrow> bool" where
  "tags_unique c \<longleftrightarrow>
     (\<forall>s w w' t. unat s < 2 ^ c_index_bits c \<longrightarrow> w < c_ways c \<longrightarrow> w' < c_ways c \<longrightarrow>
        holds c s w t \<longrightarrow> holds c s w' t \<longrightarrow> w = w')"

lemma choose_victim_less:
  assumes "cache_geom c" and "unat s < 2 ^ c_index_bits c"
  shows "choose_victim c s < c_ways c"
proof (cases "find (\<lambda>w. \<not> ln_valid (line_at c s w)) [0 ..< c_ways c]")
  case None
  then show ?thesis
    using plru.victim_range [of "c_repl c" "unat s"] assms
    by (simp add: choose_victim_def cache_geom_def)
next
  case (Some w)
  then have "choose_victim c s = w" by (simp add: choose_victim_def)
  with Some show ?thesis by (auto simp: find_Some_iff)
qed

text \<open>An invalid way is filled before a valid line is evicted.\<close>

lemma choose_victim_invalid_first:
  assumes "w < c_ways c" and "\<not> ln_valid (line_at c s w)"
  shows "\<not> ln_valid (line_at c s (choose_victim c s))"
proof (cases "find (\<lambda>w. \<not> ln_valid (line_at c s w)) [0 ..< c_ways c]")
  case None
  with assms show ?thesis by (auto simp: find_None_iff)
next
  case (Some v)
  then have "choose_victim c s = v" by (simp add: choose_victim_def)
  with Some show ?thesis by (auto simp: find_Some_iff)
qed

section \<open>Writing one line\<close>

text \<open>
  Every change of the tags is one write of a line, with a touch of the replacement state. The
  split of an address depends on the geometry only.
\<close>

definition same_geom :: "cache \<Rightarrow> cache \<Rightarrow> bool" where
  "same_geom c c' \<longleftrightarrow> c_offset_bits c' = c_offset_bits c \<and> c_index_bits c' = c_index_bits c \<and>
     c_index_mask c' = c_index_mask c \<and> c_ways c' = c_ways c"

lemma same_geom_split:
  assumes "same_geom c c'"
  shows "index_of c' = index_of c" "tag_of c' = tag_of c" "line_addr_of c' = line_addr_of c"
    "c_ways c' = c_ways c" "c_index_bits c' = c_index_bits c"
  using assms by (auto simp: same_geom_def index_of_def tag_of_def line_addr_of_def fun_eq_iff)

definition put_line :: "cache \<Rightarrow> u32 \<Rightarrow> nat \<Rightarrow> line \<Rightarrow> cache" where
  "put_line c s w l = touch_way (set_line c s w l) s w"

lemma put_line_geom [simp]: "same_geom c (put_line c s w l)"
  by (simp add: same_geom_def put_line_def touch_way_def set_line_def)

lemma put_line_wf:
  assumes "cache_geom c"
  shows "cache_geom (put_line c s w l)"
  using assms plru_touch_wf [of "c_repl c" "unat s" w]
  by (simp add: cache_geom_def put_line_def touch_way_def set_line_def)

lemma line_at_put_line:
  assumes "cache_geom c" and "unat s < 2 ^ c_index_bits c" and "w < c_ways c" and "w' < c_ways c"
  shows "line_at (put_line c s w l) s' w' = (if s' = s \<and> w' = w then l else line_at c s' w')"
  using line_at_set_line [OF assms, of l s']
  by (simp add: put_line_def touch_way_def line_at_def slot_def)

lemma holds_put_line:
  assumes "cache_geom c" and "unat s < 2 ^ c_index_bits c" and "w < c_ways c" and "w' < c_ways c"
  shows "holds (put_line c s w l) s' w' t \<longleftrightarrow>
    (if s' = s \<and> w' = w then ln_valid l \<and> ln_tag l = t else holds c s' w' t)"
  by (simp add: holds_def line_at_put_line [OF assms])

lemma put_line_not_resident:
  assumes "cache_geom c" and "unat s < 2 ^ c_index_bits c" and "w < c_ways c"
    and "\<not> resident c a" and "index_of c a \<noteq> s \<or> tag_of c a \<noteq> ln_tag l"
  shows "\<not> resident (put_line c s w l) a"
  using assms(4,5) holds_put_line [OF assms(1,2,3)]
  by (auto simp: resident_def same_geom_split [OF put_line_geom] split: if_splits)

lemma put_line_unique:
  assumes "cache_geom c" and "unat s < 2 ^ c_index_bits c" and "w < c_ways c" and "tags_unique c"
    and "\<And>w'. w' < c_ways c \<Longrightarrow> w' \<noteq> w \<Longrightarrow> \<not> holds c s w' (ln_tag l)"
  shows "tags_unique (put_line c s w l)"
  unfolding tags_unique_def same_geom_split [OF put_line_geom]
proof (intro allI impI)
  fix s' w1 w2 t
  assume r: "unat s' < 2 ^ c_index_bits c" "w1 < c_ways c" "w2 < c_ways c"
    and h: "holds (put_line c s w l) s' w1 t" "holds (put_line c s w l) s' w2 t"
  note hp = holds_put_line [OF assms(1,2,3)]
  show "w1 = w2"
  proof (cases "s' = s \<and> (w1 = w \<or> w2 = w)")
    case True
    with h hp [OF r(2)] hp [OF r(3)] assms(5) r show ?thesis by (auto split: if_splits)
  next
    case False
    with h hp [OF r(2)] hp [OF r(3)] have "holds c s' w1 t" "holds c s' w2 t" by auto
    with assms(4) r show ?thesis by (auto simp: tags_unique_def)
  qed
qed

section \<open>The invariant\<close>

text \<open>
  The prefetch engine's share of the state: its target is a line, line-aligned, that is not
  resident, and the way reserved for it is a way of the set.
\<close>

definition prefetch_wf :: "cache \<Rightarrow> bool" where
  "prefetch_wf c \<longleftrightarrow>
     (\<forall>p. c_pf_policy c = Some p \<longrightarrow> sp_line_bytes p = push_bit (c_offset_bits c) 1) \<and>
     (c_pf_active c \<longrightarrow> c_pf_policy c \<noteq> None \<and> c_pf_way c < c_ways c \<and>
        line_addr_of c (c_pf_addr c) = c_pf_addr c \<and> \<not> resident c (c_pf_addr c))"

text \<open>
  The demand request's share: while a miss is being served its line is not resident, its
  victim is a way of the set, and the engine neither targets the same line nor (demand has
  priority) holds a reservation of the same slot; a merged request is for the engine's line.
\<close>

definition demand_wf :: "cache \<Rightarrow> bool" where
  "demand_wf c \<longleftrightarrow>
     (c_phase c \<in> {Ph_WriteBack, Ph_MissFetch, Ph_PrefetchWait} \<longrightarrow>
        \<not> resident c (c_cur_addr c) \<and> c_victim_way c < c_ways c) \<and>
     (c_phase c \<in> {Ph_WriteBack, Ph_MissFetch} \<longrightarrow> c_pf_active c \<longrightarrow>
        c_pf_addr c \<noteq> line_addr_of c (c_cur_addr c) \<and>
        \<not> (index_of c (c_pf_addr c) = index_of c (c_cur_addr c) \<and> c_pf_way c = c_victim_way c)) \<and>
     (c_phase c = Ph_PrefetchWait \<longrightarrow>
        c_pf_active c \<and> c_pf_addr c = line_addr_of c (c_cur_addr c) \<and> c_victim_way c = c_pf_way c)"

definition cache_wf :: "cache \<Rightarrow> bool" where
  "cache_wf c \<longleftrightarrow> cache_geom c \<and> tags_unique c \<and> prefetch_wf c \<and> demand_wf c"

lemmas cache_wf_defs = cache_wf_def prefetch_wf_def demand_wf_def

text \<open>Updates of the registers that hold neither tags nor geometry.\<close>

lemma cache_field_frame [simp]:
  "line_at (c\<lparr>c_cur_addr := a\<rparr>) = line_at c" "line_at (c\<lparr>c_cur_is_write := b\<rparr>) = line_at c"
  "line_at (c\<lparr>c_last_hit := b\<rparr>) = line_at c" "line_at (c\<lparr>c_phase := ph\<rparr>) = line_at c"
  "line_at (c\<lparr>c_hit_remaining := r\<rparr>) = line_at c" "line_at (c\<lparr>c_victim_way := n\<rparr>) = line_at c"
  "line_at (c\<lparr>c_wb_addr := a\<rparr>) = line_at c" "line_at (c\<lparr>c_pf_active := b\<rparr>) = line_at c"
  "line_at (c\<lparr>c_pf_addr := a\<rparr>) = line_at c" "line_at (c\<lparr>c_pf_way := n\<rparr>) = line_at c"
  "line_at (c\<lparr>c_pf_chain := a\<rparr>) = line_at c"
  by (simp_all add: line_at_def slot_def fun_eq_iff)

definition same_tags :: "cache \<Rightarrow> cache \<Rightarrow> bool" where
  "same_tags c c' \<longleftrightarrow> same_geom c c' \<and> c_lines c' = c_lines c \<and> c_repl c' = c_repl c \<and>
     c_pf_policy c' = c_pf_policy c"

lemma same_tagsD:
  assumes "same_tags c c'"
  shows "index_of c' = index_of c" "tag_of c' = tag_of c" "line_addr_of c' = line_addr_of c"
    "c_ways c' = c_ways c" "c_index_bits c' = c_index_bits c" "c_offset_bits c' = c_offset_bits c"
    "c_pf_policy c' = c_pf_policy c"
    "line_at c' = line_at c" "holds c' = holds c" "resident c' = resident c"
    "tags_unique c' = tags_unique c" "cache_geom c' = cache_geom c"
    "choose_victim c' = choose_victim c" "find_way c' = find_way c"
proof -
  have g: "same_geom c c'" and l: "c_lines c' = c_lines c" and r: "c_repl c' = c_repl c"
    and p: "c_pf_policy c' = c_pf_policy c" using assms by (simp_all add: same_tags_def)
  show s: "index_of c' = index_of c" "tag_of c' = tag_of c" "line_addr_of c' = line_addr_of c"
    "c_ways c' = c_ways c" "c_index_bits c' = c_index_bits c"
    using same_geom_split [OF g] by simp_all
  show o: "c_offset_bits c' = c_offset_bits c" using g by (simp add: same_geom_def)
  show "c_pf_policy c' = c_pf_policy c" by (rule p)
  show la: "line_at c' = line_at c" by (simp add: line_at_def slot_def l s fun_eq_iff)
  show h: "holds c' = holds c" by (simp add: holds_def la fun_eq_iff)
  show "resident c' = resident c" by (simp add: resident_def h s fun_eq_iff)
  show "tags_unique c' = tags_unique c" by (simp add: tags_unique_def h s)
  show "cache_geom c' = cache_geom c" using g by (simp add: cache_geom_def l r same_geom_def)
  show "choose_victim c' = choose_victim c" by (rule ext) (simp only: choose_victim_def la s r)
  show "find_way c' = find_way c" by (simp add: find_way_def la s fun_eq_iff)
qed

section \<open>The next line\<close>

text \<open>
  The interface \<open>PrefetchPolicy\<close>: from a line address it gives the address of a line to
  fetch. What the cache relies on: the result is line-aligned and is another line.
\<close>

locale prefetch_policy =
  fixes next_line :: "'p \<Rightarrow> u32 \<Rightarrow> u32"
    and valid :: "nat \<Rightarrow> 'p \<Rightarrow> bool"
  assumes next_aligned: "valid k p \<Longrightarrow> k < 32 \<Longrightarrow> take_bit k a = 0 \<Longrightarrow> take_bit k (next_line p a) = 0"
    and next_other: "valid k p \<Longrightarrow> k < 32 \<Longrightarrow> next_line p a \<noteq> a"
begin

lemma chain_aligned:
  "valid k p \<Longrightarrow> k < 32 \<Longrightarrow> take_bit k a = 0 \<Longrightarrow> take_bit k ((next_line p ^^ n) a) = 0"
  by (induction n) (simp_all add: next_aligned)

end

interpretation seq_pf: prefetch_policy seq_next "\<lambda>k p. sp_line_bytes p = push_bit k 1"
proof unfold_locales
  fix k :: nat and p :: seq_prefetch and a :: u32
  assume p: "sp_line_bytes p = push_bit k 1" and "take_bit k a = 0"
  have "k \<le> n" if "bit a n" for n
    using \<open>take_bit k a = 0\<close> that by (metis bit_0_eq bit_take_bit_iff bot_apply bot_bool_def leI)
  then have "a = push_bit k (drop_bit k a)" by (intro u32_eqI) (auto simp: bit_simps)
  then have "a + push_bit k 1 = push_bit k (drop_bit k a + 1)"
    by (metis push_bit_add)
  then show "take_bit k (seq_next p a) = 0" by (simp add: seq_next_def p take_bit_push_bit del: push_bit_of_1)
next
  fix k :: nat and p :: seq_prefetch and a :: u32
  assume p: "sp_line_bytes p = push_bit k 1" and k: "k < 32"
  have "push_bit k (1 :: u32) \<noteq> 0"
  proof
    assume "push_bit k (1 :: u32) = 0"
    moreover have "bit (push_bit k (1 :: u32)) k" using k by (simp add: bit_simps)
    ultimately show False by (simp only: bit_0_eq bot_apply bot_bool_def)
  qed
  then show "seq_next p a \<noteq> a" by (simp add: seq_next_def p)
qed

lemma line_addr_aligned: "line_addr_of c a = a \<longleftrightarrow> take_bit (c_offset_bits c) a = 0"
  unfolding line_addr_of_alt
  by (auto simp: bit_eq_iff bit_simps dest: bit_u32_less)

section \<open>The query keeps the invariant\<close>

lemma seq_next_line:
  assumes "cache_geom c" and "prefetch_wf c" and "c_pf_policy c = Some p"
    and "line_addr_of c a = a"
  shows "line_addr_of c (seq_next p a) = seq_next p a \<and> seq_next p a \<noteq> a"
proof -
  have p: "sp_line_bytes p = push_bit (c_offset_bits c) 1" and k: "c_offset_bits c < 32"
    using assms(1,2,3) by (simp_all add: prefetch_wf_def cache_geom_def)
  from seq_pf.next_aligned [of p "c_offset_bits c" a] seq_pf.next_other [of p "c_offset_bits c" a]
  show ?thesis using p k assms(4) unfolding line_addr_aligned by blast
qed

lemma maybe_start_prefetch_frame:
  "same_tags c (maybe_start_prefetch a c)"
  "c_phase (maybe_start_prefetch a c) = c_phase c"
  "c_cur_addr (maybe_start_prefetch a c) = c_cur_addr c"
  "c_cur_is_write (maybe_start_prefetch a c) = c_cur_is_write c"
  "c_hit_latency (maybe_start_prefetch a c) = c_hit_latency c"
  "c_stats_on (maybe_start_prefetch a c) = c_stats_on c"
  "c_last_hit (maybe_start_prefetch a c) = c_last_hit c"
  "c_pf_policy c = None \<Longrightarrow> maybe_start_prefetch a c = c"
  by (auto simp: maybe_start_prefetch_def same_tags_def same_geom_def Let_def split: option.splits)

lemma maybe_start_prefetch_wf:
  assumes "cache_geom c" and "prefetch_wf c"
  shows "prefetch_wf (maybe_start_prefetch a c)"
proof -
  let ?c = "maybe_start_prefetch a c"
  note same = same_tagsD [OF maybe_start_prefetch_frame(1), of a c]
  show ?thesis
  proof (cases "c_pf_active c \<or> c_pf_policy c = None \<or> \<not> c_pf_active ?c")
    case True
    then show ?thesis
    proof (elim disjE)
      assume "\<not> c_pf_active ?c"
      then show ?thesis using assms(2) by (simp add: prefetch_wf_def same)
    qed (use assms(2) in \<open>auto simp: maybe_start_prefetch_def split: option.splits\<close>)
  next
    case False
    then obtain p where p: "c_pf_policy c = Some p" by auto
    define t where "t = seq_next p (line_addr_of c a)"
    have new: "c_pf_addr ?c = t" "c_pf_way ?c = choose_victim c (index_of c t)"
      "find_way c t = None"
      using False p
      by (auto simp: maybe_start_prefetch_def t_def Let_def split: if_splits)
    have "line_addr_of c t = t" using seq_next_line [OF assms p, of "line_addr_of c a"] by (simp add: t_def)
    moreover have "choose_victim c (index_of c t) < c_ways c"
      using assms(1) by (intro choose_victim_less index_less)
    ultimately show ?thesis using assms(2) new p by (simp add: prefetch_wf_def same find_way_None)
  qed
qed

text \<open>A write of a line that keeps its valid bit and tag moves no line.\<close>

lemma put_line_same:
  assumes "cache_geom c" and "unat s < 2 ^ c_index_bits c" and "w < c_ways c"
    and "ln_valid l = ln_valid (line_at c s w)" and "ln_tag l = ln_tag (line_at c s w)"
  shows "resident (put_line c s w l) = resident c" "tags_unique (put_line c s w l) = tags_unique c"
proof -
  have h: "holds (put_line c s w l) s' w' t = holds c s' w' t" if "w' < c_ways c" for s' w' t
    using holds_put_line [OF assms(1,2,3) that, of l s' t] assms(4,5) by (auto simp: holds_def)
  note same = same_geom_split [OF put_line_geom, of c s w l]
  show "resident (put_line c s w l) = resident c"
    by (auto simp: resident_def same h fun_eq_iff)
  show "tags_unique (put_line c s w l) = tags_unique c"
    unfolding tags_unique_def same using h by meson
qed

lemma start_hit_wf:
  assumes "cache_geom c" "tags_unique c" "prefetch_wf c" and "unat s < 2 ^ c_index_bits c" "w < c_ways c"
  shows "cache_wf (fst (start_hit s w is_write c st))"
proof -
  define l1 where "l1 = (if is_write then (line_at c s w)\<lparr>ln_dirty := True\<rparr> else line_at c s w)"
  define l where "l = (if ln_prefetched l1 then l1\<lparr>ln_prefetched := False\<rparr> else l1)"
  have l: "ln_valid l = ln_valid (line_at c s w)" "ln_tag l = ln_tag (line_at c s w)"
    by (simp_all add: l_def l1_def)
  have eq: "fst (start_hit s w is_write c st) =
      (put_line c s w l)\<lparr>c_phase := Ph_HitWait, c_hit_remaining := sint (c_hit_latency c) - 1\<rparr>"
    by (simp add: start_hit_def put_line_def Let_def l_def l1_def)
  let ?p = "put_line c s w l"
  let ?c = "?p\<lparr>c_phase := Ph_HitWait, c_hit_remaining := sint (c_hit_latency c) - 1\<rparr>"
  have st: "same_tags ?p ?c" by (simp add: same_tags_def same_geom_def)
  note d = same_tagsD [OF st] and g = same_geom_split [OF put_line_geom, of c s w l]
  have f: "c_pf_policy ?p = c_pf_policy c" "c_pf_active ?p = c_pf_active c" "c_pf_addr ?p = c_pf_addr c"
    "c_pf_way ?p = c_pf_way c" "c_offset_bits ?p = c_offset_bits c"
    by (simp_all add: put_line_def touch_way_def set_line_def)
  have "prefetch_wf ?c"
    using assms(3) unfolding prefetch_wf_def d by (simp add: f g put_line_same [OF assms(1,4,5) l])
  then show ?thesis
    unfolding eq using put_line_wf [OF assms(1)] assms(2) put_line_same(2) [OF assms(1,4,5) l]
    by (simp add: cache_wf_def d demand_wf_def)
qed

lemma start_miss_wf:
  assumes "cache_geom c" "tags_unique c" "prefetch_wf c" and "\<not> resident c a" and "c_cur_addr c = a"
  shows "cache_wf (start_miss (index_of c a) a c)"
proof -
  have st: "same_tags c (start_miss (index_of c a) a c)"
    by (simp add: start_miss_def Let_def same_tags_def same_geom_def)
  have v: "choose_victim c (index_of c a) < c_ways c"
    using assms(1) by (intro choose_victim_less index_less)
  have "prefetch_wf (start_miss (index_of c a) a c)"
    using assms(3) unfolding prefetch_wf_def same_tagsD [OF st]
    by (auto simp: start_miss_def Let_def)
  moreover have "demand_wf (start_miss (index_of c a) a c)"
  proof (cases "c_pf_active c \<and> line_addr_of c a = c_pf_addr c")
    case True
    then show ?thesis using assms unfolding demand_wf_def same_tagsD [OF st]
      by (simp add: start_miss_def prefetch_wf_def)
  next
    case False
    then show ?thesis using assms(4,5) v unfolding demand_wf_def same_tagsD [OF st]
      by (auto simp: start_miss_def Let_def index_of_def)
  qed
  ultimately show ?thesis using assms(1,2) by (simp add: cache_wf_def same_tagsD [OF st])
qed

lemma cache_start_wf:
  assumes "cache_wf c"
  shows "cache_wf (fst (cache_start a w c st))"
proof -
  define c1 where "c1 = c\<lparr>c_cur_addr := a, c_cur_is_write := w\<rparr>"
  define cl where "cl = c1\<lparr>c_last_hit := find_way c1 a \<noteq> None\<rparr>"
  define c2 where "c2 = maybe_start_prefetch a cl"
  have s1: "same_tags c cl" "same_tags c c1"
    by (simp_all add: cl_def c1_def same_tags_def same_geom_def)
  have wf1: "cache_geom c" "tags_unique c" "prefetch_wf c" using assms by (simp_all add: cache_wf_def)
  have s2: "same_tags c c2"
    using s1(1) maybe_start_prefetch_frame(1) [of cl a]
    by (simp add: c2_def same_tags_def same_geom_def)
  note d1 = same_tagsD [OF s1(1)] and d2 = same_tagsD [OF s2]
  have "prefetch_wf cl"
    using wf1(3) unfolding prefetch_wf_def d1 by (simp add: cl_def c1_def)
  then have wf2: "cache_geom c2" "tags_unique c2" "prefetch_wf c2"
    using wf1 maybe_start_prefetch_wf [of cl a] d1(12)
    by (simp_all add: d2 c2_def [symmetric])
  have cur: "c_cur_addr c2 = a" by (simp add: c2_def maybe_start_prefetch_frame cl_def c1_def)
  have fw: "find_way c1 a = find_way c2 a" and ix: "index_of c1 a = index_of c2 a"
    using same_tagsD [OF s1(2)] by (simp_all add: d2)
  have "cache_start a w c st = (case find_way c1 a of
      Some way \<Rightarrow> start_hit (index_of c1 a) way w c2 st
    | None \<Rightarrow> (start_miss (index_of c1 a) a c2, st))"
    unfolding cache_start_def Let_def c2_def cl_def c1_def ..
  then have eq: "cache_start a w c st = (case find_way c2 a of
      Some way \<Rightarrow> start_hit (index_of c2 a) way w c2 st
    | None \<Rightarrow> (start_miss (index_of c2 a) a c2, st))"
    unfolding fw ix .
  show ?thesis
  proof (cases "find_way c2 a")
    case None
    then have "\<not> resident c2 a" by (simp add: find_way_None)
    from start_miss_wf [OF wf2 this cur] None show ?thesis by (simp add: eq)
  next
    case (Some v)
    then show ?thesis
      using start_hit_wf [OF wf2 index_less [OF wf2(1)]] find_way_Some [OF Some] by (simp add: eq)
  qed
qed

lemma cache_ready_wf: "cache_wf c \<Longrightarrow> cache_wf (fst (snd (cache_ready a w c st)))"
  using cache_start_wf [of c a w st] by (simp add: cache_ready_def case_prod_beta Let_def)

section \<open>Installing a line keeps the tags sound\<close>

lemma install_line_put:
  "fst (install_line s w a is_write from_pf c st) =
     put_line c s w \<lparr>ln_valid = True, ln_dirty = is_write, ln_prefetched = from_pf, ln_tag = tag_of c a\<rparr>"
  by (simp add: install_line_def put_line_def Let_def)

text \<open>
  A line that is not resident, put into its own set: the tags stay unique, it is resident
  afterwards, and no other line becomes resident.
\<close>

lemma install_line_tags:
  assumes "cache_geom c" and "tags_unique c" and "w < c_ways c" and "\<not> resident c a"
    and c'_def: "c' = fst (install_line (index_of c a) w a is_write from_pf c st)"
  shows "cache_geom c'" "tags_unique c'" "same_geom c c'" "resident c' a"
    "\<And>b. \<not> resident c b \<Longrightarrow> line_addr_of c b \<noteq> line_addr_of c a \<Longrightarrow> \<not> resident c' b"
    "c_pf_policy c' = c_pf_policy c" "c_pf_active c' = c_pf_active c" "c_pf_addr c' = c_pf_addr c"
    "c_pf_way c' = c_pf_way c" "c_phase c' = c_phase c" "c_cur_addr c' = c_cur_addr c"
    "c_victim_way c' = c_victim_way c" "c_hit_latency c' = c_hit_latency c"
proof -
  let ?s = "index_of c a"
  let ?l = "\<lparr>ln_valid = True, ln_dirty = is_write, ln_prefetched = from_pf, ln_tag = tag_of c a\<rparr>"
  have c': "c' = put_line c ?s w ?l" by (simp only: c'_def install_line_put)
  note s = index_less [OF assms(1), of a]
  note g = same_geom_split [OF put_line_geom, of c ?s w ?l]
  show "cache_geom c'" unfolding c' using assms(1) by (rule put_line_wf)
  show "tags_unique c'" unfolding c'
    using assms(1) s assms(3,2)
    by (rule put_line_unique) (use assms(4) in \<open>auto simp: resident_def\<close>)
  show "same_geom c c'" by (simp add: c')
  show "resident c' a"
    unfolding c' resident_def g using holds_put_line [OF assms(1) s assms(3,3), of ?l ?s] assms(3) by auto
  show "\<not> resident c' b" if "\<not> resident c b" "line_addr_of c b \<noteq> line_addr_of c a" for b
    unfolding c' using assms(1) s assms(3) that(1)
    by (rule put_line_not_resident) (use that(2) line_addr_eq_iff [OF assms(1)] in auto)
  show "c_pf_policy c' = c_pf_policy c" "c_pf_active c' = c_pf_active c" "c_pf_addr c' = c_pf_addr c"
    "c_pf_way c' = c_pf_way c" "c_phase c' = c_phase c" "c_cur_addr c' = c_cur_addr c"
    "c_victim_way c' = c_victim_way c" "c_hit_latency c' = c_hit_latency c"
    by (simp_all add: c' put_line_def touch_way_def set_line_def)
qed

text \<open>The constructor establishes the invariant.\<close>

lemma cache_init_wf:
  assumes "cache_init line_bytes sets hl ways pf deg so = Inr c"
    and "c_offset_bits c + c_index_bits c < 32"
  shows "cache_wf c \<and> c_phase c = Ph_Idle"
proof -
  obtain ob ib r where o: "log2_exact line_bytes = Inr ob" and ix: "log2_exact sets = Inr ib"
    and r: "plru_init (unat sets) ways = Inr r"
    using assms(1) by (auto simp: cache_init_def res_bind_Inr_iff)
  have c: "c_offset_bits c = ob" "c_index_bits c = ib" "c_index_mask c = sets - 1"
    "c_ways c = unat ways" "c_lines c = replicate (unat sets * unat ways) line_init" "c_repl c = r"
    "c_phase c = Ph_Idle" "\<not> c_pf_active c"
    "c_pf_policy c = (if pf then Some \<lparr>sp_line_bytes = line_bytes\<rparr> else None)"
    using assms(1) by (auto simp: cache_init_def o ix r)
  note lo = log2_exact_Inr [OF o] and li = log2_exact_Inr [OF ix] and pr = plru_init_wf [OF r]
  have m: "sets - 1 = mask ib" using li mask_of_pow2 [of ib] by simp
  have u: "unat sets = 2 ^ ib" using li by blast
  have geom: "cache_geom c" using assms(2) pr unfolding cache_geom_def c m by (simp add: u)
  have "\<not> holds c s w t" if "unat s < 2 ^ ib" "w < c_ways c" for s w t
    using slot_less [OF geom, of s w] that by (simp add: holds_def line_at_def c line_init_def)
  then have "tags_unique c" by (auto simp: tags_unique_def c)
  moreover have "prefetch_wf c" "demand_wf c"
    using lo by (auto simp: prefetch_wf_def demand_wf_def c split: if_splits)
  ultimately show ?thesis using geom by (simp add: cache_wf_def c)
qed

end
