(* ===== verification/Mem_Interface.thy ===== *)
theory Mem_Interface
  imports Prelude
begin

unbundle bit_operations_syntax

text \<open>
  The memory interface \<open>IMemory\<close> of \<open>include/cpusim/memory/mem_interface.h\<close>, as a locale:
  the data path (\<open>load_*\<close>, \<open>store_*\<close>) acts on a map from addresses to bytes, little-endian;
  the timing path (\<open>ready\<close>, \<open>tick\<close>) never changes that map. The byte-map operations are
  the specification; \<open>Flat_Mem\<close> and \<open>Memsys\<close> provide the code's instances.

  Addresses of the map are natural numbers, so that the second byte of an access at the
  top of the address space is not the byte at 0.
\<close>

section \<open>Little-endian access to a byte map\<close>

type_synonym byte_map = "nat \<rightharpoonup> u8"

definition mapped :: "byte_map \<Rightarrow> nat \<Rightarrow> nat \<Rightarrow> bool" where
  "mapped m a n \<longleftrightarrow> (\<forall>i < n. m (a + i) \<noteq> None)"

fun read_le :: "byte_map \<Rightarrow> nat \<Rightarrow> nat \<Rightarrow> u32" where
  "read_le m a 0 = 0"
| "read_le m a (Suc n) = ucast (the (m a)) OR push_bit 8 (read_le m (Suc a) n)"

fun write_le :: "byte_map \<Rightarrow> nat \<Rightarrow> nat \<Rightarrow> u32 \<Rightarrow> byte_map" where
  "write_le m a 0 v = m"
| "write_le m a (Suc n) v = (write_le m (Suc a) n (drop_bit 8 v))(a \<mapsto> ucast v)"

text \<open>An access of \<open>n\<close> bytes is \<open>None\<close> where one of them is not backed.\<close>

definition load_le :: "byte_map \<Rightarrow> u32 \<Rightarrow> nat \<Rightarrow> u32 option" where
  "load_le m a n = (if mapped m (unat a) n then Some (read_le m (unat a) n) else None)"

definition store_le :: "byte_map \<Rightarrow> u32 \<Rightarrow> nat \<Rightarrow> u32 \<Rightarrow> byte_map option" where
  "store_le m a n v = (if mapped m (unat a) n then Some (write_le m (unat a) n v) else None)"

lemma mapped_simps [simp]:
  "mapped m a 0"
  "mapped m a (Suc n) \<longleftrightarrow> m a \<noteq> None \<and> mapped m (Suc a) n"
proof -
  show "mapped m a 0" by (simp add: mapped_def)
  show "mapped m a (Suc n) \<longleftrightarrow> m a \<noteq> None \<and> mapped m (Suc a) n"
  proof
    assume L: "mapped m a (Suc n)"
    have "m a \<noteq> None" using L [unfolded mapped_def, rule_format, of 0] by simp
    moreover have "m (Suc a + i) \<noteq> None" if "i < n" for i
      using L [unfolded mapped_def, rule_format, of "Suc i"] that by simp
    ultimately show "m a \<noteq> None \<and> mapped m (Suc a) n" by (simp add: mapped_def)
  next
    assume R: "m a \<noteq> None \<and> mapped m (Suc a) n"
    have "m (a + i) \<noteq> None" if "i < Suc n" for i
      using R that by (cases i) (simp_all add: mapped_def)
    then show "mapped m a (Suc n)" by (simp add: mapped_def)
  qed
qed

lemma mapped_numerals [simp]:
  "mapped m a 1 \<longleftrightarrow> m a \<noteq> None"
  "mapped m a 2 \<longleftrightarrow> m a \<noteq> None \<and> m (Suc a) \<noteq> None"
  "mapped m a 4 \<longleftrightarrow> m a \<noteq> None \<and> m (Suc a) \<noteq> None \<and> m (a + 2) \<noteq> None \<and> m (a + 3) \<noteq> None"
  by (simp_all add: eval_nat_numeral)

lemma write_le_other: "b < a \<or> a + n \<le> b \<Longrightarrow> write_le m a n v b = m b"
  by (induction m a n v rule: write_le.induct) auto

lemma write_le_dom: "mapped m a n \<Longrightarrow> dom (write_le m a n v) = dom m"
  by (induction m a n v rule: write_le.induct) auto

lemma read_le_cong: "(\<And>b. a \<le> b \<Longrightarrow> b < a + n \<Longrightarrow> m b = m' b) \<Longrightarrow> read_le m a n = read_le m' a n"
  by (induction m a n rule: read_le.induct) simp_all

text \<open>What is written is read back, cut to the width of the access.\<close>

lemma ucast_low_byte: "ucast (ucast (v :: u32) :: u8) = take_bit 8 v"
  by (rule u32_eqI) (auto simp: bit_simps)

lemma read_write_le: "read_le (write_le m a n v) a n = take_bit (8 * n) v"
proof (induction m a n v rule: write_le.induct)
  case (1 m a v)
  then show ?case by simp
next
  case (2 m a n v)
  have "read_le ((write_le m (Suc a) n (drop_bit 8 v))(a \<mapsto> ucast v)) (Suc a) n
      = take_bit (8 * n) (drop_bit 8 v)"
    using read_le_cong [of "Suc a" n "(write_le m (Suc a) n (drop_bit 8 v))(a \<mapsto> ucast v)"
        "write_le m (Suc a) n (drop_bit 8 v)"] "2.IH" by simp
  then have "read_le (write_le m a (Suc n) v) a (Suc n)
      = take_bit 8 v OR push_bit 8 (take_bit (8 * n) (drop_bit 8 v))"
    by (simp add: ucast_low_byte)
  also have "\<dots> = take_bit (8 * Suc n) v"
    by (rule u32_eqI) (auto simp: bit_simps)
  finally show ?case .
qed

lemma load_store_le:
  assumes "store_le m a n v = Some m'"
  shows "load_le m' a n = Some (take_bit (8 * n) v)"
proof -
  from assms have m: "mapped m (unat a) n" and m': "m' = write_le m (unat a) n v"
    by (auto simp: store_le_def split: if_splits)
  then have "dom m' = dom m" by (simp add: write_le_dom)
  then have "mapped m' (unat a) n" using m unfolding mapped_def domIff [symmetric] by simp
  then show ?thesis by (simp add: load_le_def m' read_write_le)
qed

lemma load_store_le_disjoint:
  assumes "store_le m a n v = Some m'"
    and "unat b + k \<le> unat a \<or> unat a + n \<le> unat b"
  shows "load_le m' b k = load_le m b k"
proof -
  from assms(1) have m': "m' = write_le m (unat a) n v"
    by (auto simp: store_le_def split: if_splits)
  have eq: "m' c = m c" if "unat b \<le> c" "c < unat b + k" for c
    unfolding m' using assms(2) that by (intro write_le_other) linarith
  then have "mapped m' (unat b) k = mapped m (unat b) k"
    by (simp add: mapped_def)
  moreover have "read_le m' (unat b) k = read_le m (unat b) k"
    using eq by (rule read_le_cong)
  ultimately show ?thesis by (simp add: load_le_def)
qed

lemma store_le_dom: "store_le m a n v = Some m' \<Longrightarrow> dom m' = dom m"
  unfolding store_le_def using write_le_dom by (metis option.distinct(1) option.inject)

section \<open>The interface\<close>

text \<open>
  A load or store either faults, exactly when the byte map does not back the access, or
  has the byte map's result. \<open>bytes\<close> is the data a component's loads see.
\<close>

definition res_option :: "'a res \<Rightarrow> 'a option" where
  "res_option r = (case r of Inl _ \<Rightarrow> None | Inr x \<Rightarrow> Some x)"

lemma res_option_simps [simp]: "res_option (Inl e) = None" "res_option (Inr x) = Some x"
  by (simp_all add: res_option_def)

lemma res_option_Some: "res_option r = Some x \<longleftrightarrow> r = Inr x"
  by (cases r) simp_all

lemma res_option_None: "res_option r = None \<longleftrightarrow> \<not> is_ok r"
  by (cases r) simp_all

text \<open>The default timing path, for a memory that does not override it: every request is served at once.\<close>

definition default_ready :: "u32 \<Rightarrow> bool \<Rightarrow> 'm \<Rightarrow> bool \<times> 'm" where
  "default_ready addr is_write m = (True, m)"

definition default_tick :: "'m \<Rightarrow> 'm" where
  "default_tick m = m"

locale imemory =
  fixes load_word :: "'m \<Rightarrow> u32 \<Rightarrow> u32 res"
    and load_half :: "'m \<Rightarrow> u32 \<Rightarrow> u16 res"
    and load_byte :: "'m \<Rightarrow> u32 \<Rightarrow> u8 res"
    and store_word :: "'m \<Rightarrow> u32 \<Rightarrow> u32 \<Rightarrow> 'm res"
    and store_half :: "'m \<Rightarrow> u32 \<Rightarrow> u16 \<Rightarrow> 'm res"
    and store_byte :: "'m \<Rightarrow> u32 \<Rightarrow> u8 \<Rightarrow> 'm res"
    and ready :: "u32 \<Rightarrow> bool \<Rightarrow> 'm \<Rightarrow> bool \<times> 'm"
    and tick :: "'m \<Rightarrow> 'm"
    and bytes :: "'m \<Rightarrow> byte_map"
  assumes load_word: "res_option (load_word m a) = load_le (bytes m) a 4"
    and load_half: "res_option (load_half m a) = map_option ucast (load_le (bytes m) a 2)"
    and load_byte: "res_option (load_byte m a) = map_option ucast (load_le (bytes m) a 1)"
    and store_word: "map_option bytes (res_option (store_word m a v)) = store_le (bytes m) a 4 v"
    and store_half:
      "map_option bytes (res_option (store_half m a h)) = store_le (bytes m) a 2 (ucast h)"
    and store_byte:
      "map_option bytes (res_option (store_byte m a b)) = store_le (bytes m) a 1 (ucast b)"
    and ready_bytes: "bytes (snd (ready a w m)) = bytes m"
    and tick_bytes: "bytes (tick m) = bytes m"
begin

lemma load_word_Inr: "load_word m a = Inr v \<longleftrightarrow> load_le (bytes m) a 4 = Some v"
  using load_word [of m a] by (simp flip: res_option_Some)

lemma store_word_load:
  assumes "store_word m a v = Inr m'"
  shows "load_word m' a = Inr v"
proof -
  have "store_le (bytes m) a 4 v = Some (bytes m')"
    using store_word [of m a v] assms by simp
  from load_store_le [OF this] show ?thesis
    by (simp add: load_word_Inr take_bit_word_eq_self)
qed

lemma store_word_other:
  assumes "store_word m a v = Inr m'" and "unat b + 4 \<le> unat a \<or> unat a + 4 \<le> unat b"
  shows "load_word m' b = Inr w \<longleftrightarrow> load_word m b = Inr w"
proof -
  have "store_le (bytes m) a 4 v = Some (bytes m')"
    using store_word [of m a v] assms by simp
  from load_store_le_disjoint [OF this, of b 4] assms(2) show ?thesis
    by (simp add: load_word_Inr)
qed

text \<open>Timing never changes a loaded value: any number of queries and ticks in between.\<close>

fun time_steps :: "(u32 \<times> bool) option list \<Rightarrow> 'm \<Rightarrow> 'm" where
  "time_steps [] m = m"
| "time_steps (None # qs) m = time_steps qs (tick m)"
| "time_steps (Some (a, w) # qs) m = time_steps qs (snd (ready a w m))"

lemma time_steps_bytes: "bytes (time_steps qs m) = bytes m"
  by (induction qs m rule: time_steps.induct) (simp_all add: ready_bytes tick_bytes)

lemma time_steps_load_word:
  "res_option (load_word (time_steps qs m) a) = res_option (load_word m a)"
  by (simp add: load_word time_steps_bytes)

end

section \<open>The client's wait loop\<close>

text \<open>
  What every client of the timing path does: ask \<open>ready\<close> once per cycle, tick while the
  answer is no. The result is the number of cycles waited and the state in which the answer
  is yes; the cycle of that answer is not ticked yet.
\<close>

primrec wait_ready ::
    "(u32 \<Rightarrow> bool \<Rightarrow> 'm \<Rightarrow> bool \<times> 'm) \<Rightarrow> ('m \<Rightarrow> 'm) \<Rightarrow> u32 \<Rightarrow> bool \<Rightarrow> nat \<Rightarrow> 'm \<Rightarrow> (nat \<times> 'm) option"
where
  "wait_ready ready tick a w 0 m = None"
| "wait_ready ready tick a w (Suc fuel) m =
     (case ready a w m of
        (True, m') \<Rightarrow> Some (0, m')
      | (False, m') \<Rightarrow>
          (case wait_ready ready tick a w fuel (tick m') of
             None \<Rightarrow> None
           | Some (n, m'') \<Rightarrow> Some (Suc n, m'')))"

text \<open>\<open>served a w n m m'\<close>: the answer comes after exactly \<open>n\<close> cycles of waiting, in state \<open>m'\<close>.\<close>

definition served ::
    "(u32 \<Rightarrow> bool \<Rightarrow> 'm \<Rightarrow> bool \<times> 'm) \<Rightarrow> ('m \<Rightarrow> 'm) \<Rightarrow> u32 \<Rightarrow> bool \<Rightarrow> nat \<Rightarrow> 'm \<Rightarrow> 'm \<Rightarrow> bool"
where
  "served ready tick a w n m m' \<longleftrightarrow> wait_ready ready tick a w (Suc n) m = Some (n, m')"

lemma served_0: "served ready tick a w 0 m m' \<longleftrightarrow> ready a w m = (True, m')"
  by (auto simp: served_def split: prod.splits bool.splits option.splits)

lemma served_Suc:
  "served ready tick a w (Suc n) m m' \<longleftrightarrow>
     (\<exists>m1. ready a w m = (False, m1) \<and> served ready tick a w n (tick m1) m')"
  unfolding served_def wait_ready.simps(2) [of _ _ _ _ "Suc n"]
  by (cases "ready a w m") (auto split: bool.splits option.splits)

lemma default_served: "served default_ready default_tick a w 0 m m"
  by (simp add: served_0 default_ready_def)

lemma served_ready:
  assumes "served ready tick a w n m m'" and "\<And>m m1. ready a w m = (True, m1) \<Longrightarrow> ready a w m1 = (True, m1)"
  shows "ready a w m' = (True, m')"
  using assms(1) by (induction n arbitrary: m) (auto simp: served_0 served_Suc assms(2))

text \<open>The number of cycles and the final state are unique.\<close>

lemma served_unique:
  "served ready tick a w n m m1 \<Longrightarrow> served ready tick a w k m m2 \<Longrightarrow> n = k \<and> m1 = m2"
proof (induction n arbitrary: m k)
  case 0
  then show ?case by (cases k) (auto simp: served_0 served_Suc)
next
  case (Suc n)
  then show ?case by (cases k) (auto simp: served_0 served_Suc)
qed

end
