(* ===== verification/Flat_Mem.thy ===== *)
theory Flat_Mem
  imports Mem_Interface
begin

unbundle bit_operations_syntax

text \<open>
  \<open>FlatMem\<close> (\<open>include/cpusim/memory/flat_mem.h\<close>, \<open>src/memory/flat_mem.cpp\<close>): a byte vector at
  a base address, with a latency. The check of an address is on its first byte only, so an
  access whose later bytes lie past the vector is an \<open>Out_of_bounds\<close> fault here (undefined
  behaviour in the code, not a failed \<open>assert\<close>).
\<close>

record flat_mem =
  fm_base :: u32
  fm_mem :: "u8 list"
  fm_latency :: u32
  fm_serving :: bool
  fm_remaining :: int

definition flat_init :: "u32 \<Rightarrow> nat \<Rightarrow> u32 \<Rightarrow> flat_mem" where
  "flat_init base size_bytes latency =
     \<lparr>fm_base = base, fm_mem = replicate size_bytes 0,
      fm_latency = (if latency \<noteq> 0 then latency else 1),
      fm_serving = False, fm_remaining = 0\<rparr>"

definition flat_offset :: "flat_mem \<Rightarrow> u32 \<Rightarrow> nat res" where
  "flat_offset m addr =
     (if addr \<ge> fm_base m \<and> unat (addr - fm_base m) < length (fm_mem m)
      then Inr (unat (addr - fm_base m)) else Inl Assert_failed)"

text \<open>\<open>mem_[i]\<close> as a value and as the target of an assignment.\<close>

definition vec_get :: "'a list \<Rightarrow> nat \<Rightarrow> 'a res" where
  "vec_get xs i = (if i < length xs then Inr (xs ! i) else Inl Out_of_bounds)"

definition vec_set :: "'a list \<Rightarrow> nat \<Rightarrow> 'a \<Rightarrow> 'a list res" where
  "vec_set xs i x = (if i < length xs then Inr (xs[i := x]) else Inl Out_of_bounds)"

definition flat_load_byte :: "flat_mem \<Rightarrow> u32 \<Rightarrow> u8 res" where
  "flat_load_byte m addr = res_bind (flat_offset m addr) (\<lambda>o'. vec_get (fm_mem m) o')"

definition flat_load_half :: "flat_mem \<Rightarrow> u32 \<Rightarrow> u16 res" where
  "flat_load_half m addr =
     res_bind (flat_offset m addr) (\<lambda>o'.
     res_bind (vec_get (fm_mem m) o') (\<lambda>b0.
     res_bind (vec_get (fm_mem m) (o' + 1)) (\<lambda>b1.
       Inr (ucast b0 OR push_bit 8 (ucast b1)))))"

definition flat_load_word :: "flat_mem \<Rightarrow> u32 \<Rightarrow> u32 res" where
  "flat_load_word m addr =
     res_bind (flat_offset m addr) (\<lambda>o'.
     res_bind (vec_get (fm_mem m) o') (\<lambda>b0.
     res_bind (vec_get (fm_mem m) (o' + 1)) (\<lambda>b1.
     res_bind (vec_get (fm_mem m) (o' + 2)) (\<lambda>b2.
     res_bind (vec_get (fm_mem m) (o' + 3)) (\<lambda>b3.
       Inr (ucast b0 OR push_bit 8 (ucast b1) OR push_bit 16 (ucast b2)
              OR push_bit 24 (ucast b3)))))))"

definition flat_store_byte :: "flat_mem \<Rightarrow> u32 \<Rightarrow> u8 \<Rightarrow> flat_mem res" where
  "flat_store_byte m addr val =
     res_bind (flat_offset m addr) (\<lambda>o'.
     res_bind (vec_set (fm_mem m) o' val) (\<lambda>xs. Inr (m\<lparr>fm_mem := xs\<rparr>)))"

definition flat_store_half :: "flat_mem \<Rightarrow> u32 \<Rightarrow> u16 \<Rightarrow> flat_mem res" where
  "flat_store_half m addr val =
     res_bind (flat_offset m addr) (\<lambda>o'.
     res_bind (vec_set (fm_mem m) o' (ucast (val AND 0xff))) (\<lambda>xs0.
     res_bind (vec_set xs0 (o' + 1) (ucast (drop_bit 8 val AND 0xff))) (\<lambda>xs1.
       Inr (m\<lparr>fm_mem := xs1\<rparr>))))"

definition flat_store_word :: "flat_mem \<Rightarrow> u32 \<Rightarrow> u32 \<Rightarrow> flat_mem res" where
  "flat_store_word m addr val =
     res_bind (flat_offset m addr) (\<lambda>o'.
     res_bind (vec_set (fm_mem m) o' (ucast (val AND 0xff))) (\<lambda>xs0.
     res_bind (vec_set xs0 (o' + 1) (ucast (drop_bit 8 val AND 0xff))) (\<lambda>xs1.
     res_bind (vec_set xs1 (o' + 2) (ucast (drop_bit 16 val AND 0xff))) (\<lambda>xs2.
     res_bind (vec_set xs2 (o' + 3) (ucast (drop_bit 24 val AND 0xff))) (\<lambda>xs3.
       Inr (m\<lparr>fm_mem := xs3\<rparr>))))))"

text \<open>
  \<open>static_cast<int>(latency_) - 1\<close>: the cast of an \<open>unsigned\<close> of 2^31 or more is negative.
\<close>

definition flat_ready :: "u32 \<Rightarrow> bool \<Rightarrow> flat_mem \<Rightarrow> bool \<times> flat_mem" where
  "flat_ready addr is_write m =
     (let m' = (if \<not> fm_serving m
                then m\<lparr>fm_serving := True, fm_remaining := sint (fm_latency m) - 1\<rparr> else m)
      in (fm_remaining m' = 0, m'))"

definition flat_tick :: "flat_mem \<Rightarrow> flat_mem" where
  "flat_tick m =
     (if \<not> fm_serving m then m
      else if fm_remaining m > 0 then m\<lparr>fm_remaining := fm_remaining m - 1\<rparr>
      else m\<lparr>fm_serving := False\<rparr>)"

definition flat_write_bytes :: "u32 \<Rightarrow> u8 list \<Rightarrow> flat_mem \<Rightarrow> flat_mem res" where
  "flat_write_bytes addr data m =
     res_bind (flat_offset m addr) (\<lambda>o'.
       if o' + length data \<le> length (fm_mem m)
       then Inr (m\<lparr>fm_mem := take o' (fm_mem m) @ data @ drop (o' + length data) (fm_mem m)\<rparr>)
       else Inl Assert_failed)"

definition flat_base :: "flat_mem \<Rightarrow> u32" where
  "flat_base m = fm_base m"

definition flat_size :: "flat_mem \<Rightarrow> nat" where
  "flat_size m = length (fm_mem m)"

section \<open>The bytes it holds\<close>

definition flat_bytes :: "flat_mem \<Rightarrow> byte_map" where
  "flat_bytes m a =
     (if unat (fm_base m) \<le> a \<and> a - unat (fm_base m) < length (fm_mem m)
      then Some (fm_mem m ! (a - unat (fm_base m))) else None)"

text \<open>An address that passes the check has an offset that does not depend on word arithmetic.\<close>

lemma flat_offset_Inr:
  "flat_offset m a = Inr k \<longleftrightarrow>
     unat a = unat (fm_base m) + k \<and> k < length (fm_mem m)"
proof -
  have "unat (a - fm_base m) = unat a - unat (fm_base m)" if "fm_base m \<le> a"
    using that by (rule unat_sub)
  then show ?thesis
    by (auto simp: flat_offset_def word_le_nat_alt)
qed

lemma flat_offset_cases:
  obtains k where "flat_offset m a = Inr k" "unat a = unat (fm_base m) + k" "k < length (fm_mem m)"
  | "flat_offset m a = Inl Assert_failed" "flat_bytes m (unat a) = None"
proof (cases "flat_offset m a")
  case (Inr k)
  then show ?thesis using that(1) [of k] flat_offset_Inr [of m a k] by simp
next
  case (Inl e)
  then have e: "flat_offset m a = Inl Assert_failed"
    by (auto simp: flat_offset_def split: if_splits)
  have "flat_bytes m (unat a) = None"
  proof (rule ccontr)
    assume "flat_bytes m (unat a) \<noteq> None"
    then have "flat_offset m a = Inr (unat a - unat (fm_base m))"
      by (subst flat_offset_Inr) (auto simp: flat_bytes_def split: if_splits)
    with e show False by simp
  qed
  with e that(2) show ?thesis by simp
qed

lemma flat_bytes_offset:
  "flat_bytes m (unat (fm_base m) + k) = (if k < length (fm_mem m) then Some (fm_mem m ! k) else None)"
  by (simp add: flat_bytes_def)

lemma flat_bytes_store:
  assumes "k < length (fm_mem m)"
  shows "flat_bytes (m\<lparr>fm_mem := (fm_mem m)[k := b]\<rparr>) = (flat_bytes m)(unat (fm_base m) + k \<mapsto> b)"
  using assms by (auto simp: flat_bytes_def fun_eq_iff nth_list_update)

lemma flat_bytes_frame [simp]:
  "flat_bytes (m\<lparr>fm_serving := s\<rparr>) = flat_bytes m"
  "flat_bytes (m\<lparr>fm_remaining := r\<rparr>) = flat_bytes m"
  by (simp_all add: flat_bytes_def fun_eq_iff)

lemma flat_bytes_offset_Suc:
  "flat_bytes m (Suc (unat (fm_base m) + k)) =
     (if k + 1 < length (fm_mem m) then Some (fm_mem m ! (k + 1)) else None)"
  "flat_bytes m (Suc (Suc (unat (fm_base m) + k))) =
     (if k + 2 < length (fm_mem m) then Some (fm_mem m ! (k + 2)) else None)"
  "flat_bytes m (unat (fm_base m) + k + 3) =
     (if k + 3 < length (fm_mem m) then Some (fm_mem m ! (k + 3)) else None)"
  using flat_bytes_offset [of m "k + 1"] flat_bytes_offset [of m "k + 2"]
    flat_bytes_offset [of m "k + 3"] by (simp_all add: add.assoc)

lemma read_le_numerals:
  "read_le m a 1 = ucast (the (m a))"
  "read_le m a 2 = ucast (the (m a)) OR push_bit 8 (ucast (the (m (Suc a))))"
  "read_le m a 4 = ucast (the (m a)) OR push_bit 8 (ucast (the (m (Suc a))))
     OR push_bit 16 (ucast (the (m (a + 2)))) OR push_bit 24 (ucast (the (m (a + 3))))"
  by (simp_all add: eval_nat_numeral push_bit_or or.assoc)

lemma write_le_numerals:
  "write_le m a 1 v = m(a \<mapsto> ucast v)"
  "write_le m a 2 v = m(Suc a \<mapsto> ucast (drop_bit 8 v), a \<mapsto> ucast v)"
  "write_le m a 4 v = m(a + 3 \<mapsto> ucast (drop_bit 24 v), a + 2 \<mapsto> ucast (drop_bit 16 v),
     Suc a \<mapsto> ucast (drop_bit 8 v), a \<mapsto> ucast v)"
  by (simp_all add: eval_nat_numeral)

lemmas flat_access_defs =
  flat_load_byte_def flat_load_half_def flat_load_word_def
  flat_store_byte_def flat_store_half_def flat_store_word_def vec_get_def vec_set_def

lemmas le_access =
  load_le_def store_le_def read_le_numerals write_le_numerals
  flat_bytes_offset flat_bytes_offset_Suc

lemma flat_load_word_le: "res_option (flat_load_word m a) = load_le (flat_bytes m) a 4"
  by (rule flat_offset_cases [of m a]) (simp_all add: flat_access_defs le_access)

lemma flat_load_half_le:
  "res_option (flat_load_half m a) = map_option ucast (load_le (flat_bytes m) a 2)"
  by (rule flat_offset_cases [of m a])
    (auto simp: flat_access_defs le_access intro!: bit_word_eqI simp: bit_simps)

lemma flat_load_byte_le:
  "res_option (flat_load_byte m a) = map_option ucast (load_le (flat_bytes m) a 1)"
  by (rule flat_offset_cases [of m a])
    (auto simp: flat_access_defs le_access intro!: bit_word_eqI simp: bit_simps)

lemma mask_8_16: "(0xff :: u16) = mask 8"
  by (simp add: mask_eq_exp_minus_1)

lemma ucast_low_bytes:
  "ucast ((v :: u32) AND 0xff) = (ucast v :: u8)"
  "ucast ((h :: u16) AND 0xff) = (ucast h :: u8)"
  unfolding numeral_mask_32(7) mask_8_16
  by (rule bit_word_eqI; auto simp: bit_simps; fail)+

lemma ucast_half_bytes:
  "(ucast (ucast (h :: u16) :: u32) :: u8) = ucast h"
  "(ucast (drop_bit 8 (ucast (h :: u16) :: u32)) :: u8) = ucast (drop_bit 8 h)"
  by (rule bit_word_eqI; auto simp: bit_simps; fail)+

lemma ucast_byte_byte: "(ucast (ucast (b :: u8) :: u32) :: u8) = b"
  by (rule bit_word_eqI; auto simp: bit_simps; fail)

lemma flat_bytes_stores:
  "flat_bytes (m\<lparr>fm_mem := xs\<rparr>) =
     (\<lambda>a. if unat (fm_base m) \<le> a \<and> a - unat (fm_base m) < length xs
           then Some (xs ! (a - unat (fm_base m))) else None)"
  by (simp add: flat_bytes_def fun_eq_iff)

lemma flat_bytes_set:
  assumes "k < length xs"
  shows "flat_bytes (m\<lparr>fm_mem := xs[k := b]\<rparr>) =
    (flat_bytes (m\<lparr>fm_mem := xs\<rparr>))(unat (fm_base m) + k \<mapsto> b)"
  using flat_bytes_store [of k "m\<lparr>fm_mem := xs\<rparr>" b] assms by simp

lemma flat_store_word_le:
  "map_option flat_bytes (res_option (flat_store_word m a v)) = store_le (flat_bytes m) a 4 v"
proof (rule flat_offset_cases [of m a])
  fix k assume k: "flat_offset m a = Inr k" "unat a = unat (fm_base m) + k" "k < length (fm_mem m)"
  show ?thesis
  proof (cases "k + 3 < length (fm_mem m)")
    case True
    then show ?thesis using k
      by (simp add: flat_access_defs le_access ucast_low_bytes flat_bytes_set)
        (auto simp: fun_eq_iff)
  next
    case False
    then show ?thesis using k by (auto simp: flat_access_defs le_access)
  qed
qed (simp_all add: flat_access_defs le_access)

lemma flat_store_half_le:
  "map_option flat_bytes (res_option (flat_store_half m a h)) =
     store_le (flat_bytes m) a 2 (ucast h)"
proof (rule flat_offset_cases [of m a])
  fix k assume k: "flat_offset m a = Inr k" "unat a = unat (fm_base m) + k" "k < length (fm_mem m)"
  show ?thesis
  proof (cases "k + 1 < length (fm_mem m)")
    case True
    then show ?thesis using k
      by (simp add: flat_access_defs le_access ucast_low_bytes ucast_half_bytes flat_bytes_set)
        (auto simp: fun_eq_iff)
  next
    case False
    then show ?thesis using k by (auto simp: flat_access_defs le_access)
  qed
qed (simp_all add: flat_access_defs le_access)

lemma flat_store_byte_le:
  "map_option flat_bytes (res_option (flat_store_byte m a b)) =
     store_le (flat_bytes m) a 1 (ucast b)"
  by (rule flat_offset_cases [of m a])
    (simp_all add: flat_access_defs le_access flat_bytes_store ucast_byte_byte)

lemma flat_ready_bytes: "flat_bytes (snd (flat_ready a w m)) = flat_bytes m"
  by (simp add: flat_ready_def Let_def flat_bytes_def)

lemma flat_tick_bytes: "flat_bytes (flat_tick m) = flat_bytes m"
  by (simp add: flat_tick_def flat_bytes_def)

interpretation flat: imemory flat_load_word flat_load_half flat_load_byte
  flat_store_word flat_store_half flat_store_byte flat_ready flat_tick flat_bytes
  by unfold_locales
    (simp_all add: flat_load_word_le flat_load_half_le flat_load_byte_le flat_store_word_le
      flat_store_half_le flat_store_byte_le flat_ready_bytes flat_tick_bytes)

text \<open>The same RAM behind the default timing path also keeps the contract of the interface.\<close>

interpretation single_cycle: imemory flat_load_word flat_load_half flat_load_byte
  flat_store_word flat_store_half flat_store_byte default_ready default_tick flat_bytes
  by unfold_locales
    (simp_all add: flat_load_word_le flat_load_half_le flat_load_byte_le flat_store_word_le
      flat_store_half_le flat_store_byte_le default_ready_def default_tick_def)

section \<open>What the data path promises\<close>

text \<open>
  A word stored by \<open>FlatMem::store_word\<close> is read back by \<open>load_word\<close> at the same
  address, its low byte by \<open>load_byte\<close> and its low half by \<open>load_half\<close> (little-endian), and a
  word that does not overlap it is read as before.
\<close>

theorem flat_store_load:
  assumes "flat_store_word m a v = Inr m'"
  shows "flat_load_word m' a = Inr v \<and> flat_load_half m' a = Inr (ucast v) \<and>
    flat_load_byte m' a = Inr (ucast v) \<and>
    (\<forall>b. unat b + 4 \<le> unat a \<or> unat a + 4 \<le> unat b \<longrightarrow>
      res_option (flat_load_word m' b) = res_option (flat_load_word m b))"
proof -
  have st: "store_le (flat_bytes m) a 4 v = Some (flat_bytes m')"
    using flat.store_word [of m a v] assms by simp
  then have l4: "load_le (flat_bytes m') a 4 = Some v"
    using load_store_le [OF st] by (simp add: take_bit_word_eq_self)
  then have b: "mapped (flat_bytes m') (unat a) 4" "read_le (flat_bytes m') (unat a) 4 = v"
    by (simp_all add: load_le_def split: if_splits)
  have "ucast v = (ucast (read_le (flat_bytes m') (unat a) 2) :: u16)"
    and "ucast v = (ucast (read_le (flat_bytes m') (unat a) 1) :: u8)"
    unfolding b(2) [symmetric] read_le_numerals
    by (rule bit_word_eqI; auto simp: bit_simps)+
  with b(1) have "res_option (flat_load_half m' a) = Some (ucast v)"
    and "res_option (flat_load_byte m' a) = Some (ucast v)"
    by (simp_all add: flat.load_half flat.load_byte load_le_def)
  moreover have "res_option (flat_load_word m' c) = res_option (flat_load_word m c)"
    if "unat c + 4 \<le> unat a \<or> unat a + 4 \<le> unat c" for c
    using load_store_le_disjoint [OF st, of c 4] that by (simp add: flat.load_word)
  ultimately show ?thesis
    using flat.store_word_load [OF assms] by (simp add: res_option_Some)
qed

theorem flat_store_load_witness:
  "\<exists>m'. flat_store_word (flat_init 0x80000000 8 1) 0x80000004 0x11223344 = Inr m' \<and>
     flat_load_byte m' 0x80000004 = Inr 0x44"
proof -
  obtain m' where s: "flat_store_word (flat_init 0x80000000 8 1) 0x80000004 0x11223344 = Inr m'"
    by (simp add: flat_store_word_def flat_offset_def flat_init_def vec_set_def)
  from flat_store_load [OF this] s show ?thesis by auto
qed

text \<open>
  C30: which accesses of \<open>FlatMem\<close> abort. A byte access aborts exactly when its address is out
  of range, always on the assertion. A word access at one of the last three bytes passes the
  assertion and then indexes the vector past its end.
\<close>

theorem flat_word_faults:
  "(flat_load_word m a = Inl Assert_failed \<longleftrightarrow> flat_bytes m (unat a) = None) \<and>
   (flat_load_word m a = Inl Out_of_bounds \<longleftrightarrow>
      flat_bytes m (unat a) \<noteq> None \<and> flat_bytes m (unat a + 3) = None) \<and>
   (is_ok (flat_load_word m a) \<longleftrightarrow> flat_bytes m (unat a + 3) \<noteq> None \<and> flat_bytes m (unat a) \<noteq> None) \<and>
   (is_ok (flat_store_word m a v) \<longleftrightarrow> is_ok (flat_load_word m a)) \<and>
   flat_load_byte m a \<noteq> Inl Out_of_bounds"
proof (rule flat_offset_cases [of m a])
  fix k assume k: "flat_offset m a = Inr k" "unat a = unat (fm_base m) + k" "k < length (fm_mem m)"
  have "flat_bytes m (unat a + 3) \<noteq> None \<longleftrightarrow> k + 3 < length (fm_mem m)"
    using flat_bytes_offset_Suc(3) [of m k] k(2) by simp
  then show ?thesis
    using k by (cases "k + 3 < length (fm_mem m)")
      (auto simp: flat_access_defs flat_bytes_offset)
next
  assume k: "flat_offset m a = Inl Assert_failed" "flat_bytes m (unat a) = None"
  then show ?thesis by (simp add: flat_access_defs)
qed

section \<open>Timing\<close>

lemma flat_wait_count:
  assumes "fm_serving m" and "fm_remaining m = int n"
  shows "served flat_ready flat_tick a w n m (m\<lparr>fm_remaining := 0\<rparr>)"
  using assms
proof (induction n arbitrary: m)
  case 0
  then show ?case by (simp add: served_0 flat_ready_def)
next
  case (Suc n)
  have r: "flat_ready a w m = (False, m)" using Suc.prems by (simp add: flat_ready_def)
  have t: "flat_tick m = m\<lparr>fm_remaining := int n\<rparr>" using Suc.prems by (simp add: flat_tick_def)
  have "served flat_ready flat_tick a w n (flat_tick m) (m\<lparr>fm_remaining := 0\<rparr>)"
    using Suc.IH [of "flat_tick m"] Suc.prems(1) by (simp add: t)
  with r show ?case by (auto simp: served_Suc)
qed

lemma flat_served_idle:
  assumes "\<not> fm_serving m" and "sint (fm_latency m) = int (Suc n)"
  shows "served flat_ready flat_tick a w n m (m\<lparr>fm_serving := True, fm_remaining := 0\<rparr>)"
proof -
  define s where "s = m\<lparr>fm_serving := True, fm_remaining := int n\<rparr>"
  have start: "flat_ready a w m = flat_ready a w s"
    using assms by (simp add: flat_ready_def s_def)
  have "served flat_ready flat_tick a w n s (s\<lparr>fm_remaining := 0\<rparr>)"
    by (rule flat_wait_count) (simp_all add: s_def)
  then have "served flat_ready flat_tick a w n m (s\<lparr>fm_remaining := 0\<rparr>)"
    by (cases n) (simp_all add: served_0 served_Suc start)
  then show ?thesis by (simp add: s_def)
qed

text \<open>
  An idle \<open>FlatMem\<close> of latency \<open>L\<close> (below 2^31) serves any request in exactly \<open>L\<close> cycles:
  \<open>L - 1\<close> cycles of waiting, whatever the address, and the cycle that answers yes; the tick
  of that cycle releases it, so that the next request starts afresh.
\<close>

theorem flat_serves_in_latency:
  assumes "\<not> fm_serving m" and "0 < sint (fm_latency m)"
  shows "\<exists>m'. served flat_ready flat_tick a w (nat (sint (fm_latency m)) - 1) m m' \<and>
     \<not> fm_serving (flat_tick m') \<and>
     fm_mem (flat_tick m') = fm_mem m \<and> fm_latency (flat_tick m') = fm_latency m"
proof -
  define n where "n = nat (sint (fm_latency m)) - 1"
  have n: "sint (fm_latency m) = int (Suc n)" using assms(2) by (simp add: n_def)
  from flat_served_idle [OF assms(1) n, of a w] show ?thesis
    by (intro exI [of _ "m\<lparr>fm_serving := True, fm_remaining := 0\<rparr>"]) (simp add: n_def flat_tick_def)
qed

theorem flat_serves_in_latency_witness:
  "\<exists>m'. served flat_ready flat_tick 0 False 2 (flat_init 0 4 3) m'"
  using flat_serves_in_latency [of "flat_init 0 4 3" 0 False] by (auto simp: flat_init_def)

text \<open>
  A latency of 2^31 or more makes the countdown start below zero, so the request is never
  served: the client waits for ever.
\<close>

lemma flat_never_ready:
  assumes "sint (fm_latency m) \<le> 0" and "\<not> fm_serving m \<or> fm_remaining m < 0"
  shows "wait_ready flat_ready flat_tick a w fuel m = None"
  using assms
proof (induction fuel arbitrary: m)
  case (Suc fuel)
  obtain b m' where r: "flat_ready a w m = (b, m')" by (cases "flat_ready a w m")
  with Suc.prems have b: "\<not> b" and t: "sint (fm_latency (flat_tick m')) \<le> 0"
    "\<not> fm_serving (flat_tick m')"
    by (auto simp: flat_ready_def flat_tick_def Let_def split: if_splits)
  from Suc.IH [OF t(1)] t(2) r b show ?case by simp
qed simp

end
