(* ===== verification/Memsys.thy ===== *)
theory Memsys
  imports Cache Flat_Mem
begin

unbundle bit_operations_syntax

text \<open>
  The memory hierarchy: a \<open>FlatMem\<close>, or a \<open>Cache\<close> over a memory. This theory holds the rest of
  \<open>src/memory/cache.cpp\<close>: the data path, which delegates to the backing memory, and \<open>tick\<close> with
  \<open>service_prefetch\<close>, which drive it. The counters of \<open>SimStats\<close>, which a cache reaches through
  a pointer, are threaded through the timing operations.

  \<open>tick\<close> ends, on every path that drives the backing memory, in \<open>backing_.tick()\<close>;
  \<open>cache_drive\<close> is all of \<open>tick\<close> before that call and says whether the call follows.
\<close>

datatype memsys = Flat flat_mem | Cached cache memsys

type_synonym mem_state = "memsys \<times> sim_stats"

primrec depth :: "memsys \<Rightarrow> nat" where
  "depth (Flat f) = 0"
| "depth (Cached c b) = Suc (depth b)"

section \<open>The data path\<close>

primrec mem_load_word :: "memsys \<Rightarrow> u32 \<Rightarrow> u32 res" where
  "mem_load_word (Flat f) addr = flat_load_word f addr"
| "mem_load_word (Cached c b) addr = mem_load_word b addr"

primrec mem_load_half :: "memsys \<Rightarrow> u32 \<Rightarrow> u16 res" where
  "mem_load_half (Flat f) addr = flat_load_half f addr"
| "mem_load_half (Cached c b) addr = mem_load_half b addr"

primrec mem_load_byte :: "memsys \<Rightarrow> u32 \<Rightarrow> u8 res" where
  "mem_load_byte (Flat f) addr = flat_load_byte f addr"
| "mem_load_byte (Cached c b) addr = mem_load_byte b addr"

primrec mem_store_word :: "memsys \<Rightarrow> u32 \<Rightarrow> u32 \<Rightarrow> memsys res" where
  "mem_store_word (Flat f) addr val = map_sum id Flat (flat_store_word f addr val)"
| "mem_store_word (Cached c b) addr val = map_sum id (Cached c) (mem_store_word b addr val)"

primrec mem_store_half :: "memsys \<Rightarrow> u32 \<Rightarrow> u16 \<Rightarrow> memsys res" where
  "mem_store_half (Flat f) addr val = map_sum id Flat (flat_store_half f addr val)"
| "mem_store_half (Cached c b) addr val = map_sum id (Cached c) (mem_store_half b addr val)"

primrec mem_store_byte :: "memsys \<Rightarrow> u32 \<Rightarrow> u8 \<Rightarrow> memsys res" where
  "mem_store_byte (Flat f) addr val = map_sum id Flat (flat_store_byte f addr val)"
| "mem_store_byte (Cached c b) addr val = map_sum id (Cached c) (mem_store_byte b addr val)"

section \<open>The timing path\<close>

fun mem_ready :: "u32 \<Rightarrow> bool \<Rightarrow> mem_state \<Rightarrow> bool \<times> mem_state" where
  "mem_ready addr is_write (Flat f, st) =
     (let (r, f') = flat_ready addr is_write f in (r, Flat f', st))"
| "mem_ready addr is_write (Cached c b, st) =
     (let (r, c', st') = cache_ready addr is_write c st in (r, Cached c' b, st'))"

definition chain_prefetch :: "cache \<Rightarrow> cache" where
  "chain_prefetch c =
     (if c_pf_chain c < c_pf_degree c then
        case c_pf_policy c of
          None \<Rightarrow> c
        | Some pol \<Rightarrow>
            let target = seq_next pol (c_pf_addr c) in
            if find_way c target = None then
              let set' = index_of c target; way = choose_victim c set' in
              if \<not> dirty_victim c set' way
              then c\<lparr>c_pf_addr := target, c_pf_way := way, c_pf_active := True,
                     c_pf_chain := c_pf_chain c + 1\<rparr>
              else c
            else c
      else c)"

text \<open>The result's first component says that \<open>backing_.tick()\<close> follows.\<close>

definition service_prefetch :: "cache \<Rightarrow> mem_state \<Rightarrow> bool \<times> cache \<times> mem_state" where
  "service_prefetch c b =
     (if \<not> c_pf_active c then (False, c, b)
      else
        let (r, b', st) = mem_ready (c_pf_addr c) False b in
        if r then
          let (c1, st1) = install_line (index_of c (c_pf_addr c)) (c_pf_way c) (c_pf_addr c)
                            False True c st
          in (True, chain_prefetch (c1\<lparr>c_pf_active := False\<rparr>), b', st1)
        else (True, c, b', st))"

definition finish_miss :: "cache \<Rightarrow> sim_stats \<Rightarrow> cache \<times> sim_stats" where
  "finish_miss c st =
     (let (c1, st1) = install_line (index_of c (c_cur_addr c)) (c_victim_way c) (c_cur_addr c)
                        (c_cur_is_write c) False c st
      in (c1\<lparr>c_phase := Ph_HitWait, c_hit_remaining := sint (c_hit_latency c1) - 1\<rparr>, st1))"

definition cache_drive :: "cache \<Rightarrow> mem_state \<Rightarrow> bool \<times> cache \<times> mem_state" where
  "cache_drive c b =
     (case c_phase c of
        Ph_Idle \<Rightarrow> service_prefetch c b
      | Ph_HitWait \<Rightarrow>
          service_prefetch
            (if c_hit_remaining c > 0 then c\<lparr>c_hit_remaining := c_hit_remaining c - 1\<rparr>
             else c\<lparr>c_phase := Ph_Idle\<rparr>) b
      | Ph_WriteBack \<Rightarrow>
          let (r, b') = mem_ready (c_wb_addr c) True b
          in (True, if r then c\<lparr>c_phase := Ph_MissFetch\<rparr> else c, b')
      | Ph_MissFetch \<Rightarrow>
          let (r, b', st) = mem_ready (c_cur_addr c) False b in
          if r then let (c1, st1) = finish_miss c st in (True, c1, b', st1)
          else (True, c, b', st)
      | Ph_PrefetchWait \<Rightarrow>
          let (r, b', st) = mem_ready (c_cur_addr c) False b in
          if r then
            let (c1, st1) = finish_miss c st;
                st2 = (if c_stats_on c1 then count_useful st1 else st1)
            in (True, c1\<lparr>c_pf_active := False\<rparr>, b', st2)
          else (True, c, b', st))"

lemma mem_ready_depth [simp]: "depth (fst (snd (mem_ready a w b))) = depth (fst b)"
  by (induction a w b rule: mem_ready.induct) (simp_all add: case_prod_beta Let_def)

text \<open>What \<open>cache_drive\<close> does to the backing memory is at most one query.\<close>

lemma cache_drive_backing:
  assumes "cache_drive c b = (t, c', b', st')"
  obtains "b' = fst b" | a w where "b' = fst (snd (mem_ready a w b))"
proof -
  have "fst (snd (snd (cache_drive c b))) = fst b \<or>
      (\<exists>a w. fst (snd (snd (cache_drive c b))) = fst (snd (mem_ready a w b)))"
    by (auto simp: cache_drive_def service_prefetch_def case_prod_beta Let_def split: phase.split)
  with assms that show ?thesis by auto
qed

lemma cache_drive_depth: "cache_drive c b = (t, c', b', st') \<Longrightarrow> depth b' = depth (fst b)"
  by (elim cache_drive_backing) simp_all

function mem_tick :: "mem_state \<Rightarrow> mem_state" where
  "mem_tick (Flat f, st) = (Flat (flat_tick f), st)"
| "mem_tick (Cached c b, st) =
     (let (t, c', b', st') = cache_drive c (b, st) in
      if t then let (b'', st'') = mem_tick (b', st') in (Cached c' b'', st'')
      else (Cached c' b', st'))"
  by pat_completeness auto
termination
  by (relation "measure (\<lambda>(m, st). depth m)") (auto dest!: sym [THEN cache_drive_depth])

section \<open>The bytes it holds\<close>

primrec mem_bytes :: "memsys \<Rightarrow> byte_map" where
  "mem_bytes (Flat f) = flat_bytes f"
| "mem_bytes (Cached c b) = mem_bytes b"

lemma mem_ready_bytes [data_frame]: "mem_bytes (fst (snd (mem_ready a w b))) = mem_bytes (fst b)"
  by (induction a w b rule: mem_ready.induct)
    (simp_all add: case_prod_beta Let_def flat_ready_bytes)

lemma cache_drive_bytes:
  "cache_drive c b = (t, c', b', st') \<Longrightarrow> mem_bytes b' = mem_bytes (fst b)"
  by (elim cache_drive_backing) (simp_all add: mem_ready_bytes)

lemma mem_tick_bytes [data_frame]: "mem_bytes (fst (mem_tick b)) = mem_bytes (fst b)"
proof (induction b rule: mem_tick.induct)
  case (1 f st)
  then show ?case by (simp add: flat_tick_bytes)
next
  case (2 c b st)
  obtain t c' b' st' where d: "cache_drive c (b, st) = (t, c', b', st')" by (cases "cache_drive c (b, st)")
  from "2.IH" [of "(t, c', b', st')" t "(c', b', st')" c' "(b', st')" b' st'] cache_drive_bytes [OF d]
  show ?case by (simp add: d case_prod_beta)
qed

lemma res_option_map_sum: "res_option (map_sum id f r) = map_option f (res_option r)"
  by (cases r) simp_all

lemma mem_load_bytes:
  "res_option (mem_load_word m a) = load_le (mem_bytes m) a 4"
  "res_option (mem_load_half m a) = map_option ucast (load_le (mem_bytes m) a 2)"
  "res_option (mem_load_byte m a) = map_option ucast (load_le (mem_bytes m) a 1)"
  by (induction m; simp add: flat.load_word flat.load_half flat.load_byte; fail)+

lemma mem_store_bytes:
  "map_option mem_bytes (res_option (mem_store_word m a v)) = store_le (mem_bytes m) a 4 v"
  "map_option mem_bytes (res_option (mem_store_half m a h)) = store_le (mem_bytes m) a 2 (ucast h)"
  "map_option mem_bytes (res_option (mem_store_byte m a b)) = store_le (mem_bytes m) a 1 (ucast b)"
  by (induction m; simp add: res_option_map_sum option.map_comp comp_def
      flat.store_word flat.store_half flat.store_byte [unfolded One_nat_def]; fail)+

text \<open>The statistics ride along with the memory, so that the hierarchy is an \<open>imemory\<close>.\<close>

definition with_stats :: "sim_stats \<Rightarrow> memsys res \<Rightarrow> mem_state res" where
  "with_stats st r = map_sum id (\<lambda>m. (m, st)) r"

interpretation sys: imemory
  "\<lambda>b. mem_load_word (fst b)" "\<lambda>b. mem_load_half (fst b)" "\<lambda>b. mem_load_byte (fst b)"
  "\<lambda>b a v. with_stats (snd b) (mem_store_word (fst b) a v)"
  "\<lambda>b a v. with_stats (snd b) (mem_store_half (fst b) a v)"
  "\<lambda>b a v. with_stats (snd b) (mem_store_byte (fst b) a v)"
  mem_ready mem_tick "\<lambda>b. mem_bytes (fst b)"
  by unfold_locales
    (simp_all add: mem_load_bytes [unfolded One_nat_def] mem_ready_bytes mem_tick_bytes with_stats_def
      res_option_map_sum option.map_comp comp_def mem_store_bytes [unfolded One_nat_def])

section \<open>The invariant of the hierarchy\<close>

primrec mem_wf :: "memsys \<Rightarrow> bool" where
  "mem_wf (Flat f) = True"
| "mem_wf (Cached c b) = (cache_wf c \<and> mem_wf b)"

lemma mem_ready_wf: "mem_wf (fst b) \<Longrightarrow> mem_wf (fst (snd (mem_ready a w b)))"
  by (induction a w b rule: mem_ready.induct)
    (simp_all add: case_prod_beta Let_def cache_ready_wf)

text \<open>Clearing or setting the engine's registers.\<close>

lemma prefetch_off_wf:
  assumes "cache_geom c" and "tags_unique c"
    and "\<forall>p. c_pf_policy c = Some p \<longrightarrow> sp_line_bytes p = push_bit (c_offset_bits c) 1"
    and "c_phase c \<in> {Ph_Idle, Ph_HitWait}"
  shows "cache_wf (c\<lparr>c_pf_active := False\<rparr>)"
proof -
  have st: "same_tags c (c\<lparr>c_pf_active := False\<rparr>)" by (simp add: same_tags_def same_geom_def)
  from assms show ?thesis
    unfolding cache_wf_def prefetch_wf_def demand_wf_def same_tagsD [OF st] by auto
qed

lemma chain_prefetch_wf:
  assumes "cache_wf c" and "line_addr_of c (c_pf_addr c) = c_pf_addr c"
    and "c_phase c \<in> {Ph_Idle, Ph_HitWait}"
  shows "cache_wf (chain_prefetch c)"
proof (cases "chain_prefetch c = c")
  case False
  have wf: "cache_geom c" "tags_unique c" "prefetch_wf c" using assms(1) by (simp_all add: cache_wf_def)
  have st: "same_tags c (chain_prefetch c)"
    by (simp add: chain_prefetch_def Let_def same_tags_def same_geom_def split: option.split)
  obtain p where p: "c_pf_policy c = Some p"
    using False by (auto simp: chain_prefetch_def split: if_splits option.splits)
  define t where "t = seq_next p (c_pf_addr c)"
  have new: "c_pf_addr (chain_prefetch c) = t" "c_pf_way (chain_prefetch c) = choose_victim c (index_of c t)"
    "find_way c t = None" "c_phase (chain_prefetch c) = c_phase c"
    using False p by (auto simp: chain_prefetch_def t_def Let_def split: if_splits)
  have "line_addr_of c t = t" using seq_next_line [OF wf(1,3) p assms(2)] by (simp add: t_def)
  moreover have "choose_victim c (index_of c t) < c_ways c"
    using wf(1) by (intro choose_victim_less index_less)
  ultimately have "prefetch_wf (chain_prefetch c)"
    using wf(3) p unfolding prefetch_wf_def same_tagsD [OF st] new by (simp add: find_way_None [symmetric] new)
  moreover have "demand_wf (chain_prefetch c)" using assms(3) by (auto simp: demand_wf_def new)
  ultimately show ?thesis using wf by (simp add: cache_wf_def same_tagsD [OF st])
qed (simp add: assms(1))

lemma service_prefetch_wf:
  assumes "cache_wf c" and "c_phase c \<in> {Ph_Idle, Ph_HitWait}"
  shows "cache_wf (fst (snd (service_prefetch c b)))"
proof (cases "c_pf_active c \<and> fst (mem_ready (c_pf_addr c) False b)")
  case True
  have wf: "cache_geom c" "tags_unique c" "prefetch_wf c" using assms(1) by (simp_all add: cache_wf_def)
  define c1 where "c1 = fst (install_line (index_of c (c_pf_addr c)) (c_pf_way c) (c_pf_addr c) False True c
      (snd (snd (mem_ready (c_pf_addr c) False b))))"
  have pf: "c_pf_way c < c_ways c" "\<not> resident c (c_pf_addr c)" "line_addr_of c (c_pf_addr c) = c_pf_addr c"
    using wf(3) True by (simp_all add: prefetch_wf_def)
  note inst = install_line_tags [OF wf(1,2) pf(1,2) c1_def]
  have ob: "c_offset_bits c1 = c_offset_bits c" using inst(3) by (simp add: same_geom_def)
  have "cache_wf (c1\<lparr>c_pf_active := False\<rparr>)"
    using inst wf(3) assms(2) by (intro prefetch_off_wf) (simp_all add: prefetch_wf_def ob)
  moreover have "line_addr_of (c1\<lparr>c_pf_active := False\<rparr>) (c_pf_addr c1) = c_pf_addr c1"
    using pf(3) inst(8) by (simp add: line_addr_of_def ob)
  ultimately have "cache_wf (chain_prefetch (c1\<lparr>c_pf_active := False\<rparr>))"
    using assms(2) inst(10) by (intro chain_prefetch_wf) simp_all
  then show ?thesis using True by (simp add: service_prefetch_def case_prod_beta Let_def c1_def)
next
  case False
  then show ?thesis using assms(1) by (auto simp: service_prefetch_def case_prod_beta Let_def)
qed

lemma finish_miss_wf:
  assumes "cache_wf c" and "c_phase c \<in> {Ph_MissFetch, Ph_PrefetchWait}"
    and "c' = fst (finish_miss c st)" and "pf = (c_pf_active c \<and> c_phase c = Ph_MissFetch)"
  shows "cache_wf (c'\<lparr>c_pf_active := pf\<rparr>)"
proof -
  have wf: "cache_geom c" "tags_unique c" "prefetch_wf c" "demand_wf c"
    using assms(1) by (simp_all add: cache_wf_def)
  define c1 where "c1 = fst (install_line (index_of c (c_cur_addr c)) (c_victim_way c) (c_cur_addr c)
      (c_cur_is_write c) False c st)"
  have d: "\<not> resident c (c_cur_addr c)" "c_victim_way c < c_ways c"
    using wf(4) assms(2) by (auto simp: demand_wf_def)
  note inst = install_line_tags [OF wf(1,2) d(2,1) c1_def]
  let ?c = "c'\<lparr>c_pf_active := pf\<rparr>"
  have c': "c' = c1\<lparr>c_phase := Ph_HitWait, c_hit_remaining := sint (c_hit_latency c1) - 1\<rparr>"
    by (simp add: assms(3) finish_miss_def c1_def case_prod_beta Let_def)
  have st: "same_tags c1 ?c" by (simp add: c' same_tags_def same_geom_def)
  have "line_addr_of c (c_pf_addr c) \<noteq> line_addr_of c (c_cur_addr c)" if pf
    using that wf(3,4) assms(4) by (auto simp: prefetch_wf_def demand_wf_def)
  moreover have "line_addr_of c1 = line_addr_of c" "c_ways c1 = c_ways c"
    "c_offset_bits c1 = c_offset_bits c"
    using same_geom_split [OF inst(3)] inst(3) by (simp_all add: same_geom_def)
  ultimately have "prefetch_wf ?c"
    using wf(3) inst assms(4) unfolding prefetch_wf_def same_tagsD [OF st] by (auto simp: c')
  moreover have "demand_wf ?c" by (simp add: demand_wf_def c')
  ultimately show ?thesis using inst by (simp add: cache_wf_def same_tagsD [OF st])
qed

lemma flush_done_wf:
  assumes "cache_wf c" and "c_phase c = Ph_WriteBack"
  shows "cache_wf (c\<lparr>c_phase := Ph_MissFetch\<rparr>)"
proof -
  have st: "same_tags c (c\<lparr>c_phase := Ph_MissFetch\<rparr>)" by (simp add: same_tags_def same_geom_def)
  show ?thesis
    using assms unfolding cache_wf_def prefetch_wf_def demand_wf_def same_tagsD [OF st] by simp
qed

lemma cache_drive_wf:
  assumes "cache_wf c"
  shows "cache_wf (fst (snd (cache_drive c b)))"
proof -
  have wf: "cache_geom c" "tags_unique c" "prefetch_wf c" "demand_wf c"
    using assms by (simp_all add: cache_wf_def)
  show ?thesis
  proof (cases "c_phase c")
    case Ph_Idle
    then show ?thesis using service_prefetch_wf [OF assms, of b] by (simp add: cache_drive_def)
  next
    case Ph_HitWait
    let ?c = "if c_hit_remaining c > 0 then c\<lparr>c_hit_remaining := c_hit_remaining c - 1\<rparr>
             else c\<lparr>c_phase := Ph_Idle\<rparr>"
    have st: "same_tags c ?c" by (simp add: same_tags_def same_geom_def)
    have "prefetch_wf ?c" using wf(3) unfolding prefetch_wf_def same_tagsD [OF st] by simp
    moreover have "demand_wf ?c" using Ph_HitWait by (simp add: demand_wf_def)
    ultimately have "cache_wf ?c" using wf by (simp add: cache_wf_def same_tagsD [OF st])
    then show ?thesis using service_prefetch_wf [of ?c b] Ph_HitWait by (simp add: cache_drive_def)
  next
    case Ph_WriteBack
    then show ?thesis using assms flush_done_wf [OF assms] by (simp add: cache_drive_def case_prod_beta Let_def)
  next
    case Ph_MissFetch
    have "cache_wf (fst (finish_miss c st))" for st
      using finish_miss_wf [OF assms, of _ st "c_pf_active c"] Ph_MissFetch
      by (simp add: finish_miss_def install_line_def touch_way_def set_line_def case_prod_beta Let_def)
    then show ?thesis using assms Ph_MissFetch by (simp add: cache_drive_def case_prod_beta Let_def)
  next
    case Ph_PrefetchWait
    have "cache_wf ((fst (finish_miss c st))\<lparr>c_pf_active := False\<rparr>)" for st
      using finish_miss_wf [OF assms, of _ st False] Ph_PrefetchWait by simp
    then show ?thesis using assms Ph_PrefetchWait by (simp add: cache_drive_def case_prod_beta Let_def)
  qed
qed

lemma mem_tick_wf: "mem_wf (fst b) \<Longrightarrow> mem_wf (fst (mem_tick b))"
proof (induction b rule: mem_tick.induct)
  case (2 c b st)
  obtain t c' b' st' where d: "cache_drive c (b, st) = (t, c', b', st')" by (cases "cache_drive c (b, st)")
  have "cache_wf c'" using cache_drive_wf [of c "(b, st)"] "2.prems" d by simp
  moreover have "mem_wf b'"
    using d "2.prems" by (elim cache_drive_backing) (simp_all add: mem_ready_wf)
  ultimately show ?case
    using "2.IH" [of "(t, c', b', st')" t "(c', b', st')" c' "(b', st')" b' st'] d
    by (simp add: case_prod_beta)
qed simp

text \<open>
  C19: the memory hierarchy (any stack of caches over a flat memory, prefetching or not) is
  transparent: neither a query nor a tick changes a byte, so every load returns after them
  exactly what it would have returned before; and both keep the tag invariant, by which no
  line is resident in two ways of a set.
\<close>

theorem hierarchy_transparent:
  assumes "mem_wf (fst b)"
  shows "mem_bytes (fst (snd (mem_ready a w b))) = mem_bytes (fst b) \<and>
    mem_bytes (fst (mem_tick b)) = mem_bytes (fst b) \<and>
    res_option (mem_load_word (fst (mem_tick (snd (mem_ready a w b)))) x) =
      res_option (mem_load_word (fst b) x) \<and>
    mem_wf (fst (snd (mem_ready a w b))) \<and> mem_wf (fst (mem_tick b))"
  using assms sys.load_word [of "mem_tick (snd (mem_ready a w b))" x] sys.load_word [of b x]
  by (simp add: mem_ready_bytes mem_tick_bytes mem_ready_wf mem_tick_wf)

theorem hierarchy_transparent_witness:
  "\<exists>c. cache_init 4 2 1 2 True 1 True = Inr c \<and>
     mem_wf (fst (mem_tick (Cached c (Flat (flat_init 0 16 2)), stats_init)))"
proof -
  obtain c where c: "cache_init 4 2 1 2 True 1 True = Inr c"
    "c_offset_bits c + c_index_bits c < 32"
    by (simp add: cache_init_def log2_exact_def pow2_ok_def plru_init_def log2_loop.simps)
  then have "mem_wf (fst (Cached c (Flat (flat_init 0 16 2)), stats_init))"
    using cache_init_wf by auto
  from hierarchy_transparent [OF this] c(1) show ?thesis by blast
qed

section \<open>Latency\<close>

text \<open>
  Without prefetching: a cache waiting out a hit, driving a fetch or a write-back. \<open>served\<close>
  counts the cycles of the client of \<open>mem_ready\<close> and \<open>mem_tick\<close>.
\<close>

abbreviation mem_served :: "u32 \<Rightarrow> bool \<Rightarrow> nat \<Rightarrow> mem_state \<Rightarrow> mem_state \<Rightarrow> bool" where
  "mem_served \<equiv> served mem_ready mem_tick"

lemma mem_ready_busy:
  assumes "c_phase c \<noteq> Ph_Idle"
  shows "mem_ready a w (Cached c b, st) =
    (c_phase c = Ph_HitWait \<and> c_hit_remaining c = 0, Cached c b, st)"
  using assms by (simp add: cache_ready_def)

lemma mem_tick_hit_wait:
  assumes "c_phase c = Ph_HitWait" and "\<not> c_pf_active c"
  shows "mem_tick (Cached c b, st) =
    (Cached (if c_hit_remaining c > 0 then c\<lparr>c_hit_remaining := c_hit_remaining c - 1\<rparr>
             else c\<lparr>c_phase := Ph_Idle\<rparr>) b, st)"
  using assms by (simp add: cache_drive_def service_prefetch_def)

lemma hit_wait_served:
  assumes "c_phase c = Ph_HitWait" and "\<not> c_pf_active c" and "c_hit_remaining c = int n"
  shows "mem_served a w n (Cached c b, st) (Cached (c\<lparr>c_hit_remaining := 0\<rparr>) b, st)"
  using assms
proof (induction n arbitrary: c)
  case 0
  then have "c\<lparr>c_hit_remaining := 0\<rparr> = c" by (cases c) simp
  with 0 show ?case by (simp add: served_0 mem_ready_busy del: mem_ready.simps)
next
  case (Suc n)
  let ?c = "c\<lparr>c_hit_remaining := int n\<rparr>"
  have "mem_served a w n (Cached ?c b, st) (Cached (?c\<lparr>c_hit_remaining := 0\<rparr>) b, st)"
    using Suc.prems by (intro Suc.IH) simp_all
  moreover have "mem_tick (Cached c b, st) = (Cached ?c b, st)"
    using Suc.prems by (simp add: mem_tick_hit_wait del: mem_tick.simps)
  ultimately show ?case
    using Suc.prems by (simp add: served_Suc mem_ready_busy del: mem_ready.simps mem_tick.simps)
qed

text \<open>
  A cache in a phase that waits for the backing memory: it takes one cycle more than the
  backing memory does, and then goes on in the state that \<open>cache_drive\<close> leaves, over the
  ticked backing memory.
\<close>

lemma drive_served:
  assumes "c_phase c = Ph_MissFetch \<and> addr = c_cur_addr c \<and> \<not> is_write \<or>
      c_phase c = Ph_WriteBack \<and> addr = c_wb_addr c \<and> is_write"
    and "mem_served addr is_write n (b, st) (b1, st1)"
    and "(if is_write then (c\<lparr>c_phase := Ph_MissFetch\<rparr>, st1) else finish_miss c st1) = (c', st2)"
    and "mem_served a w k (case mem_tick (b1, st2) of (b2, st3) \<Rightarrow> (Cached c' b2, st3)) s"
  shows "mem_served a w (Suc n + k) (Cached c b, st) s"
  using assms(2)
proof (induction n arbitrary: b st)
  case 0
  then have r: "mem_ready addr is_write (b, st) = (True, b1, st1)" by (simp add: served_0)
  have "mem_tick (Cached c b, st) = (case mem_tick (b1, st2) of (b2, st3) \<Rightarrow> (Cached c' b2, st3))"
    using assms(1,3) r by (auto simp: cache_drive_def)
  with assms(4) show ?case
    using assms(1) by (auto simp: served_Suc mem_ready_busy Let_def simp del: mem_ready.simps mem_tick.simps)
next
  case (Suc n)
  then obtain b' st' where r: "mem_ready addr is_write (b, st) = (False, b', st')"
    and s: "mem_served addr is_write n (mem_tick (b', st')) (b1, st1)"
    by (auto simp: served_Suc)
  obtain b2 st3 where t: "mem_tick (b', st') = (b2, st3)" by (cases "mem_tick (b', st')")
  have "mem_tick (Cached c b, st) = (Cached c b2, st3)"
    using assms(1) r t by (auto simp: cache_drive_def)
  with Suc.IH [of b2 st3] s t show ?case
    using assms(1) by (auto simp: served_Suc mem_ready_busy simp del: mem_ready.simps mem_tick.simps)
qed

lemma flat_mem_served:
  "served flat_ready flat_tick a w n f f' \<Longrightarrow> mem_served a w n (Flat f, st) (Flat f', st)"
  by (induction n arbitrary: f) (auto simp: served_0 served_Suc)

lemma flat_backing_served:
  assumes "\<not> fm_serving f" and "sint (fm_latency f) = int (Suc n)"
  obtains f' where "mem_served a w n (Flat f, st) (Flat f', st)"
    and "\<And>st. mem_tick (Flat f', st) = (Flat (flat_tick f'), st)" "\<not> fm_serving (flat_tick f')"
    and "fm_mem (flat_tick f') = fm_mem f" "fm_latency (flat_tick f') = fm_latency f"
  using flat_mem_served [OF flat_served_idle [OF assms]]
  by (intro that [of "f\<lparr>fm_serving := True, fm_remaining := 0\<rparr>"]) (simp_all add: flat_tick_def)

text \<open>The end of every request: the hit wait, then the release.\<close>

lemma hit_phase_served:
  assumes "c_phase c = Ph_HitWait" and "\<not> c_pf_active c" and "c_hit_remaining c = int h"
    and "resident c a"
  shows "\<exists>c'. mem_served a w h (Cached c b, st) (Cached c' b, st) \<and> resident c' a \<and>
    mem_tick (Cached c' b, st) = (Cached (c'\<lparr>c_phase := Ph_Idle\<rparr>) b, st)"
proof -
  have "same_tags c (c\<lparr>c_hit_remaining := 0\<rparr>)" by (simp add: same_tags_def same_geom_def)
  from same_tagsD(10) [OF this] hit_wait_served [OF assms(1-3)] assms show ?thesis
    by (intro exI [of _ "c\<lparr>c_hit_remaining := 0\<rparr>"]) (simp add: mem_tick_hit_wait del: mem_tick.simps)
qed

lemma fetch_phase_served:
  assumes "cache_wf c" and "c_phase c = Ph_MissFetch" and "\<not> c_pf_active c"
    and "\<not> fm_serving f" and "sint (fm_latency f) = int (Suc n)" and "sint (c_hit_latency c) = int (Suc h)"
    and "c_cur_addr c = a"
  shows "\<exists>c' f' st'. mem_served a w (Suc n + h) (Cached c (Flat f), st) (Cached c' (Flat f'), st') \<and>
    resident c' a \<and> mem_tick (Cached c' (Flat f'), st') = (Cached (c'\<lparr>c_phase := Ph_Idle\<rparr>) (Flat f'), st') \<and>
    \<not> fm_serving f' \<and> fm_mem f' = fm_mem f"
proof -
  obtain f1 where f1: "mem_served a False n (Flat f, st) (Flat f1, st)"
    "\<And>st. mem_tick (Flat f1, st) = (Flat (flat_tick f1), st)" "\<not> fm_serving (flat_tick f1)"
    "fm_mem (flat_tick f1) = fm_mem f"
    using flat_backing_served [OF assms(4,5), of a False st] by blast
  obtain c1 st1 where fin: "finish_miss c st = (c1, st1)" by (cases "finish_miss c st")
  define ci where "ci = fst (install_line (index_of c a) (c_victim_way c) a (c_cur_is_write c) False c st)"
  have wf: "cache_geom c" "tags_unique c" "c_victim_way c < c_ways c" "\<not> resident c a"
    using assms(1,2,7) by (auto simp: cache_wf_def demand_wf_def)
  note inst = install_line_tags [OF wf ci_def]
  have c1: "c1 = ci\<lparr>c_phase := Ph_HitWait, c_hit_remaining := int h\<rparr>"
    using fin assms(6,7) inst(13) by (auto simp: finish_miss_def ci_def case_prod_beta Let_def)
  have "same_tags ci c1" by (simp add: c1 same_tags_def same_geom_def)
  then have "resident c1 a" using inst(4) same_tagsD(10) by metis
  then obtain c' where c': "mem_served a w h (Cached c1 (Flat (flat_tick f1)), st1)
        (Cached c' (Flat (flat_tick f1)), st1)" "resident c' a"
      "mem_tick (Cached c' (Flat (flat_tick f1)), st1) =
        (Cached (c'\<lparr>c_phase := Ph_Idle\<rparr>) (Flat (flat_tick f1)), st1)"
    using hit_phase_served [of c1 h a w "Flat (flat_tick f1)" st1] c1 inst(7) assms(3) by auto
  have "mem_served a w (Suc n + h) (Cached c (Flat f), st) (Cached c' (Flat (flat_tick f1)), st1)"
    using drive_served [OF _ f1(1), of c c1 st1 a w h] assms(2,7) c'(1) by (simp add: fin f1(2))
  with c' f1(3,4) show ?thesis by blast
qed

lemma flush_phase_served:
  assumes "cache_wf c" and "c_phase c = Ph_WriteBack" and "\<not> c_pf_active c"
    and "\<not> fm_serving f" and "sint (fm_latency f) = int (Suc n)" and "sint (c_hit_latency c) = int (Suc h)"
    and "c_cur_addr c = a"
  shows "\<exists>c' f' st'. mem_served a w (Suc n + (Suc n + h)) (Cached c (Flat f), st) (Cached c' (Flat f'), st') \<and>
    resident c' a \<and> mem_tick (Cached c' (Flat f'), st') = (Cached (c'\<lparr>c_phase := Ph_Idle\<rparr>) (Flat f'), st') \<and>
    \<not> fm_serving f' \<and> fm_mem f' = fm_mem f"
proof -
  obtain f1 where f1: "mem_served (c_wb_addr c) True n (Flat f, st) (Flat f1, st)"
    "\<And>st. mem_tick (Flat f1, st) = (Flat (flat_tick f1), st)" "\<not> fm_serving (flat_tick f1)"
    "fm_mem (flat_tick f1) = fm_mem f" "fm_latency (flat_tick f1) = fm_latency f"
    using flat_backing_served [OF assms(4,5), of "c_wb_addr c" True st] by blast
  let ?c = "c\<lparr>c_phase := Ph_MissFetch\<rparr>"
  have "cache_wf ?c" by (rule flush_done_wf [OF assms(1,2)])
  then obtain c' f' st' where c':
      "mem_served a w (Suc n + h) (Cached ?c (Flat (flat_tick f1)), st) (Cached c' (Flat f'), st')"
      "resident c' a"
      "mem_tick (Cached c' (Flat f'), st') = (Cached (c'\<lparr>c_phase := Ph_Idle\<rparr>) (Flat f'), st')"
      "\<not> fm_serving f'" "fm_mem f' = fm_mem (flat_tick f1)"
    using fetch_phase_served [of ?c "flat_tick f1" n h a w st] assms(3-7) f1(3,5) by auto
  have "mem_served a w (Suc n + (Suc n + h)) (Cached c (Flat f), st) (Cached c' (Flat f'), st')"
    using drive_served [OF _ f1(1), of c ?c st a w "Suc n + h"] assms(2) c'(1) by (simp add: f1(2))
  with c' f1(4) show ?thesis by metis
qed

text \<open>What starting a request does when no prefetcher is configured.\<close>

lemma start_no_prefetch:
  assumes "c_phase c = Ph_Idle" and "c_pf_policy c = None"
    and c0_def: "c0 = c\<lparr>c_cur_addr := a, c_cur_is_write := w, c_last_hit := resident c a\<rparr>"
  shows "cache_start a w c st =
      (case find_way c a of Some v \<Rightarrow> start_hit (index_of c a) v w c0 st
       | None \<Rightarrow> (start_miss (index_of c a) a c0, st))"
proof -
  define c1 where "c1 = c\<lparr>c_cur_addr := a, c_cur_is_write := w\<rparr>"
  have "same_tags c c1" by (simp add: c1_def same_tags_def same_geom_def)
  note d = same_tagsD [OF this]
  have "maybe_start_prefetch a (c1\<lparr>c_last_hit := (find_way c1 a \<noteq> None)\<rparr>) = c0"
    using assms(2) by (subst maybe_start_prefetch_frame(8)) (auto simp: c1_def c0_def d(14) [unfolded c1_def] find_way_None)
  then show ?thesis
    unfolding cache_start_def Let_def c1_def [symmetric] by (simp only: d)
qed

text \<open>A request that starts in a busy phase is served as from the state the start leaves.\<close>

lemma served_from_start:
  assumes "c_phase c = Ph_Idle" and "cache_start a w c st = (c1, st1)" and "c_phase c1 \<noteq> Ph_Idle"
    and "mem_served a w n (Cached c1 b, st1) s"
  shows "mem_served a w n (Cached c b, st) s"
proof -
  have "mem_ready a w (Cached c b, st) = mem_ready a w (Cached c1 b, st1)"
    using assms(1-3) by (simp add: cache_ready_def)
  with assms(4) show ?thesis by (cases n) (simp_all add: served_0 served_Suc del: mem_ready.simps)
qed

lemma start_hit_frame:
  "c_phase (fst (start_hit s v w c st)) = Ph_HitWait"
  "c_hit_remaining (fst (start_hit s v w c st)) = sint (c_hit_latency c) - 1"
  "c_pf_active (fst (start_hit s v w c st)) = c_pf_active c"
  by (simp_all add: start_hit_def touch_way_def set_line_def Let_def)

lemma start_hit_resident:
  assumes "cache_geom c" and "unat s < 2 ^ c_index_bits c" and "v < c_ways c"
  shows "resident (fst (start_hit s v w c st)) = resident c"
proof -
  define l1 where "l1 = (if w then (line_at c s v)\<lparr>ln_dirty := True\<rparr> else line_at c s v)"
  define l where "l = (if ln_prefetched l1 then l1\<lparr>ln_prefetched := False\<rparr> else l1)"
  let ?c = "(put_line c s v l)\<lparr>c_phase := Ph_HitWait, c_hit_remaining := sint (c_hit_latency c) - 1\<rparr>"
  have eq: "fst (start_hit s v w c st) = ?c"
    by (simp add: start_hit_def put_line_def Let_def l_def l1_def)
  have "same_tags (put_line c s v l) ?c" by (simp add: same_tags_def same_geom_def)
  then show ?thesis
    unfolding eq using same_tagsD(10) put_line_same(1) [OF assms, of l] by (simp add: l_def l1_def)
qed

text \<open>A client served after \<open>k\<close> cycles, with the line resident and every port free again.\<close>

definition line_served :: "cache \<Rightarrow> flat_mem \<Rightarrow> u32 \<Rightarrow> bool \<Rightarrow> nat \<Rightarrow> sim_stats \<Rightarrow> bool" where
  "line_served c f a w k st \<longleftrightarrow>
     (\<exists>c' f' st'. mem_served a w k (Cached c (Flat f), st) (Cached c' (Flat f'), st') \<and>
        resident c' a \<and>
        mem_tick (Cached c' (Flat f'), st') = (Cached (c'\<lparr>c_phase := Ph_Idle\<rparr>) (Flat f'), st') \<and>
        \<not> fm_serving f' \<and> fm_mem f' = fm_mem f)"

lemma hit_line_served:
  assumes "cache_wf c" and "c_phase c = Ph_Idle" and "c_pf_policy c = None" and "\<not> fm_serving f"
    and lat: "sint (c_hit_latency c) = int (Suc h)" and Some: "find_way c a = Some v"
  shows "line_served c f a w h st"
proof -
  define c0 where "c0 = c\<lparr>c_cur_addr := a, c_cur_is_write := w, c_last_hit := resident c a\<rparr>"
  have st0: "same_tags c c0" by (simp add: c0_def same_tags_def same_geom_def)
  note d = same_tagsD [OF st0] and start = start_no_prefetch [OF assms(2,3) c0_def, of st]
  have off: "\<not> c_pf_active c" using assms(1,3) by (auto simp: cache_wf_def prefetch_wf_def)
  have wf: "cache_geom c0" using assms(1) by (simp add: cache_wf_def d)
  have v: "v < c_ways c0" "resident c0 a"
    using find_way_Some [OF Some] by (auto simp: d resident_def)
  obtain c1 st1 where s: "start_hit (index_of c a) v w c0 st = (c1, st1)"
    by (cases "start_hit (index_of c a) v w c0 st")
  have c1: "c_phase c1 = Ph_HitWait" "c_hit_remaining c1 = int h" "\<not> c_pf_active c1" "resident c1 a"
    using start_hit_frame [of "index_of c a" v w c0 st] s off lat v(2)
      start_hit_resident [OF wf _ v(1), of "index_of c0 a" w st] index_less [OF wf, of a]
    by (simp_all add: c0_def [symmetric] d) (simp_all add: c0_def)
  have cs: "cache_start a w c st = (c1, st1)" using start s Some by simp
  from hit_phase_served [OF c1(1,3,2,4), of w "Flat f" st1]
    served_from_start [OF assms(2) cs, of h "Flat f"] c1(1) assms(4)
  show ?thesis unfolding line_served_def by fastforce
qed

lemma miss_line_served:
  assumes "cache_wf c" and "c_phase c = Ph_Idle" and "c_pf_policy c = None" and "\<not> fm_serving f"
    and lat: "sint (fm_latency f) = int (Suc n)" "sint (c_hit_latency c) = int (Suc h)" and None: "find_way c a = None"
  shows "line_served c f a w
    (if dirty_victim c (index_of c a) (choose_victim c (index_of c a)) then Suc n + (Suc n + h) else Suc n + h) st"
proof -
  define c0 where "c0 = c\<lparr>c_cur_addr := a, c_cur_is_write := w, c_last_hit := resident c a\<rparr>"
  have st0: "same_tags c c0" by (simp add: c0_def same_tags_def same_geom_def)
  note d = same_tagsD [OF st0] and start = start_no_prefetch [OF assms(2,3) c0_def, of st]
  have off: "\<not> c_pf_active c" using assms(1,3) by (auto simp: cache_wf_def prefetch_wf_def)
  define c1 where "c1 = start_miss (index_of c a) a c0"
  have s: "cache_start a w c st = (c1, st)" using start None by (simp add: c1_def)
  have wf1: "cache_wf c1" using cache_start_wf [OF assms(1), of a w st] by (simp add: s)
  have f1: "\<not> c_pf_active c1" "c_cur_addr c1 = a" "sint (c_hit_latency c1) = int (Suc h)"
    using off lat(2) by (simp_all add: c1_def start_miss_def c0_def Let_def)
  have ph: "c_phase c1 = (if dirty_victim c (index_of c a) (choose_victim c (index_of c a))
      then Ph_WriteBack else Ph_MissFetch)"
    using off by (simp add: c1_def start_miss_def Let_def c0_def dirty_victim_def d(13) [unfolded c0_def])
  show ?thesis
  proof (cases "dirty_victim c (index_of c a) (choose_victim c (index_of c a))")
    case True
    with ph have p: "c_phase c1 = Ph_WriteBack" by simp
    from flush_phase_served [OF wf1 p f1(1) assms(4) lat(1) f1(3,2), of w st]
      served_from_start [OF assms(2) s, of "Suc n + (Suc n + h)" "Flat f"] p
    have "line_served c f a w (Suc n + (Suc n + h)) st" unfolding line_served_def by fastforce
    then show ?thesis using True by simp
  next
    case False
    with ph have p: "c_phase c1 = Ph_MissFetch" by simp
    from fetch_phase_served [OF wf1 p f1(1) assms(4) lat(1) f1(3,2), of w st]
      served_from_start [OF assms(2) s, of "Suc n + h" "Flat f"] p
    have "line_served c f a w (Suc n + h) st" unfolding line_served_def by fastforce
    then show ?thesis using False by simp
  qed
qed

text \<open>
  C21: the latency of a cache with hit latency \<open>H\<close> over a flat memory of latency \<open>L\<close>, no
  prefetcher. From the idle state a hit is served in \<open>H\<close> cycles, a miss with a clean victim in
  \<open>L + H\<close> and one that must first write back a dirty victim in \<open>2 L + H\<close> (the waiting cycles
  are one fewer). The tick of the serving cycle releases the cache, the flat memory is idle
  again with its contents unchanged, and the line is resident.
\<close>

theorem cache_latency:
  assumes "cache_wf c" and "c_phase c = Ph_Idle" and "c_pf_policy c = None"
    and "\<not> fm_serving f" and "0 < sint (fm_latency f)" and "0 < sint (c_hit_latency c)"
  shows "\<exists>c' f' st'.
    mem_served a w
      ((if resident c a then 0
        else if dirty_victim c (index_of c a) (choose_victim c (index_of c a))
        then 2 * nat (sint (fm_latency f)) else nat (sint (fm_latency f)))
        + nat (sint (c_hit_latency c)) - 1)
      (Cached c (Flat f), st) (Cached c' (Flat f'), st') \<and>
    resident c' a \<and>
    mem_tick (Cached c' (Flat f'), st') = (Cached (c'\<lparr>c_phase := Ph_Idle\<rparr>) (Flat f'), st') \<and>
    \<not> fm_serving f' \<and> fm_mem f' = fm_mem f"
proof -
  define n h where "n = nat (sint (fm_latency f)) - 1" and "h = nat (sint (c_hit_latency c)) - 1"
  have lat: "sint (fm_latency f) = int (Suc n)" "sint (c_hit_latency c) = int (Suc h)"
    using assms(5,6) by (simp_all add: n_def h_def)
  have latn: "nat (sint (fm_latency f)) = Suc n" "nat (sint (c_hit_latency c)) = Suc h"
    unfolding lat by (simp_all only: nat_int)
  show ?thesis
  proof (cases "find_way c a")
    case (Some v)
    then have "resident c a" using find_way_Some [OF Some] by (auto simp: resident_def)
    then show ?thesis
      using hit_line_served [OF assms(1-4) lat(2) Some, of w st] by (simp add: latn line_served_def)
  next
    case None
    then have "\<not> resident c a" by (simp add: find_way_None)
    then show ?thesis
      using miss_line_served [OF assms(1-4) lat None, of w st]
      by (simp add: latn line_served_def mult_2 add.assoc split: if_splits)
  qed
qed

theorem cache_latency_witness:
  "\<exists>c c' f' st'. cache_init 32 64 2 1 False 1 False = Inr c \<and>
     mem_served 0x80000000 False 11 (Cached c (Flat (flat_init 0x80000000 64 10)), stats_init)
       (Cached c' (Flat f'), st')"
proof -
  obtain c where c: "cache_init 32 64 2 1 False 1 False = Inr c"
    "c_offset_bits c + c_index_bits c < 32" "c_pf_policy c = None" "c_hit_latency c = 2"
    and ways: "c_ways c = 1" "c_lines c = replicate 64 line_init"
    by (simp add: cache_init_def log2_exact_def pow2_ok_def plru_init_def log2_loop.simps)
  note wf = cache_init_wf [OF c(1,2)]
  let ?a = "0x80000000 :: u32"
  have inv: "\<not> ln_valid (line_at c (index_of c ?a) 0)"
    using slot_less [of c "index_of c ?a" 0] index_less [of c ?a] wf ways
    by (simp add: line_at_def line_init_def cache_wf_def)
  then have "\<not> resident c ?a" "\<not> dirty_victim c (index_of c ?a) (choose_victim c (index_of c ?a))"
    using ways choose_victim_invalid_first [of 0 c "index_of c ?a"]
    by (auto simp: resident_def holds_def dirty_victim_def)
  then show ?thesis
    using cache_latency [of c "flat_init ?a 64 10" ?a False stats_init] wf c
    by (auto simp: flat_init_def)
qed

end
