(* ===== verification/Branch_Predictor.thy ===== *)
theory Branch_Predictor
  imports Pow2
begin

unbundle bit_operations_syntax

text \<open>
  \<open>BranchPredictor\<close> (\<open>include/cpusim/uarch/branch_predictor.h\<close>,
  \<open>src/uarch/branch_predictor.cpp\<close>): a tagged branch target buffer and a table of 2-bit
  counters. The tables are indexed through masks, so every index is in range as soon as
  neither table is empty (\<open>bp_wf\<close>); the constructor checks that for the target buffer only.
\<close>

record prediction =
  pr_taken :: bool
  pr_target :: u32

record btb_entry =
  be_valid :: bool
  be_tag :: u32
  be_target :: u32
  be_cond :: bool

record branch_predictor =
  bp_bht :: "u8 list"
  bp_bht_mask :: u32
  bp_btb :: "btb_entry list"
  bp_btb_mask :: u32
  bp_btb_index_bits :: nat

definition btb_entry_init :: btb_entry where
  "btb_entry_init = \<lparr>be_valid = False, be_tag = 0, be_target = 0, be_cond = False\<rparr>"

text \<open>The file has its own copy of \<open>log2_exact\<close>.\<close>

definition bp_log2_exact :: "u32 \<Rightarrow> nat res" where
  "bp_log2_exact v = (if v \<noteq> 0 \<and> v AND (v - 1) = 0 then Inr (log2_loop v 0) else Inl Assert_failed)"

lemma bp_log2_exact [simp]: "bp_log2_exact v = log2_exact v"
  by (simp add: bp_log2_exact_def log2_exact_def pow2_ok_def)

definition bp_init :: "u32 \<Rightarrow> u32 \<Rightarrow> branch_predictor res" where
  "bp_init bht_entries btb_entries =
     res_bind (bp_log2_exact btb_entries) (\<lambda>bits.
       Inr \<lparr>bp_bht = replicate (unat bht_entries) 1, bp_bht_mask = bht_entries - 1,
            bp_btb = replicate (unat btb_entries) btb_entry_init,
            bp_btb_mask = btb_entries - 1, bp_btb_index_bits = bits\<rparr>)"

definition bht_index :: "branch_predictor \<Rightarrow> u32 \<Rightarrow> nat" where
  "bht_index bp pc = unat (drop_bit 2 pc AND bp_bht_mask bp)"

definition btb_index :: "branch_predictor \<Rightarrow> u32 \<Rightarrow> nat" where
  "btb_index bp pc = unat (drop_bit 2 pc AND bp_btb_mask bp)"

definition btb_tag :: "branch_predictor \<Rightarrow> u32 \<Rightarrow> u32" where
  "btb_tag bp pc = drop_bit (bp_btb_index_bits bp) (drop_bit 2 pc)"

definition predict :: "branch_predictor \<Rightarrow> u32 \<Rightarrow> prediction" where
  "predict bp pc =
     (let e = bp_btb bp ! btb_index bp pc in
      if \<not> be_valid e \<or> be_tag e \<noteq> btb_tag bp pc then \<lparr>pr_taken = False, pr_target = 0\<rparr>
      else \<lparr>pr_taken = (if be_cond e then bp_bht bp ! bht_index bp pc \<ge> 2 else True),
            pr_target = be_target e\<rparr>)"

definition counter_step :: "bool \<Rightarrow> u8 \<Rightarrow> u8" where
  "counter_step taken c =
     (if taken then (if c < 3 then c + 1 else c) else (if c > 0 then c - 1 else c))"

definition bp_update :: "u32 \<Rightarrow> bool \<Rightarrow> bool \<Rightarrow> u32 \<Rightarrow> branch_predictor \<Rightarrow> branch_predictor" where
  "bp_update pc is_cond taken target bp =
     (let bp1 = (if is_cond
                 then bp\<lparr>bp_bht := (bp_bht bp)[bht_index bp pc :=
                                     counter_step taken (bp_bht bp ! bht_index bp pc)]\<rparr>
                 else bp)
      in bp1\<lparr>bp_btb := (bp_btb bp1)[btb_index bp1 pc :=
               \<lparr>be_valid = True, be_tag = btb_tag bp1 pc, be_target = target, be_cond = is_cond\<rparr>]\<rparr>)"

section \<open>The invariant\<close>

definition bp_wf :: "branch_predictor \<Rightarrow> bool" where
  "bp_wf bp \<longleftrightarrow> Suc (unat (bp_bht_mask bp)) = length (bp_bht bp) \<and>
     bp_btb_index_bits bp < 32 \<and> bp_btb_mask bp = mask (bp_btb_index_bits bp) \<and>
     length (bp_btb bp) = 2 ^ bp_btb_index_bits bp \<and> (\<forall>c \<in> set (bp_bht bp). c \<le> 3)"

lemma bp_init_wf:
  assumes "bp_init bht btb = Inr bp" and "bht \<noteq> 0"
  shows "bp_wf bp \<and> (\<forall>e \<in> set (bp_btb bp). \<not> be_valid e)"
proof -
  from assms(1) obtain k where k: "log2_exact btb = Inr k" by (auto simp: bp_init_def res_bind_Inr_iff)
  note l = log2_exact_Inr [OF k]
  have u: "unat btb = 2 ^ k" and m: "btb - 1 = mask k" "k < 32" using l mask_of_pow2 [of k] by auto
  have "unat bht \<noteq> 0" using assms(2) by (simp add: unat_eq_0)
  then have "Suc (unat (bht - 1)) = unat bht" using assms(2) by (simp add: unat_minus_one)
  then show ?thesis
    using assms k m by (auto simp: bp_init_def bp_wf_def u btb_entry_init_def)
qed

lemma bht_index_less: "bp_wf bp \<Longrightarrow> bht_index bp pc < length (bp_bht bp)"
proof -
  assume wf: "bp_wf bp"
  have "drop_bit 2 pc AND bp_bht_mask bp \<le> bp_bht_mask bp" by (rule word_and_le1)
  then have "bht_index bp pc \<le> unat (bp_bht_mask bp)" by (simp add: bht_index_def word_le_nat_alt)
  then show ?thesis using wf by (simp add: bp_wf_def)
qed

lemma btb_index_less: "bp_wf bp \<Longrightarrow> btb_index bp pc < length (bp_btb bp)"
  by (simp add: btb_index_def bp_wf_def unat_and_mask_less)

text \<open>Index and tag together are the word address.\<close>

lemma btb_identifies:
  assumes "bp_wf bp"
  shows "btb_index bp a = btb_index bp b \<and> btb_tag bp a = btb_tag bp b \<longleftrightarrow>
    drop_bit 2 a = drop_bit 2 b"
proof
  assume h: "btb_index bp a = btb_index bp b \<and> btb_tag bp a = btb_tag bp b"
  let ?k = "bp_btb_index_bits bp"
  have i: "drop_bit 2 a AND mask ?k = drop_bit 2 b AND mask ?k"
    using h assms unfolding btb_index_def bp_wf_def by (metis word_unat_eq_iff)
  have t: "drop_bit ?k (drop_bit 2 a) = drop_bit ?k (drop_bit 2 b)" using h by (simp add: btb_tag_def)
  have split: "w = (w AND mask ?k) OR push_bit ?k (drop_bit ?k w)" for w :: u32
    by (rule u32_eqI) (auto simp: bit_simps, metis le_add_diff_inverse not_le)
  show "drop_bit 2 a = drop_bit 2 b"
    using split [of "drop_bit 2 a"] split [of "drop_bit 2 b"] i t by metis
qed (simp add: btb_index_def btb_tag_def)

lemma bp_update_frame [simp]:
  "bp_bht_mask (bp_update pc cnd t tg bp) = bp_bht_mask bp"
  "bp_btb_mask (bp_update pc cnd t tg bp) = bp_btb_mask bp"
  "bp_btb_index_bits (bp_update pc cnd t tg bp) = bp_btb_index_bits bp"
  "length (bp_bht (bp_update pc cnd t tg bp)) = length (bp_bht bp)"
  "length (bp_btb (bp_update pc cnd t tg bp)) = length (bp_btb bp)"
  by (simp_all add: bp_update_def Let_def)

lemma bp_index_frame [simp]:
  "bht_index (bp_update pc cnd t tg bp) = bht_index bp"
  "btb_index (bp_update pc cnd t tg bp) = btb_index bp"
  "btb_tag (bp_update pc cnd t tg bp) = btb_tag bp"
  by (simp_all add: bht_index_def btb_index_def btb_tag_def fun_eq_iff)

lemma bp_update_btb:
  "bp_btb (bp_update pc cnd t tg bp) = (bp_btb bp)[btb_index bp pc :=
     \<lparr>be_valid = True, be_tag = btb_tag bp pc, be_target = tg, be_cond = cnd\<rparr>]"
  by (simp add: bp_update_def Let_def btb_index_def btb_tag_def)

lemma bp_update_bht:
  "bp_bht (bp_update pc cnd t tg bp) =
     (if cnd then (bp_bht bp)[bht_index bp pc := counter_step t (bp_bht bp ! bht_index bp pc)] else bp_bht bp)"
  by (simp add: bp_update_def Let_def)

lemma counter_values: "(c :: u8) \<le> 3 \<Longrightarrow> c = 0 \<or> c = 1 \<or> c = 2 \<or> c = 3"
proof -
  assume "c \<le> 3"
  then have "unat c \<le> 3" by (simp add: word_le_nat_alt)
  then have "unat c = 0 \<or> unat c = 1 \<or> unat c = 2 \<or> unat c = 3" by linarith
  then show ?thesis by (auto simp: word_unat_eq_iff)
qed

lemma counter_step_le: "c \<le> 3 \<Longrightarrow> counter_step t c \<le> 3"
  by (auto simp: counter_step_def dest!: counter_values)

lemma bp_counter_le: "bp_wf bp \<Longrightarrow> bp_bht bp ! bht_index bp pc \<le> 3"
  using bht_index_less [of bp pc] by (simp add: bp_wf_def)

lemma bp_update_wf: "bp_wf bp \<Longrightarrow> bp_wf (bp_update pc cnd t tg bp)"
  using set_update_subset_insert [of "bp_bht bp" "bht_index bp pc"] counter_step_le [OF bp_counter_le, of bp t pc]
  by (fastforce simp: bp_wf_def bp_update_bht)

section \<open>What a prediction says\<close>

text \<open>The trained branch itself hits: the direction is the counter's, the target the trained one.\<close>

lemma predict_trained:
  assumes "bp_wf bp"
  shows "predict (bp_update pc cnd t tg bp) pc =
    \<lparr>pr_taken = (cnd \<longrightarrow> counter_step t (bp_bht bp ! bht_index bp pc) \<ge> 2), pr_target = tg\<rparr>"
  using btb_index_less [OF assms, of pc] bht_index_less [OF assms, of pc]
  by (simp add: predict_def Let_def bp_update_btb bp_update_bht)

text \<open>A taken prediction comes from a valid entry for the same word address.\<close>

lemma predict_taken_entry:
  assumes "pr_taken (predict bp pc)"
  obtains e where "e = bp_btb bp ! btb_index bp pc" "be_valid e" "be_tag e = btb_tag bp pc"
    "pr_target (predict bp pc) = be_target e"
  using assms by (auto simp: predict_def Let_def split: if_splits)

text \<open>
  C29: the 2-bit counters. In every reachable predictor, two outcomes in a row train a
  conditional branch to that direction and its target; after three, one deviation does not
  change the prediction; an unconditional jump is predicted taken as soon as it was seen.
  The counters stay within 0..3.
\<close>

theorem bimodal_training:
  assumes "bp_wf bp"
  shows "predict (bp_update pc True t tg (bp_update pc True t tg bp)) pc = \<lparr>pr_taken = t, pr_target = tg\<rparr> \<and>
    predict (bp_update pc True (\<not> t) tg
      (bp_update pc True t tg (bp_update pc True t tg (bp_update pc True t tg bp)))) pc =
      \<lparr>pr_taken = t, pr_target = tg\<rparr> \<and>
    predict (bp_update pc False u tg bp) pc = \<lparr>pr_taken = True, pr_target = tg\<rparr> \<and>
    bp_wf (bp_update pc cnd u tg bp)"
proof -
  let ?c = "bp_bht bp ! bht_index bp pc"
  have upd: "bp_bht (bp_update pc True u tg b) ! bht_index bp pc = counter_step u (bp_bht b ! bht_index bp pc)"
    if "bht_index b = bht_index bp" "bp_wf b" for u b
    using bht_index_less [OF that(2), of pc] that(1) by (simp add: bp_update_bht)
  from counter_values [OF bp_counter_le [OF assms, of pc]]
  have "(2 \<le> counter_step t (counter_step t ?c)) = t"
    "(2 \<le> counter_step (\<not> t) (counter_step t (counter_step t (counter_step t ?c)))) = t"
    by (auto simp: counter_step_def word_le_nat_alt word_less_nat_alt)
  then show ?thesis using assms by (simp add: predict_trained bp_update_wf upd)
qed

theorem bimodal_training_witness:
  "\<exists>bp. bp_init 4 2 = Inr bp \<and>
     predict (bp_update 8 True True 64 (bp_update 8 True True 64 bp)) 8 = \<lparr>pr_taken = True, pr_target = 64\<rparr>"
proof -
  obtain bp where bp: "bp_init 4 2 = Inr bp"
    by (simp add: bp_init_def log2_exact_def pow2_ok_def)
  then have "bp_wf bp" using bp_init_wf by auto
  from bimodal_training [OF this] bp show ?thesis by blast
qed

text \<open>
  Aliasing. Training a branch changes no prediction of an instruction in another entry of
  the target buffer other than through a shared direction counter: the hit and the target
  stay; and a word address that shares the entry but not the tag is predicted not taken.
\<close>

theorem predict_other:
  assumes "bp_wf bp" and "drop_bit 2 pc' \<noteq> drop_bit 2 pc"
  shows "if btb_index bp pc' = btb_index bp pc
    then \<not> pr_taken (predict (bp_update pc cnd t tg bp) pc')
    else pr_target (predict (bp_update pc cnd t tg bp) pc') = pr_target (predict bp pc') \<and>
      (bht_index bp pc' \<noteq> bht_index bp pc \<longrightarrow>
        predict (bp_update pc cnd t tg bp) pc' = predict bp pc')"
  using assms(2) btb_identifies [OF assms(1), of pc' pc] btb_index_less [OF assms(1), of pc]
  by (auto simp: predict_def Let_def bp_update_btb bp_update_bht)

theorem predict_other_witness:
  "\<exists>bp. bp_init 4 2 = Inr bp \<and> \<not> pr_taken (predict (bp_update 8 False True 64 bp) 16)"
proof -
  obtain bp where bp: "bp_init 4 2 = Inr bp" "btb_index bp 16 = btb_index bp 8"
    by (simp add: bp_init_def log2_exact_def pow2_ok_def btb_index_def)
  then have "bp_wf bp" using bp_init_wf by auto
  from predict_other [OF this, of 16 8] bp show ?thesis by simp
qed

end
