(* ===== verification/Fetch.thy ===== *)
theory Fetch
  imports Latch Memsys Branch_Predictor
begin

text \<open>
  The IF stage (\<open>include/cpusim/uarch/pipeline/fetch.h\<close>, \<open>src/uarch/pipeline/fetch.cpp\<close>). The
  instruction memory, the output latch and the (optional) predictor that the stage holds by
  reference are arguments; the memory and the latch are returned updated.
\<close>

record fetch_stage =
  fs_pc :: u32
  fs_next_pc :: u32
  fs_stall :: bool
  fs_redirect :: bool
  fs_redirect_target :: u32
  fs_fetch_stall :: bool

definition fetch_init :: "u32 \<Rightarrow> fetch_stage" where
  "fetch_init reset_pc = \<lparr>fs_pc = reset_pc, fs_next_pc = 0, fs_stall = False,
     fs_redirect = False, fs_redirect_target = 0, fs_fetch_stall = False\<rparr>"

definition fetch_set_stall :: "bool \<Rightarrow> fetch_stage \<Rightarrow> fetch_stage" where
  "fetch_set_stall s fs = fs\<lparr>fs_stall := s\<rparr>"

definition fetch_set_redirect :: "bool \<Rightarrow> u32 \<Rightarrow> fetch_stage \<Rightarrow> fetch_stage" where
  "fetch_set_redirect r target fs = fs\<lparr>fs_redirect := r, fs_redirect_target := target\<rparr>"

definition fetch_pc :: "fetch_stage \<Rightarrow> u32" where
  "fetch_pc fs = fs_pc fs"

definition fetch_stalling :: "fetch_stage \<Rightarrow> bool" where
  "fetch_stalling fs = fs_fetch_stall fs"

text \<open>The predicted direction and next PC.\<close>

definition fetch_predict :: "branch_predictor option \<Rightarrow> u32 \<Rightarrow> bool \<times> u32" where
  "fetch_predict bp pc =
     (case bp of
        None \<Rightarrow> (False, pc + 4)
      | Some b \<Rightarrow>
          let p = predict b pc in
          if pr_taken p then (True, pr_target p) else (False, pc + 4))"

definition fetch_evaluate ::
    "branch_predictor option \<Rightarrow> fetch_stage \<Rightarrow> mem_state \<Rightarrow> if_id latch \<Rightarrow>
     (fetch_stage \<times> mem_state \<times> if_id latch) res" where
  "fetch_evaluate bp fs imem out =
     (let (r, imem') = mem_ready (fs_pc fs) False imem;
          fs1 = fs\<lparr>fs_fetch_stall := \<not> r\<rparr>
      in
      if fs_fetch_stall fs1
      then Inr (fs1\<lparr>fs_next_pc := fs_pc fs1\<rparr>, imem', latch_write if_id_bubble out)
      else
        res_bind (mem_load_word (fst imem') (fs_pc fs1)) (\<lambda>raw.
          let (taken, predicted_pc) = fetch_predict bp (fs_pc fs1);
              result = \<lparr>ifid_pc = fs_pc fs1, ifid_raw = raw, ifid_valid = True,
                        ifid_predicted_taken = taken\<rparr>
          in Inr (fs1\<lparr>fs_next_pc := if fs_redirect fs1 then fs_redirect_target fs1 else predicted_pc\<rparr>,
                  imem', latch_write result out)))"

definition fetch_latch ::
    "fetch_stage \<Rightarrow> mem_state \<Rightarrow> if_id latch \<Rightarrow> fetch_stage \<times> mem_state \<times> if_id latch" where
  "fetch_latch fs imem out =
     (let imem' = mem_tick imem;
          (fs1, out1) =
            (if fs_redirect fs
             then (fs\<lparr>fs_pc := fs_redirect_target fs\<rparr>, latch_flush if_id_bubble out)
             else if \<not> fs_stall fs
             then ((if \<not> fs_fetch_stall fs then fs\<lparr>fs_pc := fs_next_pc fs\<rparr> else fs), latch_commit out)
             else (fs, out))
      in (fs1\<lparr>fs_stall := False, fs_redirect := False\<rparr>, imem', out1))"

end
