(* ===== verification/Regfile.thy ===== *)
theory Regfile
  imports Prelude
begin

text \<open>
  The register file, \<open>include/cpusim/regfile.h\<close>. \<open>regs_\<close> is a list of 32 words; an index
  that fails the \<open>assert\<close> is a \<open>fault\<close>. The register file is an instance of the
  interface \<open>register_bank\<close>: what is read after a write, and that register 0 stays zero.
\<close>

section \<open>Definitions (regfile.h)\<close>

record regfile =
  rf_regs :: "u32 list"

definition kNumRegs :: nat where "kNumRegs = 32"

definition regfile_init :: regfile where
  "regfile_init = \<lparr>rf_regs = replicate kNumRegs 0\<rparr>"

definition regfile_read :: "regfile \<Rightarrow> nat \<Rightarrow> u32 res" where
  "regfile_read rf idx =
     (if idx < kNumRegs then Inr (rf_regs rf ! idx) else Inl Assert_failed)"

definition regfile_write :: "regfile \<Rightarrow> nat \<Rightarrow> u32 \<Rightarrow> regfile res" where
  "regfile_write rf idx value =
     (if \<not> idx < kNumRegs then Inl Assert_failed
      else if idx = 0 then Inr rf
      else Inr (rf\<lparr>rf_regs := (rf_regs rf)[idx := value]\<rparr>))"

definition regfile_reset :: "regfile \<Rightarrow> regfile" where
  "regfile_reset rf = rf\<lparr>rf_regs := replicate kNumRegs 0\<rparr>"

definition regfile_raw :: "regfile \<Rightarrow> u32 list" where
  "regfile_raw rf = rf_regs rf"

definition regfile_eq :: "regfile \<Rightarrow> regfile \<Rightarrow> bool" where
  "regfile_eq rf other \<longleftrightarrow> rf_regs rf = rf_regs other"

definition regfile_ne :: "regfile \<Rightarrow> regfile \<Rightarrow> bool" where
  "regfile_ne rf other \<longleftrightarrow> \<not> regfile_eq rf other"

definition abi_name :: "nat \<Rightarrow> string" where
  "abi_name idx =
     [''zero'', ''ra'', ''sp'', ''gp'', ''tp'', ''t0'', ''t1'', ''t2'',
      ''s0'', ''s1'', ''a0'', ''a1'', ''a2'', ''a3'', ''a4'', ''a5'',
      ''a6'', ''a7'', ''s2'', ''s3'', ''s4'', ''s5'', ''s6'', ''s7'',
      ''s8'', ''s9'', ''s10'', ''s11'', ''t3'', ''t4'', ''t5'', ''t6''] ! idx"

section \<open>Well-formed register files\<close>

definition regfile_wf :: "regfile \<Rightarrow> bool" where
  "regfile_wf rf \<longleftrightarrow> length (rf_regs rf) = kNumRegs \<and> rf_regs rf ! 0 = 0"

section \<open>The interface\<close>

text \<open>
  What a client relies on: a bank of 32 registers of which register 0 is wired to zero.
\<close>

locale register_bank =
  fixes rd :: "'r \<Rightarrow> nat \<Rightarrow> 'v::zero res"
    and wr :: "'r \<Rightarrow> nat \<Rightarrow> 'v \<Rightarrow> 'r res"
    and inv :: "'r \<Rightarrow> bool"
  assumes rd_ok: "inv r \<Longrightarrow> i < 32 \<Longrightarrow> is_ok (rd r i)"
    and rd_fault: "\<not> i < 32 \<Longrightarrow> rd r i = Inl Assert_failed"
    and wr_ok: "inv r \<Longrightarrow> i < 32 \<Longrightarrow> is_ok (wr r i v)"
    and wr_fault: "\<not> i < 32 \<Longrightarrow> wr r i v = Inl Assert_failed"
    and wr_inv: "inv r \<Longrightarrow> wr r i v = Inr r' \<Longrightarrow> inv r'"
    and rd_zero: "inv r \<Longrightarrow> rd r 0 = Inr 0"
    and rd_wr: "inv r \<Longrightarrow> wr r i v = Inr r' \<Longrightarrow> j < 32 \<Longrightarrow>
      rd r' j = (if j = i \<and> i \<noteq> 0 then Inr v else rd r j)"
begin

text \<open>Two writes to different registers commute, as far as a reader can tell.\<close>

lemma wr_commute:
  assumes "inv r" and "i \<noteq> j" and "k < 32"
    and "wr r i v = Inr r1" and "wr r1 j w = Inr r2"
    and "wr r j w = Inr s1" and "wr s1 i v = Inr s2"
  shows "rd r2 k = rd s2 k"
  using assms rd_wr [OF assms(1) assms(4)] rd_wr [OF assms(1) assms(6)]
    rd_wr [OF wr_inv [OF assms(1) assms(4)] assms(5)]
    rd_wr [OF wr_inv [OF assms(1) assms(6)] assms(7)]
  by auto

text \<open>The last write wins.\<close>

lemma wr_wr:
  assumes "inv r" and "k < 32" and "wr r i v = Inr r1" and "wr r1 i w = Inr r2"
    and "wr r i w = Inr s"
  shows "rd r2 k = rd s k"
  using assms rd_wr [OF assms(1) assms(3)] rd_wr [OF assms(1) assms(5)]
    rd_wr [OF wr_inv [OF assms(1) assms(3)] assms(4)]
  by auto

lemma wr_zero:
  assumes "inv r" and "k < 32" and "wr r 0 v = Inr r1"
  shows "rd r1 k = rd r k"
  using rd_wr [OF assms(1,3,2)] by simp

end

interpretation rfile: register_bank regfile_read regfile_write regfile_wf
  by unfold_locales
    (auto simp: regfile_read_def regfile_write_def regfile_wf_def kNumRegs_def nth_list_update
      split: if_splits)

lemma regfile_init_wf [simp]: "regfile_wf regfile_init"
  by (simp add: regfile_wf_def regfile_init_def kNumRegs_def)

lemma regfile_reset_init: "regfile_reset rf = regfile_init"
  by (simp add: regfile_reset_def regfile_init_def)

text \<open>The register file as a function, the way the reference machine sees it.\<close>

definition reg_val :: "regfile \<Rightarrow> u8 \<Rightarrow> u32" where
  "reg_val rf r = rf_regs rf ! unat r"

lemma regfile_read_reg_val: "unat r < 32 \<Longrightarrow> regfile_read rf (unat r) = Inr (reg_val rf r)"
  by (simp add: regfile_read_def reg_val_def kNumRegs_def)

lemma reg_val_zero [simp]: "regfile_wf rf \<Longrightarrow> reg_val rf 0 = 0"
  by (simp add: reg_val_def regfile_wf_def)

lemma regfile_write_Inr:
  "unat r < 32 \<Longrightarrow> regfile_write rf (unat r) v =
     Inr (if r = 0 then rf else rf\<lparr>rf_regs := (rf_regs rf)[unat r := v]\<rparr>)"
  by (simp add: regfile_write_def kNumRegs_def unat_eq_0)

lemma reg_val_write:
  assumes "regfile_wf rf" and "regfile_write rf (unat r) v = Inr rf'" and "unat q < 32"
  shows "reg_val rf' q = (if q = r \<and> r \<noteq> 0 then v else reg_val rf q)"
proof -
  have "regfile_read rf' (unat q) = Inr (reg_val rf' q)"
    and "regfile_read rf (unat q) = Inr (reg_val rf q)"
    using assms(3) by (rule regfile_read_reg_val)+
  moreover have "unat q = unat r \<longleftrightarrow> q = r" "unat r = 0 \<longleftrightarrow> r = 0"
    by (simp_all add: word_unat_eq_iff)
  ultimately show ?thesis using rfile.rd_wr [OF assms] by (auto split: if_splits)
qed

text \<open>
  After any write to a well-formed register file that passes the bounds assertion,
  every register reads what it read before, except the written one, which reads the
  value written; register \<open>x0\<close> reads zero whatever was written to it.
\<close>

theorem regfile_read_after_write:
  assumes "regfile_wf rf" and "regfile_write rf i v = Inr rf'"
  shows "regfile_wf rf' \<and> regfile_read rf' 0 = Inr 0 \<and>
    (\<forall>j < 32. regfile_read rf' j = (if j = i \<and> i \<noteq> 0 then Inr v else regfile_read rf j))"
  using rfile.wr_inv [OF assms] rfile.rd_zero rfile.rd_wr [OF assms] by auto

theorem regfile_read_after_write_witness:
  "\<exists>rf'. regfile_write regfile_init 5 7 = Inr rf' \<and> regfile_read rf' 5 = Inr 7 \<and>
     regfile_read rf' 0 = Inr 0"
proof -
  obtain rf' where w: "regfile_write regfile_init 5 7 = Inr rf'"
    by (simp add: regfile_write_def kNumRegs_def)
  from regfile_read_after_write [OF regfile_init_wf w] w show ?thesis by auto
qed

end
