(* ===== verification/Decode_Stage.thy ===== *)
theory Decode_Stage
  imports Latch Regfile
begin

text \<open>
  The ID stage (\<open>include/cpusim/uarch/pipeline/decode.h\<close>, \<open>src/uarch/pipeline/decode.cpp\<close>). The
  register file aborts on an index above 31, so the evaluation is a result; the decoder's
  fields never make it abort.
\<close>

record decode_stage =
  ds_stall :: bool
  ds_flush :: bool

definition decode_init :: decode_stage where
  "decode_init = \<lparr>ds_stall = False, ds_flush = False\<rparr>"

definition decode_set_stall :: "bool \<Rightarrow> decode_stage \<Rightarrow> decode_stage" where
  "decode_set_stall s ds = ds\<lparr>ds_stall := s\<rparr>"

definition decode_set_flush :: "bool \<Rightarrow> decode_stage \<Rightarrow> decode_stage" where
  "decode_set_flush f ds = ds\<lparr>ds_flush := f\<rparr>"

definition decode_evaluate :: "regfile \<Rightarrow> if_id \<Rightarrow> id_ex latch \<Rightarrow> id_ex latch res" where
  "decode_evaluate rf fetch out =
     (if \<not> ifid_valid fetch then Inr (latch_write id_ex_bubble out)
      else
        let insn = decode (ifid_raw fetch) (ifid_pc fetch) in
        res_bind (regfile_read rf (unat (in_rs1 insn))) (\<lambda>v1.
        res_bind (regfile_read rf (unat (in_rs2 insn))) (\<lambda>v2.
          Inr (latch_write
            \<lparr>idex_pc = ifid_pc fetch, idex_raw = ifid_raw fetch, idex_op = in_op insn,
             idex_rd = in_rd insn, idex_rs1 = in_rs1 insn, idex_rs2 = in_rs2 insn,
             idex_imm = in_imm insn, idex_rs1_val = v1, idex_rs2_val = v2, idex_valid = True,
             idex_predicted_taken = ifid_predicted_taken fetch\<rparr> out))))"

definition decode_latch :: "decode_stage \<Rightarrow> id_ex latch \<Rightarrow> decode_stage \<times> id_ex latch" where
  "decode_latch ds out =
     (ds\<lparr>ds_stall := False, ds_flush := False\<rparr>,
      if ds_flush ds then latch_flush id_ex_bubble out
      else if \<not> ds_stall ds then latch_commit out else out)"

end
