(* ===== verification/Forward.thy ===== *)
theory Forward
  imports Latch
begin

text \<open>
  The forwarding unit (\<open>include/cpusim/uarch/pipeline/forward.h\<close>,
  \<open>src/uarch/pipeline/forward.cpp\<close>).
\<close>

record forward_unit =
  fw_prev :: mem_wb
  fw_prev_next :: mem_wb

definition forward_init :: forward_unit where
  "forward_init = \<lparr>fw_prev = mem_wb_bubble, fw_prev_next = mem_wb_bubble\<rparr>"

definition forward_evaluate :: "mem_wb \<Rightarrow> forward_unit \<Rightarrow> forward_unit" where
  "forward_evaluate wb fw = fw\<lparr>fw_prev_next := wb\<rparr>"

definition forward_latch :: "forward_unit \<Rightarrow> forward_unit" where
  "forward_latch fw = fw\<lparr>fw_prev := fw_prev_next fw\<rparr>"

definition resolve :: "forward_unit \<Rightarrow> ex_mem \<Rightarrow> mem_wb \<Rightarrow> u8 \<Rightarrow> u32 \<Rightarrow> u32" where
  "resolve fw ex wb reg cur =
     (if reg = 0 then 0
      else if exm_valid ex \<and> exm_rd ex = reg then exm_alu_out ex
      else if mwb_valid wb \<and> mwb_rd wb = reg then mwb_wb_val wb
      else if mwb_valid (fw_prev fw) \<and> mwb_rd (fw_prev fw) = reg then mwb_wb_val (fw_prev fw)
      else cur)"

end
