(* ===== verification/Execute.thy ===== *)
theory Execute
  imports Alu Fetch Decode_Stage Forward
begin

unbundle bit_operations_syntax

text \<open>
  The EX stage (\<open>include/cpusim/uarch/pipeline/execute.h\<close>, \<open>src/uarch/pipeline/execute.cpp\<close>).
  \<open>execute_latch\<close> signals the fetch and decode stages, counts the branch outcome and trains the
  predictor; the statistics are always attached, as \<open>Core\<close> constructs the stage.
\<close>

record execute_stage =
  es_redirect :: bool
  es_redirect_target :: u32
  es_control :: bool
  es_train :: bool
  es_train_pc :: u32
  es_train_cond :: bool
  es_train_taken :: bool
  es_train_target :: u32

definition execute_init :: execute_stage where
  "execute_init = \<lparr>es_redirect = False, es_redirect_target = 0, es_control = False, es_train = False,
     es_train_pc = 0, es_train_cond = False, es_train_taken = False, es_train_target = 0\<rparr>"

definition is_cond_branch :: "op \<Rightarrow> bool" where
  "is_cond_branch p \<longleftrightarrow> p \<in> {Op_BEQ, Op_BNE, Op_BLT, Op_BGE, Op_BLTU, Op_BGEU}"

definition uses_imm :: "op \<Rightarrow> bool" where
  "uses_imm p \<longleftrightarrow> p \<noteq> Op_ADD \<and> p \<noteq> Op_SUB \<and> p \<noteq> Op_AND \<and> p \<noteq> Op_OR \<and> p \<noteq> Op_XOR \<and>
     p \<noteq> Op_SLL \<and> p \<noteq> Op_SRL \<and> p \<noteq> Op_SRA \<and> p \<noteq> Op_SLT \<and> p \<noteq> Op_SLTU"

text \<open>The datapath: result, direction and target from the operands.\<close>

definition ex_alu_out :: "id_ex \<Rightarrow> u32 \<Rightarrow> u32 \<Rightarrow> u32" where
  "ex_alu_out i rs1 rs2 =
     (let a = (if idex_op i = Op_AUIPC then idex_pc i else rs1);
          b = (if uses_imm (idex_op i) then idex_imm i else rs2)
      in if idex_op i = Op_JAL \<or> idex_op i = Op_JALR then idex_pc i + 4
         else alu_exec (alu_op_for (idex_op i)) a b)"

definition ex_actual_taken :: "id_ex \<Rightarrow> u32 \<Rightarrow> u32 \<Rightarrow> bool" where
  "ex_actual_taken i rs1 rs2 =
     (if idex_op i = Op_JAL \<or> idex_op i = Op_JALR then True
      else branch_taken (idex_op i) rs1 rs2)"

definition ex_target :: "id_ex \<Rightarrow> u32 \<Rightarrow> u32" where
  "ex_target i rs1 =
     (if idex_op i = Op_JALR then (rs1 + idex_imm i) AND NOT 1 else idex_pc i + idex_imm i)"

definition execute_evaluate ::
    "bool \<Rightarrow> forward_unit \<Rightarrow> ex_mem \<Rightarrow> mem_wb \<Rightarrow> id_ex \<Rightarrow> execute_stage \<Rightarrow> ex_mem latch \<Rightarrow>
     execute_stage \<times> ex_mem latch" where
  "execute_evaluate has_bp fw exm mwb i es out =
     (if \<not> idex_valid i
      then (es\<lparr>es_redirect := False, es_train := False, es_control := False\<rparr>,
            latch_write ex_mem_bubble out)
      else
        let rs1 = resolve fw exm mwb (idex_rs1 i) (idex_rs1_val i);
            rs2 = resolve fw exm mwb (idex_rs2 i) (idex_rs2_val i);
            cnd = is_cond_branch (idex_op i);
            taken = ex_actual_taken i rs1 rs2;
            target = ex_target i rs1;
            is_jal = (idex_op i = Op_JAL);
            is_jalr = (idex_op i = Op_JALR)
        in (es\<lparr>es_redirect := (taken \<noteq> idex_predicted_taken i),
               es_redirect_target := (if taken then target else idex_pc i + 4),
               es_control := (cnd \<or> is_jal \<or> is_jalr),
               es_train := (has_bp \<and> (cnd \<or> is_jal)),
               es_train_pc := idex_pc i, es_train_cond := cnd, es_train_taken := taken,
               es_train_target := target\<rparr>,
            latch_write
              \<lparr>exm_pc = idex_pc i, exm_raw = idex_raw i, exm_op = idex_op i, exm_rd = idex_rd i,
               exm_alu_out = ex_alu_out i rs1 rs2, exm_rs2_val = rs2, exm_branch_taken = taken,
               exm_branch_target = target, exm_valid = True\<rparr> out))"

definition execute_latch ::
    "execute_stage \<Rightarrow> ex_mem latch \<Rightarrow> fetch_stage \<Rightarrow> decode_stage \<Rightarrow> branch_predictor option \<Rightarrow>
     sim_stats \<Rightarrow>
     execute_stage \<times> ex_mem latch \<times> fetch_stage \<times> decode_stage \<times> branch_predictor option \<times> sim_stats"
where
  "execute_latch es out fs ds bp st =
     (let fs' = (if es_redirect es then fetch_set_redirect True (es_redirect_target es) fs else fs);
          ds' = (if es_redirect es then decode_set_flush True ds else ds);
          st' = (if es_control es
                 then (if es_redirect es
                       then st\<lparr>st_branch_mispredicts := st_branch_mispredicts st + 1\<rparr>
                       else st\<lparr>st_branch_correct := st_branch_correct st + 1\<rparr>)
                 else st);
          bp' = (if es_train es
                 then map_option (bp_update (es_train_pc es) (es_train_cond es) (es_train_taken es)
                                    (es_train_target es)) bp
                 else bp)
      in (es\<lparr>es_redirect := False, es_train := False, es_control := False\<rparr>,
          latch_commit out, fs', ds', bp', st'))"

end
