(* ===== verification/Mem_Access.thy ===== *)
theory Mem_Access
  imports Latch Memsys
begin

unbundle bit_operations_syntax

text \<open>
  The MEM stage (\<open>include/cpusim/uarch/pipeline/mem_access.h\<close>,
  \<open>src/uarch/pipeline/mem_access.cpp\<close>): a client of the memory interface that waits until its
  access is served, then performs it once.
\<close>

record mem_stage =
  ms_stalling :: bool

definition is_store :: "op \<Rightarrow> bool" where
  "is_store p \<longleftrightarrow> p = Op_SB \<or> p = Op_SH \<or> p = Op_SW"

definition is_mem_op :: "op \<Rightarrow> bool" where
  "is_mem_op p \<longleftrightarrow> p = Op_LB \<or> p = Op_LH \<or> p = Op_LW \<or> p = Op_LBU \<or> p = Op_LHU \<or> is_store p"

text \<open>
  The access of the served cycle. \<open>wb\<close> is the result with the fields common to all
  operations; a 16- or 8-bit value is extended by its signedness.
\<close>

fun mem_access :: "op \<Rightarrow> u32 \<Rightarrow> u32 \<Rightarrow> mem_wb \<Rightarrow> memsys \<Rightarrow> (mem_wb \<times> memsys) res" where
  "mem_access Op_LW addr rs2 wb m =
     res_bind (mem_load_word m addr) (\<lambda>v. Inr (wb\<lparr>mwb_wb_val := v, mwb_mem_addr := addr\<rparr>, m))"
| "mem_access Op_LH addr rs2 wb m =
     res_bind (mem_load_half m addr) (\<lambda>v. Inr (wb\<lparr>mwb_wb_val := scast v, mwb_mem_addr := addr\<rparr>, m))"
| "mem_access Op_LHU addr rs2 wb m =
     res_bind (mem_load_half m addr) (\<lambda>v. Inr (wb\<lparr>mwb_wb_val := ucast v, mwb_mem_addr := addr\<rparr>, m))"
| "mem_access Op_LB addr rs2 wb m =
     res_bind (mem_load_byte m addr) (\<lambda>v. Inr (wb\<lparr>mwb_wb_val := scast v, mwb_mem_addr := addr\<rparr>, m))"
| "mem_access Op_LBU addr rs2 wb m =
     res_bind (mem_load_byte m addr) (\<lambda>v. Inr (wb\<lparr>mwb_wb_val := ucast v, mwb_mem_addr := addr\<rparr>, m))"
| "mem_access Op_SW addr rs2 wb m =
     res_bind (mem_store_word m addr rs2) (\<lambda>m'.
       Inr (wb\<lparr>mwb_is_store := True, mwb_mem_addr := addr, mwb_mem_val := rs2\<rparr>, m'))"
| "mem_access Op_SH addr rs2 wb m =
     res_bind (mem_store_half m addr (ucast (rs2 AND 0xFFFF))) (\<lambda>m'.
       Inr (wb\<lparr>mwb_is_store := True, mwb_mem_addr := addr, mwb_mem_val := rs2 AND 0xFFFF\<rparr>, m'))"
| "mem_access Op_SB addr rs2 wb m =
     res_bind (mem_store_byte m addr (ucast (rs2 AND 0xFF))) (\<lambda>m'.
       Inr (wb\<lparr>mwb_is_store := True, mwb_mem_addr := addr, mwb_mem_val := rs2 AND 0xFF\<rparr>, m'))"
| "mem_access _ addr rs2 wb m = Inr (wb\<lparr>mwb_wb_val := addr\<rparr>, m)"

definition mem_evaluate ::
    "ex_mem \<Rightarrow> mem_stage \<Rightarrow> mem_state \<Rightarrow> mem_wb latch \<Rightarrow> (mem_stage \<times> mem_state \<times> mem_wb latch) res"
where
  "mem_evaluate ex ms dmem out =
     (if \<not> exm_valid ex
      then Inr (ms\<lparr>ms_stalling := False\<rparr>, dmem, latch_write mem_wb_bubble out)
      else
        let (served, dmem') =
              (if is_mem_op (exm_op ex) then mem_ready (exm_alu_out ex) (is_store (exm_op ex)) dmem
               else (True, dmem))
        in if \<not> served
           then Inr (ms\<lparr>ms_stalling := True\<rparr>, dmem', latch_write mem_wb_bubble out)
           else
             let wb = mem_wb_bubble\<lparr>mwb_pc := exm_pc ex, mwb_raw := exm_raw ex, mwb_op := exm_op ex,
                                     mwb_rd := exm_rd ex, mwb_valid := True\<rparr>
             in res_bind (mem_access (exm_op ex) (exm_alu_out ex) (exm_rs2_val ex) wb (fst dmem'))
                  (\<lambda>(wb', m'). Inr (ms\<lparr>ms_stalling := False\<rparr>, (m', snd dmem'), latch_write wb' out)))"

definition mem_stalling :: "mem_stage \<Rightarrow> bool" where
  "mem_stalling ms = ms_stalling ms"

definition mem_latch :: "mem_state \<Rightarrow> mem_wb latch \<Rightarrow> mem_state \<times> mem_wb latch" where
  "mem_latch dmem out = (mem_tick dmem, latch_commit out)"

end
