(* ===== verification/Writeback.thy ===== *)
theory Writeback
  imports Latch Regfile
begin

text \<open>
  The WB stage (\<open>include/cpusim/uarch/pipeline/writeback.h\<close>,
  \<open>src/uarch/pipeline/writeback.cpp\<close>).
\<close>

record wb_stage =
  ws_pending :: bool
  ws_rd :: u8
  ws_val :: u32

definition wb_init :: wb_stage where
  "wb_init = \<lparr>ws_pending = False, ws_rd = 0, ws_val = 0\<rparr>"

definition pending_write :: "wb_stage \<Rightarrow> bool" where
  "pending_write ws = ws_pending ws"

definition pending_rd :: "wb_stage \<Rightarrow> u8" where
  "pending_rd ws = ws_rd ws"

definition pending_val :: "wb_stage \<Rightarrow> u32" where
  "pending_val ws = ws_val ws"

definition has_writeback :: "op \<Rightarrow> bool" where
  "has_writeback p \<longleftrightarrow> p \<notin> {Op_SB, Op_SH, Op_SW, Op_BEQ, Op_BNE, Op_BLT, Op_BGE, Op_BLTU, Op_BGEU,
     Op_ECALL, Op_EBREAK, Op_FENCE, Op_ILLEGAL}"

definition wb_evaluate :: "mem_wb \<Rightarrow> wb_stage \<Rightarrow> wb_stage" where
  "wb_evaluate wb ws =
     (if \<not> mwb_valid wb \<or> \<not> has_writeback (mwb_op wb)
      then ws\<lparr>ws_pending := False, ws_rd := 0, ws_val := 0\<rparr>
      else ws\<lparr>ws_pending := True, ws_rd := mwb_rd wb, ws_val := mwb_wb_val wb\<rparr>)"

definition wb_latch :: "wb_stage \<Rightarrow> regfile \<Rightarrow> (wb_stage \<times> regfile) res" where
  "wb_latch ws rf =
     res_bind (if ws_pending ws then regfile_write rf (unat (ws_rd ws)) (ws_val ws) else Inr rf)
       (\<lambda>rf'. Inr (ws\<lparr>ws_pending := False\<rparr>, rf'))"

end
