(* ===== verification/Isa.thy ===== *)
theory Isa
  imports Execute Mem_Access Writeback
begin

unbundle bit_operations_syntax

text \<open>
  The reference machine: one RV32I instruction per step over an architectural state of PC,
  registers and data bytes, with a separate, constant instruction memory (the simulator is
  Harvard-style). It is a specification, written from the ISA and independently of the stages;
  the only piece of the code it uses is \<open>decode\<close>, which \<open>Assembler\<close> relates to the encodings.

  The machine is total. \<open>ECALL\<close>, \<open>EBREAK\<close>, \<open>FENCE\<close> and an illegal instruction do nothing but
  step the PC; a load outside the data memory reads 0, a store outside it is dropped, and a
  fetch outside the instruction memory reads the word 0. Statements about the core say which
  of these can occur.

  The lemmas relate the combinational parts of EX and MEM to this machine.
\<close>

section \<open>The machine\<close>

record arch =
  a_pc :: u32
  a_regs :: "u8 \<Rightarrow> u32"
  a_mem :: byte_map

definition isa_fetch :: "byte_map \<Rightarrow> u32 \<Rightarrow> u32" where
  "isa_fetch im pc = (case load_le im pc 4 of None \<Rightarrow> 0 | Some w \<Rightarrow> w)"

text \<open>The value an instruction other than a load writes to its destination.\<close>

fun isa_result :: "op \<Rightarrow> u32 \<Rightarrow> u32 \<Rightarrow> u32 \<Rightarrow> u32 \<Rightarrow> u32" where
  "isa_result Op_ADD pc imm v1 v2 = v1 + v2"
| "isa_result Op_SUB pc imm v1 v2 = v1 - v2"
| "isa_result Op_SLL pc imm v1 v2 = push_bit (unat v2 mod 32) v1"
| "isa_result Op_SRL pc imm v1 v2 = drop_bit (unat v2 mod 32) v1"
| "isa_result Op_SRA pc imm v1 v2 = signed_drop_bit (unat v2 mod 32) v1"
| "isa_result Op_SLT pc imm v1 v2 = of_bool (sint v1 < sint v2)"
| "isa_result Op_SLTU pc imm v1 v2 = of_bool (uint v1 < uint v2)"
| "isa_result Op_AND pc imm v1 v2 = v1 AND v2"
| "isa_result Op_OR pc imm v1 v2 = v1 OR v2"
| "isa_result Op_XOR pc imm v1 v2 = v1 XOR v2"
| "isa_result Op_ADDI pc imm v1 v2 = v1 + imm"
| "isa_result Op_SLLI pc imm v1 v2 = push_bit (unat imm mod 32) v1"
| "isa_result Op_SRLI pc imm v1 v2 = drop_bit (unat imm mod 32) v1"
| "isa_result Op_SRAI pc imm v1 v2 = signed_drop_bit (unat imm mod 32) v1"
| "isa_result Op_SLTI pc imm v1 v2 = of_bool (sint v1 < sint imm)"
| "isa_result Op_SLTIU pc imm v1 v2 = of_bool (uint v1 < uint imm)"
| "isa_result Op_ANDI pc imm v1 v2 = v1 AND imm"
| "isa_result Op_ORI pc imm v1 v2 = v1 OR imm"
| "isa_result Op_XORI pc imm v1 v2 = v1 XOR imm"
| "isa_result Op_LUI pc imm v1 v2 = imm"
| "isa_result Op_AUIPC pc imm v1 v2 = pc + imm"
| "isa_result Op_JAL pc imm v1 v2 = pc + 4"
| "isa_result Op_JALR pc imm v1 v2 = pc + 4"
| "isa_result _ pc imm v1 v2 = 0"

fun isa_next_pc :: "op \<Rightarrow> u32 \<Rightarrow> u32 \<Rightarrow> u32 \<Rightarrow> u32 \<Rightarrow> u32" where
  "isa_next_pc Op_JAL pc imm v1 v2 = pc + imm"
| "isa_next_pc Op_JALR pc imm v1 v2 = (v1 + imm) AND NOT 1"
| "isa_next_pc Op_BEQ pc imm v1 v2 = (if v1 = v2 then pc + imm else pc + 4)"
| "isa_next_pc Op_BNE pc imm v1 v2 = (if v1 \<noteq> v2 then pc + imm else pc + 4)"
| "isa_next_pc Op_BLT pc imm v1 v2 = (if sint v1 < sint v2 then pc + imm else pc + 4)"
| "isa_next_pc Op_BGE pc imm v1 v2 = (if sint v1 \<ge> sint v2 then pc + imm else pc + 4)"
| "isa_next_pc Op_BLTU pc imm v1 v2 = (if uint v1 < uint v2 then pc + imm else pc + 4)"
| "isa_next_pc Op_BGEU pc imm v1 v2 = (if uint v1 \<ge> uint v2 then pc + imm else pc + 4)"
| "isa_next_pc _ pc imm v1 v2 = pc + 4"

text \<open>Loads and stores; \<open>None\<close> where the access is not backed.\<close>

fun isa_load :: "op \<Rightarrow> byte_map \<Rightarrow> u32 \<Rightarrow> u32 option" where
  "isa_load Op_LW m a = load_le m a 4"
| "isa_load Op_LH m a = map_option (\<lambda>v. scast (ucast v :: u16)) (load_le m a 2)"
| "isa_load Op_LHU m a = load_le m a 2"
| "isa_load Op_LB m a = map_option (\<lambda>v. scast (ucast v :: u8)) (load_le m a 1)"
| "isa_load Op_LBU m a = load_le m a 1"
| "isa_load _ m a = None"

fun isa_store :: "op \<Rightarrow> byte_map \<Rightarrow> u32 \<Rightarrow> u32 \<Rightarrow> byte_map option" where
  "isa_store Op_SW m a v = store_le m a 4 v"
| "isa_store Op_SH m a v = store_le m a 2 v"
| "isa_store Op_SB m a v = store_le m a 1 v"
| "isa_store _ m a v = None"

text \<open>The value a store writes, at its width.\<close>

definition isa_store_val :: "op \<Rightarrow> u32 \<Rightarrow> u32" where
  "isa_store_val p v = (if p = Op_SW then v else if p = Op_SH then v AND 0xFFFF else v AND 0xFF)"

definition isa_writes :: "op \<Rightarrow> bool" where
  "isa_writes p \<longleftrightarrow> op_fmt p \<in> {R_fmt, I_fmt, Shift_fmt, U_fmt, J_fmt}"

definition isa_is_load :: "op \<Rightarrow> bool" where
  "isa_is_load p \<longleftrightarrow> p \<in> {Op_LB, Op_LH, Op_LW, Op_LBU, Op_LHU}"

definition isa_insn :: "byte_map \<Rightarrow> arch \<Rightarrow> instruction" where
  "isa_insn im a = decode (isa_fetch im (a_pc a)) (a_pc a)"

text \<open>Operands, effective address, and the value the destination register gets.\<close>

definition isa_v1 :: "byte_map \<Rightarrow> arch \<Rightarrow> u32" where
  "isa_v1 im a = a_regs a (in_rs1 (isa_insn im a))"

definition isa_v2 :: "byte_map \<Rightarrow> arch \<Rightarrow> u32" where
  "isa_v2 im a = a_regs a (in_rs2 (isa_insn im a))"

definition isa_addr :: "byte_map \<Rightarrow> arch \<Rightarrow> u32" where
  "isa_addr im a = isa_v1 im a + in_imm (isa_insn im a)"

definition isa_value :: "byte_map \<Rightarrow> arch \<Rightarrow> u32" where
  "isa_value im a =
     (let i = isa_insn im a in
      if isa_is_load (in_op i)
      then (case isa_load (in_op i) (a_mem a) (isa_addr im a) of None \<Rightarrow> 0 | Some v \<Rightarrow> v)
      else isa_result (in_op i) (a_pc a) (in_imm i) (isa_v1 im a) (isa_v2 im a))"

definition isa_step :: "byte_map \<Rightarrow> arch \<Rightarrow> arch" where
  "isa_step im a =
     (let i = isa_insn im a in
      \<lparr>a_pc = isa_next_pc (in_op i) (a_pc a) (in_imm i) (isa_v1 im a) (isa_v2 im a),
       a_regs = (if isa_writes (in_op i) \<and> in_rd i \<noteq> 0
                 then (a_regs a)(in_rd i := isa_value im a) else a_regs a),
       a_mem = (case isa_store (in_op i) (a_mem a) (isa_addr im a) (isa_v2 im a) of
                  None \<Rightarrow> a_mem a | Some m \<Rightarrow> m)\<rparr>)"

definition isa_halting :: "op \<Rightarrow> bool" where
  "isa_halting p \<longleftrightarrow> p = Op_EBREAK \<or> p = Op_ILLEGAL"

text \<open>The state after \<open>n\<close> instructions.\<close>

definition isa_run :: "byte_map \<Rightarrow> arch \<Rightarrow> nat \<Rightarrow> arch" where
  "isa_run im a n = (isa_step im ^^ n) a"

lemma isa_run_simps [simp]:
  "isa_run im a 0 = a" "isa_run im a (Suc n) = isa_step im (isa_run im a n)"
  by (simp_all add: isa_run_def)

section \<open>The classes of operations that the stages test\<close>

lemma op_classes:
  "has_writeback p = isa_writes p"
  "is_mem_op p \<longleftrightarrow> isa_is_load p \<or> is_store p"
  "isa_is_load p \<Longrightarrow> isa_writes p"
  "is_store p \<Longrightarrow> \<not> isa_writes p"
  by (cases p; simp add: has_writeback_def isa_writes_def is_mem_op_def isa_is_load_def is_store_def)+

lemma isa_store_None: "\<not> is_store p \<Longrightarrow> isa_store p m a v = None"
  by (cases p) (simp_all add: is_store_def)

lemma isa_load_None: "\<not> isa_is_load p \<Longrightarrow> isa_load p m a = None"
  by (cases p) (simp_all add: isa_is_load_def)

section \<open>EX computes the reference machine's results\<close>

lemma ex_alu_out_isa:
  assumes "isa_writes (idex_op i)" and "\<not> isa_is_load (idex_op i)"
  shows "ex_alu_out i v1 v2 = isa_result (idex_op i) (idex_pc i) (idex_imm i) v1 v2"
  using assms
  by (cases "idex_op i")
    (simp_all add: ex_alu_out_def uses_imm_def isa_writes_def isa_is_load_def unat_shamt word_less_def)

lemma ex_alu_out_addr:
  assumes "is_mem_op (idex_op i)"
  shows "ex_alu_out i v1 v2 = v1 + idex_imm i"
  using assms
  by (cases "idex_op i") (simp_all add: ex_alu_out_def uses_imm_def is_mem_op_def is_store_def)

text \<open>The path EX selects: the target when taken, the next instruction otherwise.\<close>

lemma ex_next_pc_isa:
  "(if ex_actual_taken i v1 v2 then ex_target i v1 else idex_pc i + 4) =
     isa_next_pc (idex_op i) (idex_pc i) (idex_imm i) v1 v2"
  by (cases "idex_op i")
    (simp_all add: ex_actual_taken_def ex_target_def word_less_def word_le_def)

text \<open>An operation whose target the predictor may store: taken means \<open>pc + imm\<close>.\<close>

definition det_target :: "op \<Rightarrow> bool" where
  "det_target p \<longleftrightarrow> is_cond_branch p \<or> p = Op_JAL"

lemma det_target_isa:
  "det_target (idex_op i) \<Longrightarrow> ex_target i v1 = idex_pc i + idex_imm i"
  by (auto simp: ex_target_def det_target_def is_cond_branch_def)

lemma not_control_next:
  "\<not> ex_actual_taken i v1 v2 \<Longrightarrow>
     isa_next_pc (idex_op i) (idex_pc i) (idex_imm i) v1 v2 = idex_pc i + 4"
  using ex_next_pc_isa [of i v1 v2] by simp

section \<open>MEM performs the reference machine's accesses\<close>

lemma write_le_low: "take_bit (8 * n) v = take_bit (8 * n) w \<Longrightarrow> write_le m a n v = write_le m a n w"
proof (induction m a n v arbitrary: w rule: write_le.induct)
  case (2 m a n v)
  have b: "bit v k = bit w k" if "k < 8 * Suc n" for k
    using arg_cong [OF "2.prems", of "\<lambda>x. bit x k"] that by (simp add: bit_take_bit_iff)
  have "(ucast v :: u8) = ucast w"
    by (rule bit_word_eqI) (auto simp: bit_simps b)
  moreover have "take_bit (8 * n) (drop_bit 8 v) = take_bit (8 * n) (drop_bit 8 w)"
    by (rule u32_eqI) (auto simp: bit_simps b)
  ultimately show ?case using "2.IH" by simp
qed simp

lemma store_le_low: "take_bit (8 * n) v = take_bit (8 * n) w \<Longrightarrow> store_le m a n v = store_le m a n w"
  using write_le_low [of n v w m "unat a"] by (simp add: store_le_def)

lemma store_value_low:
  "take_bit 16 (ucast (ucast ((v :: u32) AND 0xFFFF) :: u16)) = take_bit 16 v"
  "take_bit 8 (ucast (ucast ((v :: u32) AND 0xFF) :: u8)) = take_bit 8 v"
  unfolding numeral_mask_32(7,9)
  by (rule u32_eqI; auto simp: bit_simps)+

lemma bit_u8_less: "bit (w :: u8) n \<Longrightarrow> n < 8"
  using bit_imp_le_length [of w n] by simp

lemma read_le_small: "read_le m a 2 = ucast (ucast (read_le m a 2) :: u16)"
  "read_le m a 1 = ucast (ucast (read_le m a 1) :: u8)"
proof -
  show "read_le m a 2 = ucast (ucast (read_le m a 2) :: u16)"
    unfolding read_le_numerals by (rule u32_eqI) (auto simp: bit_simps dest: bit_u8_less)
  show "read_le m a 1 = ucast (ucast (read_le m a 1) :: u8)"
    unfolding read_le_numerals by (rule u32_eqI) (auto simp: bit_simps dest: bit_u8_less)
qed

text \<open>
  A load or store that MEM performs without a fault: the value and the bytes are the
  reference machine's.
\<close>

lemma mem_access_load:
  assumes "isa_is_load p" and "mem_access p addr rs2 wb m = Inr (wb', m')"
  shows "m' = m \<and> isa_load p (mem_bytes m) addr = Some (mwb_wb_val wb') \<and>
    wb' = wb\<lparr>mwb_wb_val := mwb_wb_val wb', mwb_mem_addr := addr\<rparr>"
proof -
  have w: "load_le (mem_bytes m) addr 4 = Some v" if "mem_load_word m addr = Inr v" for v
    using mem_load_bytes(1) [of m addr] that by simp
  have h: "\<exists>u. load_le (mem_bytes m) addr 2 = Some u \<and> v = ucast u \<and> u = ucast v"
    if "mem_load_half m addr = Inr v" for v
    using mem_load_bytes(2) [of m addr] that read_le_small(1) [of "mem_bytes m" "unat addr"]
    by (auto simp: load_le_def split: if_splits)
  have b: "\<exists>u. load_le (mem_bytes m) addr 1 = Some u \<and> v = ucast u \<and> u = ucast v"
    if "mem_load_byte m addr = Inr v" for v
    using mem_load_bytes(3) [of m addr] that read_le_small(2) [of "mem_bytes m" "unat addr"]
    by (auto simp: load_le_def split: if_splits)
  from assms show ?thesis
    by (cases p) (auto simp: isa_is_load_def res_bind_Inr_iff dest!: w h b)
qed

lemma mem_access_store:
  assumes "is_store p" and "mem_access p addr rs2 wb m = Inr (wb', m')"
  shows "isa_store p (mem_bytes m) addr rs2 = Some (mem_bytes m') \<and>
    wb' = wb\<lparr>mwb_is_store := True, mwb_mem_addr := addr, mwb_mem_val := isa_store_val p rs2\<rparr>"
proof -
  have w: "store_le (mem_bytes m) addr 4 rs2 = Some (mem_bytes m')"
    if "mem_store_word m addr rs2 = Inr m'" for m'
    using mem_store_bytes(1) [of m addr rs2] that by simp
  have h: "store_le (mem_bytes m) addr 2 rs2 = Some (mem_bytes m')"
    if "mem_store_half m addr (ucast (rs2 AND 0xFFFF)) = Inr m'" for m'
    using mem_store_bytes(2) [of m addr "ucast (rs2 AND 0xFFFF)"] that
      store_le_low [of 2 "ucast (ucast (rs2 AND 0xFFFF) :: u16)" rs2 "mem_bytes m" addr] store_value_low(1) by simp
  have b: "store_le (mem_bytes m) addr 1 rs2 = Some (mem_bytes m')"
    if "mem_store_byte m addr (ucast (rs2 AND 0xFF)) = Inr m'" for m'
    using mem_store_bytes(3) [of m addr "ucast (rs2 AND 0xFF)"] that
      store_le_low [of 1 "ucast (ucast (rs2 AND 0xFF) :: u8)" rs2 "mem_bytes m" addr] store_value_low(2) by simp
  from assms show ?thesis
    by (cases p) (auto simp: is_store_def isa_store_val_def res_bind_Inr_iff dest!: w h b)
qed

lemma mem_access_other:
  assumes "\<not> is_mem_op p"
  shows "mem_access p addr rs2 wb m = Inr (wb\<lparr>mwb_wb_val := addr\<rparr>, m)"
  using assms by (cases p) (simp_all add: is_mem_op_def is_store_def)

section \<open>Decoded register fields\<close>

lemma op_fmt_split:
  "\<not> isa_writes p \<Longrightarrow> p \<noteq> Op_ILLEGAL \<Longrightarrow> op_fmt p \<in> {S_fmt, B_fmt, Bare_fmt}"
  by (cases p) (simp_all add: isa_writes_def)

lemma insn_rd_zero:
  "\<not> isa_writes (in_op (isa_insn im a)) \<Longrightarrow> in_op (isa_insn im a) \<noteq> Op_ILLEGAL \<Longrightarrow>
     in_rd (isa_insn im a) = 0"
  unfolding isa_insn_def by (intro decode_rd_zero op_fmt_split)

lemma isa_step_regs:
  "a_regs (isa_step im a) r =
     (if isa_writes (in_op (isa_insn im a)) \<and> in_rd (isa_insn im a) \<noteq> 0 \<and> r = in_rd (isa_insn im a)
      then isa_value im a else a_regs a r)"
  by (simp add: isa_step_def Let_def)

lemma isa_run_x0: "a_regs a 0 = 0 \<Longrightarrow> a_regs (isa_run im a n) 0 = 0"
  by (induction n) (simp_all add: isa_step_regs)

end
