(* ===== verification/Hazard.thy ===== *)
theory Hazard
  imports Fetch Decode_Stage
begin

unbundle bit_operations_syntax

text \<open>
  The load-use interlock (\<open>include/cpusim/uarch/hazard.h\<close>, \<open>src/uarch/hazard.cpp\<close>).
\<close>

record hazard_unit =
  hz_stall :: bool

definition is_load :: "op \<Rightarrow> bool" where
  "is_load p \<longleftrightarrow> p = Op_LB \<or> p = Op_LH \<or> p = Op_LW \<or> p = Op_LBU \<or> p = Op_LHU"

definition hazard_evaluate :: "if_id \<Rightarrow> id_ex \<Rightarrow> hazard_unit \<Rightarrow> hazard_unit" where
  "hazard_evaluate fe ex hz =
     (if \<not> idex_valid ex then hz\<lparr>hz_stall := False\<rparr>
      else if \<not> is_load (idex_op ex) \<or> idex_rd ex = 0 then hz\<lparr>hz_stall := False\<rparr>
      else
        let fe_rs1 = ucast (drop_bit 15 (ifid_raw fe) AND 0x1F) :: u8;
            fe_rs2 = ucast (drop_bit 20 (ifid_raw fe) AND 0x1F) :: u8
        in hz\<lparr>hz_stall := (idex_rd ex = fe_rs1 \<or> idex_rd ex = fe_rs2)\<rparr>)"

definition hazard_latch ::
    "hazard_unit \<Rightarrow> fetch_stage \<Rightarrow> decode_stage \<Rightarrow> hazard_unit \<times> fetch_stage \<times> decode_stage" where
  "hazard_latch hz fs ds =
     (hz\<lparr>hz_stall := False\<rparr>,
      if hz_stall hz then fetch_set_stall True fs else fs,
      if hz_stall hz then decode_set_flush True ds else ds)"

end
