(* ===== verification/Pipe_Model.thy ===== *)
theory Pipe_Model
  imports Isa Hazard
begin

unbundle bit_operations_syntax

text \<open>
  The pipeline without time: the state that decides what instructions compute, and a step
  relation in which a memory access may stall the pipeline and a fetch may deliver a bubble in
  any cycle. \<open>Core_Refinement\<close> shows that every clock cycle of the core is such a step, whatever
  the caches, latencies and prefetcher do; this theory shows that every such step keeps the
  pipeline in agreement with the reference machine.
\<close>

section \<open>State and step\<close>

record pview =
  v_regs :: "u8 \<Rightarrow> u32"
  v_w :: mem_wb
  v_p :: mem_wb
  v_x :: ex_mem
  v_d :: id_ex
  v_f :: if_id
  v_pc :: u32
  v_bp :: "branch_predictor option"
  v_dm :: byte_map

definition wb_regs :: "mem_wb \<Rightarrow> (u8 \<Rightarrow> u32) \<Rightarrow> u8 \<Rightarrow> u32" where
  "wb_regs w regs =
     (if mwb_valid w \<and> has_writeback (mwb_op w) \<and> mwb_rd w \<noteq> 0
      then regs(mwb_rd w := mwb_wb_val w) else regs)"

definition v_resolve :: "pview \<Rightarrow> u8 \<Rightarrow> u32 \<Rightarrow> u32" where
  "v_resolve v r cur = resolve \<lparr>fw_prev = v_p v, fw_prev_next = v_p v\<rparr> (v_x v) (v_w v) r cur"

definition v_op1 :: "pview \<Rightarrow> u32" where
  "v_op1 v = v_resolve v (idex_rs1 (v_d v)) (idex_rs1_val (v_d v))"

definition v_op2 :: "pview \<Rightarrow> u32" where
  "v_op2 v = v_resolve v (idex_rs2 (v_d v)) (idex_rs2_val (v_d v))"

definition v_exec :: "pview \<Rightarrow> ex_mem" where
  "v_exec v =
     (let d = v_d v in
      if \<not> idex_valid d then ex_mem_bubble
      else \<lparr>exm_pc = idex_pc d, exm_raw = idex_raw d, exm_op = idex_op d, exm_rd = idex_rd d,
            exm_alu_out = ex_alu_out d (v_op1 v) (v_op2 v), exm_rs2_val = v_op2 v,
            exm_branch_taken = ex_actual_taken d (v_op1 v) (v_op2 v),
            exm_branch_target = ex_target d (v_op1 v), exm_valid = True\<rparr>)"

definition v_redirect :: "pview \<Rightarrow> bool" where
  "v_redirect v \<longleftrightarrow> idex_valid (v_d v) \<and>
     ex_actual_taken (v_d v) (v_op1 v) (v_op2 v) \<noteq> idex_predicted_taken (v_d v)"

definition v_redirect_pc :: "pview \<Rightarrow> u32" where
  "v_redirect_pc v =
     (if ex_actual_taken (v_d v) (v_op1 v) (v_op2 v) then ex_target (v_d v) (v_op1 v)
      else idex_pc (v_d v) + 4)"

definition v_trained :: "pview \<Rightarrow> branch_predictor option" where
  "v_trained v =
     (if idex_valid (v_d v) \<and> det_target (idex_op (v_d v))
      then map_option (bp_update (idex_pc (v_d v)) (is_cond_branch (idex_op (v_d v)))
             (ex_actual_taken (v_d v) (v_op1 v) (v_op2 v)) (ex_target (v_d v) (v_op1 v))) (v_bp v)
      else v_bp v)"

definition v_hazard :: "pview \<Rightarrow> bool" where
  "v_hazard v \<longleftrightarrow> hz_stall (hazard_evaluate (v_f v) (v_d v) \<lparr>hz_stall = False\<rparr>)"

definition v_decode :: "pview \<Rightarrow> id_ex" where
  "v_decode v =
     (let f = v_f v; i = decode (ifid_raw f) (ifid_pc f) in
      if \<not> ifid_valid f then id_ex_bubble
      else \<lparr>idex_pc = ifid_pc f, idex_raw = ifid_raw f, idex_op = in_op i, idex_rd = in_rd i,
            idex_rs1 = in_rs1 i, idex_rs2 = in_rs2 i, idex_imm = in_imm i,
            idex_rs1_val = v_regs v (in_rs1 i), idex_rs2_val = v_regs v (in_rs2 i),
            idex_valid = True, idex_predicted_taken = ifid_predicted_taken f\<rparr>)"

definition v_capture :: "pview \<Rightarrow> id_ex" where
  "v_capture v =
     (if idex_valid (v_d v) then (v_d v)\<lparr>idex_rs1_val := v_op1 v, idex_rs2_val := v_op2 v\<rparr> else v_d v)"

text \<open>The access of the instruction in MEM; \<open>None\<close> where it is not backed.\<close>

definition v_access :: "ex_mem \<Rightarrow> byte_map \<Rightarrow> (mem_wb \<times> byte_map) option" where
  "v_access x dm =
     (let wb = mem_wb_bubble\<lparr>mwb_pc := exm_pc x, mwb_raw := exm_raw x, mwb_op := exm_op x,
                             mwb_rd := exm_rd x, mwb_valid := True\<rparr>
      in if \<not> exm_valid x then Some (mem_wb_bubble, dm)
         else if isa_is_load (exm_op x)
         then map_option (\<lambda>v. (wb\<lparr>mwb_wb_val := v, mwb_mem_addr := exm_alu_out x\<rparr>, dm))
                (isa_load (exm_op x) dm (exm_alu_out x))
         else if is_store (exm_op x)
         then map_option (\<lambda>dm'. (wb\<lparr>mwb_is_store := True, mwb_mem_addr := exm_alu_out x,
                  mwb_mem_val := isa_store_val (exm_op x) (exm_rs2_val x)\<rparr>, dm'))
                (isa_store (exm_op x) dm (exm_alu_out x) (exm_rs2_val x))
         else Some (wb\<lparr>mwb_wb_val := exm_alu_out x\<rparr>, dm))"

text \<open>What IF delivers: a bubble with the PC held, or the instruction at the PC.\<close>

definition v_fetched :: "byte_map \<Rightarrow> pview \<Rightarrow> if_id \<Rightarrow> u32 \<Rightarrow> bool" where
  "v_fetched im v f' pc' \<longleftrightarrow>
     f' = if_id_bubble \<and> pc' = v_pc v \<or>
     (\<exists>w. load_le im (v_pc v) 4 = Some w \<and>
        f' = \<lparr>ifid_pc = v_pc v, ifid_raw = w, ifid_valid = True,
              ifid_predicted_taken = fst (fetch_predict (v_bp v) (v_pc v))\<rparr> \<and>
        pc' = snd (fetch_predict (v_bp v) (v_pc v)))"

definition v_front :: "byte_map \<Rightarrow> pview \<Rightarrow> if_id \<Rightarrow> u32 \<Rightarrow> bool" where
  "v_front im v f' pc' \<longleftrightarrow>
     (if v_redirect v then f' = if_id_bubble \<and> pc' = v_redirect_pc v
      else if v_hazard v then f' = v_f v \<and> pc' = v_pc v
      else v_fetched im v f' pc')"

inductive pipe_step :: "byte_map \<Rightarrow> pview \<Rightarrow> pview \<Rightarrow> bool" for im where
  stall: "exm_valid (v_x v) \<Longrightarrow> is_mem_op (exm_op (v_x v)) \<Longrightarrow>
    pipe_step im v (v\<lparr>v_regs := wb_regs (v_w v) (v_regs v), v_w := mem_wb_bubble, v_p := v_w v,
                      v_d := v_capture v\<rparr>)"
| advance: "v_access (v_x v) (v_dm v) = Some (w', dm') \<Longrightarrow> v_front im v f' pc' \<Longrightarrow>
    pipe_step im v
      \<lparr>v_regs = wb_regs (v_w v) (v_regs v), v_w = w', v_p = v_w v, v_x = v_exec v,
       v_d = (if v_redirect v \<or> v_hazard v then id_ex_bubble else v_decode v),
       v_f = f', v_pc = pc', v_bp = v_trained v, v_dm = dm'\<rparr>"

inductive_cases pipe_step_cases: "pipe_step im v v'"

section \<open>Agreement of each latch with one instruction of the reference machine\<close>

definition w_ok :: "byte_map \<Rightarrow> mem_wb \<Rightarrow> arch \<Rightarrow> bool" where
  "w_ok im w s \<longleftrightarrow>
     (let i = isa_insn im s in
      mwb_pc w = a_pc s \<and> mwb_raw w = isa_fetch im (a_pc s) \<and> mwb_op w = in_op i \<and> mwb_rd w = in_rd i \<and>
      (isa_writes (in_op i) \<longrightarrow> mwb_wb_val w = isa_value im s) \<and>
      mwb_is_store w = is_store (in_op i) \<and>
      (is_mem_op (in_op i) \<longrightarrow> mwb_mem_addr w = isa_addr im s) \<and>
      (is_store (in_op i) \<longrightarrow> mwb_mem_val w = isa_store_val (in_op i) (isa_v2 im s)))"

definition x_ok :: "byte_map \<Rightarrow> ex_mem \<Rightarrow> arch \<Rightarrow> bool" where
  "x_ok im x s \<longleftrightarrow>
     (let i = isa_insn im s in
      exm_pc x = a_pc s \<and> exm_raw x = isa_fetch im (a_pc s) \<and> exm_op x = in_op i \<and> exm_rd x = in_rd i \<and>
      (isa_writes (in_op i) \<and> \<not> isa_is_load (in_op i) \<longrightarrow> exm_alu_out x = isa_value im s) \<and>
      (is_mem_op (in_op i) \<longrightarrow> exm_alu_out x = isa_addr im s) \<and>
      (is_store (in_op i) \<longrightarrow> exm_rs2_val x = isa_v2 im s))"

definition d_ok :: "byte_map \<Rightarrow> id_ex \<Rightarrow> arch \<Rightarrow> bool" where
  "d_ok im d s \<longleftrightarrow>
     (let i = isa_insn im s in
      idex_pc d = a_pc s \<and> idex_raw d = isa_fetch im (a_pc s) \<and> idex_op d = in_op i \<and>
      idex_rd d = in_rd i \<and> idex_rs1 d = in_rs1 i \<and> idex_rs2 d = in_rs2 i \<and> idex_imm d = in_imm i)"

text \<open>MEM: the access of an agreeing instruction agrees, and the memory is the next state's.\<close>

lemma v_access_ok:
  assumes "x_ok im x s" and "exm_valid x" and "v_access x (a_mem s) = Some (w', dm')"
  shows "mwb_valid w' \<and> w_ok im w' s \<and> dm' = a_mem (isa_step im s)"
proof -
  let ?i = "isa_insn im s"
  consider (load) "isa_is_load (in_op ?i)" | (store) "is_store (in_op ?i)" "\<not> isa_is_load (in_op ?i)"
    | (other) "\<not> is_mem_op (in_op ?i)" by (auto simp: op_classes(2))
  then show ?thesis
  proof cases
    case load
    then have "\<not> is_store (in_op ?i)" using op_classes(3,4) by blast
    with load assms show ?thesis
      by (auto simp: v_access_def x_ok_def w_ok_def Let_def mem_wb_bubble_def op_classes isa_value_def
          isa_step_def isa_store_None)
  next
    case store
    with assms show ?thesis
      using op_classes(4) [of "in_op ?i"]
      by (auto simp: v_access_def x_ok_def w_ok_def Let_def mem_wb_bubble_def op_classes isa_step_def)
  next
    case other
    then have "\<not> is_store (in_op ?i)" "\<not> isa_is_load (in_op ?i)" by (simp_all add: op_classes(2))
    with other assms show ?thesis
      by (auto simp: v_access_def x_ok_def w_ok_def Let_def mem_wb_bubble_def isa_step_def isa_store_None)
  qed
qed

text \<open>EX: with the right operands, the result agrees.\<close>

lemma v_exec_ok:
  assumes "d_ok im (v_d v) s" and "idex_valid (v_d v)"
    and "v_op1 v = isa_v1 im s" and "v_op2 v = isa_v2 im s"
  shows "exm_valid (v_exec v) \<and> x_ok im (v_exec v) s"
  using assms ex_alu_out_isa [of "v_d v"] ex_alu_out_addr [of "v_d v"]
  by (auto simp: v_exec_def x_ok_def d_ok_def Let_def isa_value_def isa_addr_def)

text \<open>WB: the registers become the next state's.\<close>

lemma wb_regs_ok:
  assumes "w_ok im w s" and "mwb_valid w"
  shows "wb_regs w (a_regs s) = a_regs (isa_step im s)"
  using assms by (auto simp: wb_regs_def w_ok_def Let_def fun_eq_iff isa_step_regs op_classes(1))

end
