(* ===== verification/Pipe_Invariant.thy ===== *)
theory Pipe_Invariant
  imports Pipe_Model
begin

unbundle bit_operations_syntax

text \<open>
  The invariant that ties the pipeline to the reference machine, and that every step of the
  pipeline keeps it. If \<open>n\<close> instructions have retired, the registers are those after \<open>n\<close>
  instructions; the valid latches hold, from WB to EX, the instructions \<open>n\<close>, \<open>n + 1\<close>, ... in
  order; the data memory is one instruction ahead where WB is occupied; and the instructions
  in ID and IF follow the one in EX along the predicted path.

  An instruction behind an \<open>EBREAK\<close> or an illegal one is not constrained (\<open>live\<close>): the core
  stops when the halting instruction retires, before those can.
\<close>

section \<open>The run and its live part\<close>

definition live :: "byte_map \<Rightarrow> arch \<Rightarrow> nat \<Rightarrow> bool" where
  "live im a n \<longleftrightarrow> (\<forall>k < n. \<not> isa_halting (in_op (isa_insn im (isa_run im a k))))"

lemma live_0 [simp]: "live im a 0"
  by (simp add: live_def)

lemma live_Suc: "live im a (Suc n) \<longleftrightarrow> live im a n \<and> \<not> isa_halting (in_op (isa_insn im (isa_run im a n)))"
  by (auto simp: live_def less_Suc_eq)

lemma live_mono: "live im a n \<Longrightarrow> k \<le> n \<Longrightarrow> live im a k"
  by (auto simp: live_def)

text \<open>
  The predictor drops the low two bits of a PC, so with a predictor a PC counts only when it
  is word-aligned; \<open>nb\<close> says that there is no predictor.
\<close>

definition ok_pc :: "bool \<Rightarrow> u32 \<Rightarrow> bool" where
  "ok_pc nb pc \<longleftrightarrow> nb \<or> take_bit 2 pc = 0"

section \<open>The front end\<close>

text \<open>An instruction followed by the fetch address its prediction selects.\<close>

definition link :: "bool \<Rightarrow> u32 \<Rightarrow> op \<Rightarrow> u32 \<Rightarrow> bool \<Rightarrow> u32 \<Rightarrow> bool" where
  "link nb pc p imm pred nxt \<longleftrightarrow> ok_pc nb pc \<longrightarrow>
     (pred \<longrightarrow> det_target p \<and> \<not> nb) \<and> nxt = (if pred then pc + imm else pc + 4)"

definition f_ok :: "byte_map \<Rightarrow> bool \<Rightarrow> if_id \<Rightarrow> u32 \<Rightarrow> bool" where
  "f_ok im nb f nxt \<longleftrightarrow> ifid_valid f \<longrightarrow>
     ifid_raw f = isa_fetch im (ifid_pc f) \<and>
     (let i = decode (ifid_raw f) (ifid_pc f) in
      link nb (ifid_pc f) (in_op i) (in_imm i) (ifid_predicted_taken f) nxt)"

text \<open>The address of the oldest instruction not yet in EX.\<close>

definition front_pc :: "pview \<Rightarrow> u32" where
  "front_pc v = (if ifid_valid (v_f v) then ifid_pc (v_f v) else v_pc v)"

text \<open>Every entry of the target buffer is a branch or jump of the program, with its target.\<close>

definition btb_entry_ok :: "byte_map \<Rightarrow> branch_predictor \<Rightarrow> nat \<Rightarrow> bool" where
  "btb_entry_ok im b k \<longleftrightarrow> be_valid (bp_btb b ! k) \<longrightarrow>
     (\<exists>pc. take_bit 2 pc = 0 \<and> btb_index b pc = k \<and> btb_tag b pc = be_tag (bp_btb b ! k) \<and>
        (let i = decode (isa_fetch im pc) pc in
         det_target (in_op i) \<and> be_target (bp_btb b ! k) = pc + in_imm i))"

definition bp_sound :: "byte_map \<Rightarrow> branch_predictor option \<Rightarrow> bool" where
  "bp_sound im bp \<longleftrightarrow>
     (\<forall>b. bp = Some b \<longrightarrow> bp_wf b \<and> (\<forall>k < length (bp_btb b). btb_entry_ok im b k))"

definition front_ok :: "byte_map \<Rightarrow> bool \<Rightarrow> pview \<Rightarrow> arch \<Rightarrow> bool" where
  "front_ok im nb v s \<longleftrightarrow>
     bp_sound im (v_bp v) \<and> f_ok im nb (v_f v) (v_pc v) \<and>
     (if idex_valid (v_d v)
      then d_ok im (v_d v) s \<and> v_op1 v = isa_v1 im s \<and> v_op2 v = isa_v2 im s \<and>
        (exm_valid (v_x v) \<and> isa_is_load (exm_op (v_x v)) \<and> exm_rd (v_x v) \<noteq> 0 \<longrightarrow>
           idex_rs1 (v_d v) \<noteq> exm_rd (v_x v) \<and> idex_rs2 (v_d v) \<noteq> exm_rd (v_x v)) \<and>
        link nb (idex_pc (v_d v)) (idex_op (v_d v)) (idex_imm (v_d v)) (idex_predicted_taken (v_d v))
          (front_pc v)
      else front_pc v = a_pc s)"

text \<open>The part of it that is about addresses and words only: the front end continues at \<open>p\<close>.\<close>

definition front_chain :: "byte_map \<Rightarrow> bool \<Rightarrow> pview \<Rightarrow> u32 \<Rightarrow> bool" where
  "front_chain im nb v p \<longleftrightarrow>
     bp_sound im (v_bp v) \<and> f_ok im nb (v_f v) (v_pc v) \<and>
     (if idex_valid (v_d v)
      then (\<forall>s. a_pc s = p \<longrightarrow> d_ok im (v_d v) s) \<and>
        link nb (idex_pc (v_d v)) (idex_op (v_d v)) (idex_imm (v_d v)) (idex_predicted_taken (v_d v)) (front_pc v)
      else front_pc v = p)"

lemma d_ok_pc: "d_ok im d s \<Longrightarrow> a_pc t = a_pc s \<Longrightarrow> d_ok im d t"
  by (simp add: d_ok_def isa_insn_def)

lemma front_ok_chain:
  "front_ok im nb v s \<longleftrightarrow> front_chain im nb v (a_pc s) \<and>
     (idex_valid (v_d v) \<longrightarrow> v_op1 v = isa_v1 im s \<and> v_op2 v = isa_v2 im s \<and>
        (exm_valid (v_x v) \<and> isa_is_load (exm_op (v_x v)) \<and> exm_rd (v_x v) \<noteq> 0 \<longrightarrow>
           idex_rs1 (v_d v) \<noteq> exm_rd (v_x v) \<and> idex_rs2 (v_d v) \<noteq> exm_rd (v_x v)))"
  by (auto simp: front_ok_def front_chain_def dest: d_ok_pc)

section \<open>The invariant\<close>

definition next_w :: "pview \<Rightarrow> nat \<Rightarrow> nat" where
  "next_w v n = n + of_bool (mwb_valid (v_w v))"

definition next_x :: "pview \<Rightarrow> nat \<Rightarrow> nat" where
  "next_x v n = next_w v n + of_bool (exm_valid (v_x v))"

definition pipe_inv :: "byte_map \<Rightarrow> arch \<Rightarrow> bool \<Rightarrow> nat \<Rightarrow> pview \<Rightarrow> bool" where
  "pipe_inv im a nb n v \<longleftrightarrow>
     live im a n \<and> (nb \<longleftrightarrow> v_bp v = None) \<and> v_regs v = a_regs (isa_run im a n) \<and>
     (mwb_valid (v_w v) \<longrightarrow> w_ok im (v_w v) (isa_run im a n)) \<and>
     (live im a (next_w v n) \<longrightarrow>
        v_dm v = a_mem (isa_run im a (next_w v n)) \<and>
        (exm_valid (v_x v) \<longrightarrow> x_ok im (v_x v) (isa_run im a (next_w v n)))) \<and>
     (live im a (next_x v n) \<longrightarrow> front_ok im nb v (isa_run im a (next_x v n)))"

lemma pipe_invD:
  assumes "pipe_inv im a nb n v"
  shows "live im a n" "nb \<longleftrightarrow> v_bp v = None" "v_regs v = a_regs (isa_run im a n)"
    "mwb_valid (v_w v) \<Longrightarrow> w_ok im (v_w v) (isa_run im a n)"
    "live im a (next_w v n) \<Longrightarrow> v_dm v = a_mem (isa_run im a (next_w v n))"
    "live im a (next_w v n) \<Longrightarrow> exm_valid (v_x v) \<Longrightarrow> x_ok im (v_x v) (isa_run im a (next_w v n))"
    "live im a (next_x v n) \<Longrightarrow> front_ok im nb v (isa_run im a (next_x v n))"
  using assms unfolding pipe_inv_def by blast+

section \<open>The predictor\<close>

lemma aligned_eq:
  assumes "take_bit 2 (a :: u32) = 0" and "take_bit 2 b = 0" and "drop_bit 2 a = drop_bit 2 b"
  shows "a = b"
proof -
  have "push_bit 2 (drop_bit 2 w) + take_bit 2 w = w" for w :: u32 by (rule bits_ident)
  from this [of a] this [of b] assms show ?thesis by simp
qed

lemma bp_sound_predict:
  assumes "bp_sound im (Some b)" and "take_bit 2 pc = 0" and "pr_taken (predict b pc)"
  shows "det_target (in_op (decode (isa_fetch im pc) pc)) \<and>
    pr_target (predict b pc) = pc + in_imm (decode (isa_fetch im pc) pc)"
proof -
  have wf: "bp_wf b" using assms(1) by (simp add: bp_sound_def)
  from assms(3) obtain e where e: "e = bp_btb b ! btb_index b pc" "be_valid e" "be_tag e = btb_tag b pc"
    "pr_target (predict b pc) = be_target e" by (rule predict_taken_entry)
  have "btb_entry_ok im b (btb_index b pc)"
    using assms(1) btb_index_less [OF wf] by (simp add: bp_sound_def)
  then obtain pc' where pc': "take_bit 2 pc' = 0" "btb_index b pc' = btb_index b pc"
      "btb_tag b pc' = btb_tag b pc" "det_target (in_op (decode (isa_fetch im pc') pc'))"
      "be_target e = pc' + in_imm (decode (isa_fetch im pc') pc')"
    using e by (auto simp: btb_entry_ok_def Let_def)
  then have "pc' = pc"
    using btb_identifies [OF wf, of pc' pc] aligned_eq [OF pc'(1) assms(2)] by blast
  with pc' e show ?thesis by simp
qed

lemma bp_sound_update:
  assumes "bp_sound im bp" and "take_bit 2 pc = 0" and "det_target (in_op (decode (isa_fetch im pc) pc))"
    and "tg = pc + in_imm (decode (isa_fetch im pc) pc)"
  shows "bp_sound im (map_option (bp_update pc cnd t tg) bp)"
proof (cases bp)
  case (Some b)
  have wf: "bp_wf b" using assms(1) Some by (simp add: bp_sound_def)
  have "btb_entry_ok im (bp_update pc cnd t tg b) k" if k: "k < length (bp_btb b)" for k
  proof (cases "k = btb_index b pc")
    case True
    then show ?thesis using assms(2-4) k
      by (auto simp: btb_entry_ok_def bp_update_btb Let_def intro!: exI [of _ pc])
  next
    case False
    then show ?thesis using assms(1) Some k by (simp add: bp_sound_def btb_entry_ok_def bp_update_btb)
  qed
  then show ?thesis using wf Some by (simp add: bp_sound_def bp_update_wf)
qed (simp add: bp_sound_def)

text \<open>What IF fetches from a sound predictor is linked to the next fetch address.\<close>

lemma v_fetched_ok:
  assumes "v_fetched im v f' pc'" and "bp_sound im (v_bp v)" and "nb \<longleftrightarrow> v_bp v = None"
  shows "f_ok im nb f' pc' \<and> (if ifid_valid f' then ifid_pc f' else pc') = v_pc v"
proof -
  from assms(1) consider (bubble) "f' = if_id_bubble" "pc' = v_pc v"
    | (word) w where "load_le im (v_pc v) 4 = Some w" "pc' = snd (fetch_predict (v_bp v) (v_pc v))"
      "f' = \<lparr>ifid_pc = v_pc v, ifid_raw = w, ifid_valid = True,
             ifid_predicted_taken = fst (fetch_predict (v_bp v) (v_pc v))\<rparr>"
    by (auto simp: v_fetched_def)
  then show ?thesis
  proof cases
    case bubble
    then show ?thesis by (simp add: f_ok_def)
  next
    case word
    have w: "isa_fetch im (v_pc v) = w" using word(1) by (simp add: isa_fetch_def)
    show ?thesis
    proof (cases "v_bp v")
      case None
      then show ?thesis using word w by (simp add: f_ok_def fetch_predict_def link_def)
    next
      case (Some b)
      then show ?thesis
        using word w assms(2,3) bp_sound_predict [of im b "v_pc v"]
        by (auto simp: f_ok_def fetch_predict_def link_def ok_pc_def Let_def)
    qed
  qed
qed

section \<open>Forwarding\<close>

text \<open>
  The latch of an instruction that is neither a load in EX/MEM nor illegal answers for its
  destination register, and for no other.
\<close>

lemma x_forward:
  assumes "x_ok im x s" and "in_op (isa_insn im s) \<noteq> Op_ILLEGAL" and "r \<noteq> 0"
    and "isa_is_load (exm_op x) \<and> exm_rd x \<noteq> 0 \<longrightarrow> r \<noteq> exm_rd x"
  shows "(if exm_rd x = r then exm_alu_out x else a_regs s r) = a_regs (isa_step im s) r"
proof (cases "exm_rd x = r")
  case True
  with assms have "isa_writes (in_op (isa_insn im s))" "\<not> isa_is_load (in_op (isa_insn im s))"
    using insn_rd_zero [of im s] by (auto simp: x_ok_def Let_def)
  with assms True show ?thesis by (auto simp: x_ok_def Let_def isa_step_regs)
next
  case False
  with assms(1) show ?thesis by (auto simp: x_ok_def Let_def isa_step_regs)
qed

lemma w_forward:
  assumes "w_ok im w s" and "in_op (isa_insn im s) \<noteq> Op_ILLEGAL" and "r \<noteq> 0"
  shows "(if mwb_rd w = r then mwb_wb_val w else a_regs s r) = a_regs (isa_step im s) r"
proof (cases "mwb_rd w = r")
  case True
  with assms have "isa_writes (in_op (isa_insn im s))"
    using insn_rd_zero [of im s] by (auto simp: w_ok_def Let_def)
  with assms True show ?thesis by (auto simp: w_ok_def Let_def isa_step_regs)
next
  case False
  with assms(1) show ?thesis by (auto simp: w_ok_def Let_def isa_step_regs)
qed

text \<open>
  A freshly decoded operand: read from the registers after \<open>n\<close> instructions and resolved
  against the three instructions that are then ahead of it.
\<close>

lemma resolve_fresh:
  assumes "mwb_valid p \<Longrightarrow> w_ok im p s0" "mwb_valid p \<Longrightarrow> in_op (isa_insn im s0) \<noteq> Op_ILLEGAL"
    and "s1 = (if mwb_valid p then isa_step im s0 else s0)"
    and "mwb_valid w \<Longrightarrow> w_ok im w s1" "mwb_valid w \<Longrightarrow> in_op (isa_insn im s1) \<noteq> Op_ILLEGAL"
    and "s2 = (if mwb_valid w then isa_step im s1 else s1)"
    and "exm_valid x \<Longrightarrow> x_ok im x s2" "exm_valid x \<Longrightarrow> in_op (isa_insn im s2) \<noteq> Op_ILLEGAL"
    and "s3 = (if exm_valid x then isa_step im s2 else s2)"
    and "exm_valid x \<and> isa_is_load (exm_op x) \<and> exm_rd x \<noteq> 0 \<Longrightarrow> r \<noteq> exm_rd x"
    and "a_regs s3 0 = 0"
  shows "resolve \<lparr>fw_prev = p, fw_prev_next = p'\<rparr> x w r (a_regs s0 r) = a_regs s3 r"
proof (cases "r = 0")
  case False
  have 1: "(if mwb_valid p \<and> mwb_rd p = r then mwb_wb_val p else a_regs s0 r) = a_regs s1 r"
    using w_forward [of im p s0 r] assms(1-3) False by auto
  have 2: "(if mwb_valid w \<and> mwb_rd w = r then mwb_wb_val w else a_regs s1 r) = a_regs s2 r"
    using w_forward [of im w s1 r] assms(4-6) False by auto
  have 3: "(if exm_valid x \<and> exm_rd x = r then exm_alu_out x else a_regs s2 r) = a_regs s3 r"
  proof (cases "exm_valid x")
    case True
    then have "isa_is_load (exm_op x) \<and> exm_rd x \<noteq> 0 \<longrightarrow> r \<noteq> exm_rd x" using assms(10) by blast
    from x_forward [OF assms(7,8) [OF True] False this] assms(9) True show ?thesis by simp
  qed (simp add: assms(9))
  show ?thesis using False 1 2 3 by (auto simp: resolve_def split: if_splits)
qed (simp add: resolve_def assms(11))

text \<open>
  An operand captured during a memory stall: the instruction in MEM does not answer for it, so
  the value resolved now is the value resolved once WB has drained.
\<close>

lemma resolve_captured:
  assumes "exm_valid x \<Longrightarrow> exm_rd x = 0 \<or> exm_rd x \<noteq> r"
  shows "resolve \<lparr>fw_prev = w, fw_prev_next = p'\<rparr> x mem_wb_bubble r
      (resolve \<lparr>fw_prev = p, fw_prev_next = p''\<rparr> x w r cur) =
    resolve \<lparr>fw_prev = p, fw_prev_next = p''\<rparr> x w r cur"
  using assms by (auto simp: resolve_def)

text \<open>The interlock: after a load in EX, the instruction decoded next reads another register.\<close>

lemma no_hazard_sources:
  assumes "\<not> v_hazard v" and "idex_valid (v_d v)" and "isa_is_load (idex_op (v_d v))" and "idex_rd (v_d v) \<noteq> 0"
  shows "in_rs1 (decode (ifid_raw (v_f v)) pc) \<noteq> idex_rd (v_d v) \<and>
    in_rs2 (decode (ifid_raw (v_f v)) pc) \<noteq> idex_rd (v_d v)"
proof -
  have "is_load (idex_op (v_d v))" using assms(3) by (auto simp: isa_is_load_def is_load_def)
  then have "idex_rd (v_d v) \<noteq> ucast (enc_rs1 (ifid_raw (v_f v)))"
    "idex_rd (v_d v) \<noteq> ucast (enc_rs2 (ifid_raw (v_f v)))"
    using assms by (auto simp: v_hazard_def hazard_evaluate_def Let_def enc_rs1_def enc_rs2_def)
  then show ?thesis using decode_sources [of "ifid_raw (v_f v)" pc] assms(4) by auto
qed

section \<open>Every step keeps the invariant\<close>

text \<open>Retirement of the instruction in WB, which does not halt the core.\<close>

lemma retire:
  assumes "pipe_inv im a nb n v" and "\<not> (mwb_valid (v_w v) \<and> isa_halting (mwb_op (v_w v)))"
  shows "live im a (next_w v n) \<and> wb_regs (v_w v) (v_regs v) = a_regs (isa_run im a (next_w v n))"
proof (cases "mwb_valid (v_w v)")
  case True
  then have w: "w_ok im (v_w v) (isa_run im a n)" using assms(1) by (simp add: pipe_inv_def)
  then have "mwb_op (v_w v) = in_op (isa_insn im (isa_run im a n))" by (simp add: w_ok_def Let_def)
  with wb_regs_ok [OF w True] assms True show ?thesis
    by (simp add: pipe_inv_def next_w_def live_Suc)
next
  case False
  then show ?thesis using assms(1) by (simp add: pipe_inv_def next_w_def wb_regs_def)
qed

lemma pipe_inv_stall:
  assumes inv: "pipe_inv im a nb n v" and nh: "\<not> (mwb_valid (v_w v) \<and> isa_halting (mwb_op (v_w v)))"
    and x: "exm_valid (v_x v)" "is_mem_op (exm_op (v_x v))"
    and v': "v' = v\<lparr>v_regs := wb_regs (v_w v) (v_regs v), v_w := mem_wb_bubble, v_p := v_w v, v_d := v_capture v\<rparr>"
  shows "pipe_inv im a nb (next_w v n) v'"
proof -
  note ret = retire [OF inv nh]
  have nw: "next_w v' (next_w v n) = next_w v n" by (simp add: next_w_def v')
  have nx: "next_x v' (next_w v n) = next_x v n" by (simp add: next_x_def nw) (simp add: v')
  let ?s = "isa_run im a (next_x v n)" and ?t = "isa_run im a (next_w v n)"
  have front: "front_ok im nb v' ?s" if live: "live im a (next_x v n)"
  proof (cases "idex_valid (v_d v)")
    case False
    have "front_ok im nb v ?s" using live by (rule pipe_invD(7) [OF inv])
    with False show ?thesis
      by (simp add: front_ok_def v' v_capture_def front_pc_def split: if_splits)
  next
    case True
    have f: "front_ok im nb v ?s" using live by (rule pipe_invD(7) [OF inv])
    have xok: "x_ok im (v_x v) ?t" using ret x(1) by (intro pipe_invD(6) [OF inv]) simp_all
    have "\<not> isa_halting (in_op (isa_insn im ?t))"
      using live x(1) by (simp add: next_x_def live_Suc)
    then have z: "exm_rd (v_x v) = 0" if "\<not> isa_is_load (exm_op (v_x v))"
      using that x(2) xok insn_rd_zero [of im ?t] op_classes(2,4)
      by (auto simp: x_ok_def Let_def isa_halting_def)
    have d: "v_d v' = (v_d v)\<lparr>idex_rs1_val := v_op1 v, idex_rs2_val := v_op2 v\<rparr>"
      using True by (simp add: v' v_capture_def)
    have r: "exm_rd (v_x v) = 0 \<or> exm_rd (v_x v) \<noteq> idex_rs1 (v_d v)"
      "exm_rd (v_x v) = 0 \<or> exm_rd (v_x v) \<noteq> idex_rs2 (v_d v)"
      using f True z x(1) by (auto simp: front_ok_def)
    have "v_op1 v' = v_op1 v" "v_op2 v' = v_op2 v"
      unfolding v_op1_def [of v'] v_op2_def [of v'] d
      using resolve_captured [of "v_x v" "idex_rs1 (v_d v)" "v_w v" "v_w v" "v_p v" "v_p v"]
        resolve_captured [of "v_x v" "idex_rs2 (v_d v)" "v_w v" "v_w v" "v_p v" "v_p v"] r
      by (simp_all add: v' v_resolve_def v_op1_def v_op2_def)
    moreover have "front_pc v' = front_pc v" "v_bp v' = v_bp v" "v_f v' = v_f v" "v_pc v' = v_pc v"
      "v_x v' = v_x v" by (simp_all add: v' front_pc_def)
    ultimately show ?thesis using f True by (simp add: front_ok_def d d_ok_def)
  qed
  have "v_bp v' = v_bp v" "v_regs v' = wb_regs (v_w v) (v_regs v)" "v_dm v' = v_dm v" "v_x v' = v_x v"
    "\<not> mwb_valid (v_w v')" by (simp_all add: v')
  then show ?thesis
    unfolding pipe_inv_def nw nx using front ret pipe_invD [OF inv] by metis
qed

text \<open>
  The address of the next instruction to enter EX after the one that is there: where EX
  redirects it is the redirect address, otherwise it is the head of the front end.
\<close>

lemma next_in_front:
  assumes f: "front_ok im nb v s" and al: "ok_pc nb (a_pc s)"
    and s': "s' = (if idex_valid (v_d v) then isa_step im s else s)"
  shows "a_pc s' = (if v_redirect v then v_redirect_pc v else front_pc v)"
proof (cases "idex_valid (v_d v)")
  case True
  let ?d = "v_d v" and ?i = "isa_insn im s"
  have d: "d_ok im ?d s" and op: "v_op1 v = isa_v1 im s" "v_op2 v = isa_v2 im s"
    and l: "link nb (idex_pc ?d) (idex_op ?d) (idex_imm ?d) (idex_predicted_taken ?d) (front_pc v)"
    using f True by (simp_all add: front_ok_def)
  have nxt: "a_pc s' = (if ex_actual_taken ?d (v_op1 v) (v_op2 v) then ex_target ?d (v_op1 v) else idex_pc ?d + 4)"
    using ex_next_pc_isa [of ?d "v_op1 v" "v_op2 v"] d op True s'
    by (simp add: d_ok_def Let_def isa_step_def)
  show ?thesis
  proof (cases "v_redirect v")
    case False
    then have pred: "ex_actual_taken ?d (v_op1 v) (v_op2 v) = idex_predicted_taken ?d"
      using True by (simp add: v_redirect_def)
    have "ok_pc nb (idex_pc ?d)" using al d by (simp add: d_ok_def Let_def)
    with l have "(idex_predicted_taken ?d \<longrightarrow> det_target (idex_op ?d) \<and> \<not> nb) \<and>
        front_pc v = (if idex_predicted_taken ?d then idex_pc ?d + idex_imm ?d else idex_pc ?d + 4)"
      by (simp add: link_def)
    with nxt pred False det_target_isa [of ?d "v_op1 v"] show ?thesis by auto
  qed (simp add: nxt v_redirect_pc_def)
next
  case False
  with f s' show ?thesis by (simp add: front_ok_def v_redirect_def)
qed

text \<open>The predictor stays sound: what EX trains is a branch or jump of the program.\<close>

lemma trained_sound:
  assumes f: "front_ok im nb v s" and al: "ok_pc nb (a_pc s)" and nb: "nb \<longleftrightarrow> v_bp v = None"
  shows "bp_sound im (v_trained v)"
proof (cases "idex_valid (v_d v) \<and> det_target (idex_op (v_d v)) \<and> v_bp v \<noteq> None")
  case True
  have d: "d_ok im (v_d v) s" using f True by (simp add: front_ok_def)
  have pc: "idex_pc (v_d v) = a_pc s" "idex_op (v_d v) = in_op (decode (isa_fetch im (a_pc s)) (a_pc s))"
    "idex_imm (v_d v) = in_imm (decode (isa_fetch im (a_pc s)) (a_pc s))"
    using d by (simp_all add: d_ok_def Let_def isa_insn_def)
  have "ex_target (v_d v) (v_op1 v) = idex_pc (v_d v) + idex_imm (v_d v)"
    using True det_target_isa by blast
  moreover have "take_bit 2 (a_pc s) = 0" using al nb True by (simp add: ok_pc_def)
  moreover have "bp_sound im (v_bp v)" using f by (simp add: front_ok_def)
  ultimately have "bp_sound im (map_option (bp_update (a_pc s) (is_cond_branch (idex_op (v_d v)))
      (ex_actual_taken (v_d v) (v_op1 v) (v_op2 v)) (ex_target (v_d v) (v_op1 v))) (v_bp v))"
    using True pc by (intro bp_sound_update) simp_all
  then show ?thesis using True pc by (simp add: v_trained_def)
next
  case False
  then show ?thesis using f by (auto simp: v_trained_def front_ok_def bp_sound_def)
qed

text \<open>
  The front end after an advance: it continues at the redirect address, or at the address
  that followed the instruction in EX.
\<close>

lemma front_chain_advance:
  assumes bp: "bp_sound im (v_bp v)" "bp_sound im (v_trained v)" and nb: "nb \<longleftrightarrow> v_bp v = None"
    and f: "f_ok im nb (v_f v) (v_pc v)" and fr: "v_front im v f' pc'"
    and v': "v_d v' = (if v_redirect v \<or> v_hazard v then id_ex_bubble else v_decode v)"
      "v_f v' = f'" "v_pc v' = pc'" "v_bp v' = v_trained v"
  shows "front_chain im nb v' (if v_redirect v then v_redirect_pc v else front_pc v)"
proof -
  consider (redirect) "v_redirect v" | (hazard) "\<not> v_redirect v" "v_hazard v"
    | (flow) "\<not> v_redirect v" "\<not> v_hazard v" by blast
  then show ?thesis
  proof cases
    case redirect
    then show ?thesis using fr bp(2) by (simp add: v_front_def front_chain_def v' f_ok_def front_pc_def)
  next
    case hazard
    then show ?thesis using fr bp(2) f by (simp add: v_front_def front_chain_def v' front_pc_def)
  next
    case flow
    then have "v_fetched im v f' pc'" using fr by (simp add: v_front_def)
    note fe = v_fetched_ok [OF this bp(1) nb]
    show ?thesis
    proof (cases "ifid_valid (v_f v)")
      case False
      then have "\<not> idex_valid (v_d v')" using flow by (simp add: v' v_decode_def Let_def)
      then show ?thesis using fe bp(2) flow False by (auto simp: front_chain_def v' front_pc_def)
    next
      case True
      have raw: "ifid_raw (v_f v) = isa_fetch im (ifid_pc (v_f v))" using f True by (simp add: f_ok_def)
      have d: "v_d v' = v_decode v" using flow by (simp add: v')
      have "idex_valid (v_d v')" "\<forall>s. a_pc s = ifid_pc (v_f v) \<longrightarrow> d_ok im (v_d v') s"
        using True raw unfolding d by (simp_all add: v_decode_def d_ok_def isa_insn_def Let_def)
      moreover have "front_pc v' = v_pc v" using fe by (simp add: v' front_pc_def split: if_splits)
      then have "link nb (idex_pc (v_d v')) (idex_op (v_d v')) (idex_imm (v_d v'))
          (idex_predicted_taken (v_d v')) (front_pc v')"
        using f True unfolding d by (auto simp: f_ok_def v_decode_def Let_def)
      ultimately show ?thesis using fe bp(2) flow True by (simp add: front_chain_def v' front_pc_def [of v])
    qed
  qed
qed

lemma front_ok_advance:
  assumes f: "front_ok im nb v s" and al: "ok_pc nb (a_pc s)" and nb: "nb \<longleftrightarrow> v_bp v = None"
    and s': "s' = (if idex_valid (v_d v) then isa_step im s else s)"
    and fr: "v_front im v f' pc'"
    and v': "v' = \<lparr>v_regs = rg, v_w = w', v_p = v_w v, v_x = v_exec v,
       v_d = (if v_redirect v \<or> v_hazard v then id_ex_bubble else v_decode v),
       v_f = f', v_pc = pc', v_bp = v_trained v, v_dm = dm'\<rparr>"
    and ops: "idex_valid (v_d v') \<Longrightarrow> d_ok im (v_d v') s' \<Longrightarrow> v_op1 v' = isa_v1 im s' \<and> v_op2 v' = isa_v2 im s'"
  shows "front_ok im nb v' s'"
proof -
  have "bp_sound im (v_bp v)" "f_ok im nb (v_f v) (v_pc v)" using f by (simp_all add: front_ok_def)
  from front_chain_advance [OF this(1) trained_sound [OF f al nb] nb this(2) fr, of v']
  have ch: "front_chain im nb v' (a_pc s')" by (simp add: v' next_in_front [OF f al s'])
  have "exm_valid (v_x v') \<and> isa_is_load (exm_op (v_x v')) \<and> exm_rd (v_x v') \<noteq> 0 \<longrightarrow>
      idex_rs1 (v_d v') \<noteq> exm_rd (v_x v') \<and> idex_rs2 (v_d v') \<noteq> exm_rd (v_x v')" if "idex_valid (v_d v')"
    using no_hazard_sources [of v "ifid_pc (v_f v)"] that
    by (auto simp: v' v_exec_def v_decode_def Let_def split: if_splits)
  with ch ops show ?thesis by (simp add: front_ok_chain front_chain_def)
qed

lemma pipe_inv_advance:
  assumes inv: "pipe_inv im a nb n v" and nh: "\<not> (mwb_valid (v_w v) \<and> isa_halting (mwb_op (v_w v)))"
    and x0: "a_regs a 0 = 0" and al: "\<forall>k. live im a k \<longrightarrow> ok_pc nb (a_pc (isa_run im a k))"
    and acc: "v_access (v_x v) (v_dm v) = Some (w', dm')" and fr: "v_front im v f' pc'"
    and v': "v' = \<lparr>v_regs = wb_regs (v_w v) (v_regs v), v_w = w', v_p = v_w v, v_x = v_exec v,
       v_d = (if v_redirect v \<or> v_hazard v then id_ex_bubble else v_decode v),
       v_f = f', v_pc = pc', v_bp = v_trained v, v_dm = dm'\<rparr>"
  shows "pipe_inv im a nb (next_w v n) v'"
proof -
  note ret = retire [OF inv nh] and D = pipe_invD [OF inv]
  let ?s0 = "isa_run im a n" and ?s1 = "isa_run im a (next_w v n)" and ?s2 = "isa_run im a (next_x v n)"
  have s1: "?s1 = (if mwb_valid (v_w v) then isa_step im ?s0 else ?s0)" by (simp add: next_w_def)
  have s2: "?s2 = (if exm_valid (v_x v) then isa_step im ?s1 else ?s1)" by (simp add: next_x_def)
  have w': "mwb_valid w' = exm_valid (v_x v)"
    "exm_valid (v_x v) \<Longrightarrow> w_ok im w' ?s1 \<and> dm' = a_mem (isa_step im ?s1)"
    "\<not> exm_valid (v_x v) \<Longrightarrow> dm' = v_dm v"
    using acc v_access_ok [of im "v_x v" ?s1 w' dm'] D(5,6) ret
    by (cases "exm_valid (v_x v)"; auto simp: v_access_def)+
  have fld: "v_w v' = w'" "v_x v' = v_exec v" by (simp_all add: v')
  have nw: "next_w v' (next_w v n) = next_x v n" by (simp add: next_w_def [of v'] next_x_def fld w'(1))
  define m' where "m' = next_x v n + of_bool (idex_valid (v_d v))"
  have nx: "next_x v' (next_w v n) = m'"
    by (simp add: next_x_def [of v'] nw m'_def fld) (simp add: v_exec_def Let_def)
  have dm: "dm' = a_mem ?s2" using w' D(5) ret s2 by (cases "exm_valid (v_x v)") simp_all
  have xok: "x_ok im (v_exec v) ?s2" if "live im a (next_x v n)" "idex_valid (v_d v)"
    using D(7) [OF that(1)] that(2) v_exec_ok [of im v ?s2] by (simp add: front_ok_def)
  have xv: "exm_valid (v_exec v) = idex_valid (v_d v)" by (simp add: v_exec_def Let_def)
  have front: "front_ok im nb v' (isa_run im a m')" if live: "live im a m'"
  proof -
    have lx: "live im a (next_x v n)" using live_mono [OF live] by (simp add: m'_def)
    let ?s3 = "isa_run im a m'"
    have s3: "?s3 = (if idex_valid (v_d v) then isa_step im ?s2 else ?s2)" by (simp add: m'_def)
    have leg: "in_op (isa_insn im ?s0) \<noteq> Op_ILLEGAL" if "mwb_valid (v_w v)"
      using live_mono [OF live, of "Suc n"] that by (simp add: m'_def next_x_def next_w_def live_Suc isa_halting_def)
    have leg1: "in_op (isa_insn im ?s1) \<noteq> Op_ILLEGAL" if "exm_valid (v_x v)"
      using live_mono [OF live, of "Suc (next_w v n)"] that by (simp add: m'_def next_x_def live_Suc isa_halting_def)
    have leg2: "in_op (isa_insn im ?s2) \<noteq> Op_ILLEGAL" if "idex_valid (v_d v)"
      using live that by (simp add: m'_def live_Suc isa_halting_def)
    have res: "resolve \<lparr>fw_prev = v_w v, fw_prev_next = v_w v\<rparr> (v_exec v) w' r (a_regs ?s0 r) = a_regs ?s3 r"
      if "exm_valid (v_exec v) \<and> isa_is_load (exm_op (v_exec v)) \<and> exm_rd (v_exec v) \<noteq> 0 \<Longrightarrow> r \<noteq> exm_rd (v_exec v)" for r
      using D(4) leg s1 _ _ _ _ _ _ that isa_run_x0 [OF x0]
      by (rule resolve_fresh) (use w' leg1 s2 xok [OF lx] xv leg2 s3 in auto)
    have "v_op1 v' = isa_v1 im ?s3 \<and> v_op2 v' = isa_v2 im ?s3"
      if dv: "idex_valid (v_d v')" "d_ok im (v_d v') ?s3"
    proof -
      have nrh: "\<not> v_redirect v" "\<not> v_hazard v" and fv: "ifid_valid (v_f v)" and d: "v_d v' = v_decode v"
        using dv(1) by (auto simp: v' v_decode_def Let_def split: if_splits)
      have fields: "idex_rs1 (v_d v') = in_rs1 (decode (ifid_raw (v_f v)) (ifid_pc (v_f v)))"
        "idex_rs2 (v_d v') = in_rs2 (decode (ifid_raw (v_f v)) (ifid_pc (v_f v)))"
        "idex_rs1_val (v_d v') = a_regs ?s0 (idex_rs1 (v_d v'))"
        "idex_rs2_val (v_d v') = a_regs ?s0 (idex_rs2 (v_d v'))"
        using fv D(3) unfolding d by (simp_all add: v_decode_def Let_def)
      have "r \<noteq> exm_rd (v_exec v)"
        if "r = idex_rs1 (v_d v') \<or> r = idex_rs2 (v_d v')"
          "exm_valid (v_exec v) \<and> isa_is_load (exm_op (v_exec v)) \<and> exm_rd (v_exec v) \<noteq> 0" for r
        using no_hazard_sources [OF nrh(2), of "ifid_pc (v_f v)"] that fields(1,2)
        by (auto simp: v_exec_def Let_def split: if_splits)
      then have "v_op1 v' = a_regs ?s3 (idex_rs1 (v_d v'))" "v_op2 v' = a_regs ?s3 (idex_rs2 (v_d v'))"
        unfolding v_op1_def v_op2_def v_resolve_def fields(3,4)
        using res [of "idex_rs1 (v_d v')"] res [of "idex_rs2 (v_d v')"] by (simp_all add: v')
      with dv(2) show ?thesis by (simp add: d_ok_def Let_def isa_v1_def isa_v2_def)
    qed
    with front_ok_advance [OF D(7) [OF lx] al [rule_format, OF lx] D(2) s3 fr v'] show ?thesis by blast
  qed
  have bp: "nb \<longleftrightarrow> v_bp v' = None" using D(2) by (simp add: v' v_trained_def)
  have "w_ok im (v_w v') ?s1" if "mwb_valid (v_w v')" using that w' by (simp add: v')
  moreover have "v_regs v' = a_regs ?s1" using ret by (simp add: v')
  moreover have "x_ok im (v_x v') ?s2" if "live im a (next_x v n)" "exm_valid (v_x v')"
    using xok that xv by (simp add: v')
  moreover have "v_dm v' = a_mem ?s2" using dm by (simp add: v')
  ultimately show ?thesis
    unfolding pipe_inv_def nw nx using ret front bp by blast
qed

text \<open>Both together: one step retires the instruction in WB and keeps the invariant.\<close>

lemma pipe_step_inv:
  assumes "pipe_step im v v'" and "pipe_inv im a nb n v"
    and "\<not> (mwb_valid (v_w v) \<and> isa_halting (mwb_op (v_w v)))"
    and "a_regs a 0 = 0" and "\<forall>k. live im a k \<longrightarrow> ok_pc nb (a_pc (isa_run im a k))"
  shows "pipe_inv im a nb (next_w v n) v'"
  using assms(1)
proof (cases rule: pipe_step.cases)
  case stall
  then show ?thesis by (intro pipe_inv_stall [OF assms(2,3)])
next
  case (advance w' dm' f' pc')
  from pipe_inv_advance [OF assms(2,3,4,5) advance(2,3,1)] show ?thesis .
qed

end
