(* ===== verification/Pipe_Safety.thy ===== *)
theory Pipe_Safety
  imports Pipe_Invariant
begin

text \<open>
  Progress of the pipeline without time: a condition on the program under which no access of
  the pipeline, on a wrong path or behind the halting instruction included, leaves the
  memories. The shape is that of a type-soundness proof: an invariant that implies that the
  next step exists, and that every step preserves.
\<close>

section \<open>The condition on the program\<close>

text \<open>
  Every address IF can reach from \<open>p\<close> in \<open>k\<close> predictions is backed by the instruction memory:
  the next instruction, and with a predictor (\<open>nb\<close> false) the target of a branch or \<open>JAL\<close>.
\<close>

primrec fetchable :: "bool \<Rightarrow> byte_map \<Rightarrow> nat \<Rightarrow> u32 \<Rightarrow> bool" where
  "fetchable nb im 0 p \<longleftrightarrow> load_le im p 4 \<noteq> None"
| "fetchable nb im (Suc k) p \<longleftrightarrow> load_le im p 4 \<noteq> None \<and> ok_pc nb p \<and> fetchable nb im k (p + 4) \<and>
     (\<not> nb \<and> det_target (in_op (decode (isa_fetch im p) p)) \<longrightarrow>
        fetchable nb im k (p + in_imm (decode (isa_fetch im p) p)))"

text \<open>An instruction that neither accesses memory nor changes the flow of control.\<close>

definition plain_op :: "op \<Rightarrow> bool" where
  "plain_op p \<longleftrightarrow> \<not> is_mem_op p \<and> \<not> det_target p \<and> p \<noteq> Op_JALR"

definition access_ok :: "byte_map \<Rightarrow> arch \<Rightarrow> bool" where
  "access_ok im s \<longleftrightarrow>
     (let p = in_op (isa_insn im s) in
      (isa_is_load p \<longrightarrow> isa_load p (a_mem s) (isa_addr im s) \<noteq> None) \<and>
      (is_store p \<longrightarrow> isa_store p (a_mem s) (isa_addr im s) (isa_v2 im s) \<noteq> None))"

text \<open>
  Safe: the run of the reference machine stays inside the memories, with room for two
  instructions of look-ahead at every address, and for four behind the halting instruction,
  of which the first is plain. (A load, store or jump right behind an \<open>EBREAK\<close> is executed
  before the \<open>EBREAK\<close> retires.)
\<close>

definition program_safe :: "bool \<Rightarrow> byte_map \<Rightarrow> arch \<Rightarrow> bool" where
  "program_safe nb im a \<longleftrightarrow>
     (\<forall>j. live im a j \<longrightarrow>
       (let s = isa_run im a j; pc = a_pc s in
        if isa_halting (in_op (isa_insn im s))
        then fetchable nb im 4 pc \<and> plain_op (in_op (decode (isa_fetch im (pc + 4)) (pc + 4)))
        else fetchable nb im 2 pc \<and> access_ok im s))"

declare fetchable.simps(2) [simp del]

lemma fetchable_less: "fetchable nb im (Suc k) p \<Longrightarrow> fetchable nb im k p"
proof (induction k arbitrary: p)
  case (Suc k)
  from Suc.prems show ?case
    unfolding fetchable.simps(2) [of nb im "Suc k" p] fetchable.simps(2) [of nb im k p] using Suc.IH by blast
qed (simp add: fetchable.simps(2))

lemma fetchable_mono:
  assumes "fetchable nb im n p" and "k \<le> n"
  shows "fetchable nb im k p"
  using assms by (induction n) (auto simp: le_Suc_eq dest: fetchable_less)

lemma fetchable_mapped: "fetchable nb im k p \<Longrightarrow> load_le im p 4 \<noteq> None"
  by (cases k) (auto simp: fetchable.simps(2))

lemma fetchable_link:
  assumes "fetchable nb im (Suc k) p"
    and "link nb p (in_op (decode (isa_fetch im p) p)) (in_imm (decode (isa_fetch im p) p)) pred nxt"
  shows "fetchable nb im k nxt"
  using assms unfolding fetchable.simps(2) link_def by (cases pred) simp_all

section \<open>The invariant\<close>

text \<open>A front end that continues at \<open>p\<close> fetches at most two predictions away from it.\<close>

lemma front_chain_d:
  assumes "front_chain im nb v p" and "idex_valid (v_d v)"
  shows "idex_op (v_d v) = in_op (decode (isa_fetch im p) p) \<and>
    link nb p (in_op (decode (isa_fetch im p) p)) (in_imm (decode (isa_fetch im p) p))
      (idex_predicted_taken (v_d v)) (front_pc v)"
proof -
  have "d_ok im (v_d v) \<lparr>a_pc = p, a_regs = r, a_mem = m\<rparr>" for r m
    using assms by (simp add: front_chain_def)
  then have f: "idex_pc (v_d v) = p" "idex_op (v_d v) = in_op (decode (isa_fetch im p) p)"
    "idex_imm (v_d v) = in_imm (decode (isa_fetch im p) p)" by (simp_all add: d_ok_def isa_insn_def Let_def)
  have "link nb (idex_pc (v_d v)) (idex_op (v_d v)) (idex_imm (v_d v)) (idex_predicted_taken (v_d v)) (front_pc v)"
    using assms by (simp add: front_chain_def)
  from this [unfolded f] f(2) show ?thesis by blast
qed

lemma front_pc_fetchable:
  assumes "front_chain im nb v p" and "fetchable nb im (Suc k) p"
  shows "fetchable nb im k (front_pc v)"
proof (cases "idex_valid (v_d v)")
  case True
  from assms(2) conjunct2 [OF front_chain_d [OF assms(1) True]] show ?thesis by (rule fetchable_link)
next
  case False
  then show ?thesis using assms(1) fetchable_less [OF assms(2)] by (simp add: front_chain_def)
qed

lemma front_chain_fetchable:
  assumes "front_chain im nb v p" and "fetchable nb im (Suc (Suc k)) p"
  shows "fetchable nb im k (v_pc v)"
proof (cases "ifid_valid (v_f v)")
  case True
  let ?p = "ifid_pc (v_f v)"
  have l: "link nb ?p (in_op (decode (isa_fetch im ?p) ?p)) (in_imm (decode (isa_fetch im ?p) ?p))
      (ifid_predicted_taken (v_f v)) (v_pc v)"
    using assms(1) True by (auto simp: front_chain_def f_ok_def Let_def)
  have "front_pc v = ?p" using True by (simp add: front_pc_def)
  with front_pc_fetchable [OF assms] have "fetchable nb im (Suc k) ?p" by simp
  from this l show ?thesis by (rule fetchable_link)
next
  case False
  then show ?thesis using fetchable_less [OF front_pc_fetchable [OF assms]] by (simp add: front_pc_def)
qed

text \<open>
  Beside the agreement with the reference machine: when the halting instruction is in MEM, the
  front end continues behind it; when it is in WB, the fetch address is backed and MEM
  holds no memory access.
\<close>

definition safe_inv :: "byte_map \<Rightarrow> arch \<Rightarrow> bool \<Rightarrow> nat \<Rightarrow> pview \<Rightarrow> bool" where
  "safe_inv im a nb n v \<longleftrightarrow>
     pipe_inv im a nb n v \<and>
     (live im a (next_w v n) \<and> \<not> live im a (next_x v n) \<longrightarrow>
        front_chain im nb v (a_pc (isa_run im a (next_x v n)))) \<and>
     (\<not> live im a (next_w v n) \<longrightarrow>
        load_le im (v_pc v) 4 \<noteq> None \<and> (exm_valid (v_x v) \<longrightarrow> \<not> is_mem_op (exm_op (v_x v))))"

lemma halting_in_MEM:
  assumes "live im a (next_w v n)" and "\<not> live im a (next_x v n)"
  shows "exm_valid (v_x v) \<and> next_x v n = Suc (next_w v n) \<and>
    isa_halting (in_op (isa_insn im (isa_run im a (next_w v n))))"
  using assms by (cases "exm_valid (v_x v)") (simp_all add: next_x_def live_Suc)

lemma safe_live:
  assumes "program_safe nb im a" and "live im a j"
  shows "fetchable nb im 2 (a_pc (isa_run im a j))"
  using assms fetchable_mono [of nb im 4 "a_pc (isa_run im a j)" 2]
  by (auto simp: program_safe_def Let_def split: if_splits)

lemma safe_access:
  assumes "program_safe nb im a" and "live im a j"
  shows "access_ok im (isa_run im a j)"
proof (cases "isa_halting (in_op (isa_insn im (isa_run im a j)))")
  case True
  then show ?thesis by (auto simp: access_ok_def Let_def isa_halting_def isa_is_load_def is_store_def)
next
  case False
  then show ?thesis using assms by (auto simp: program_safe_def Let_def)
qed

lemma safe_halt:
  assumes "program_safe nb im a" and "live im a j" and "isa_halting (in_op (isa_insn im (isa_run im a j)))"
  defines "q \<equiv> a_pc (isa_run im a (Suc j))"
  shows "fetchable nb im 3 q \<and> plain_op (in_op (decode (isa_fetch im q) q))"
proof -
  have "q = a_pc (isa_run im a j) + 4"
    using assms(3) by (auto simp: q_def isa_step_def isa_halting_def Let_def)
  moreover have "fetchable nb im (Suc 3) (a_pc (isa_run im a j)) \<and>
      plain_op (in_op (decode (isa_fetch im (a_pc (isa_run im a j) + 4)) (a_pc (isa_run im a j) + 4)))"
    using assms(1-3) by (simp add: program_safe_def Let_def)
  ultimately show ?thesis unfolding fetchable.simps(2) by simp
qed

text \<open>The invariant excludes both reasons for which a cycle can abort.\<close>

lemma safe_progress:
  assumes "safe_inv im a nb n v" and "program_safe nb im a"
  shows "load_le im (v_pc v) 4 \<noteq> None \<and>
    (exm_valid (v_x v) \<and> is_mem_op (exm_op (v_x v)) \<longrightarrow> v_access (v_x v) (v_dm v) \<noteq> None)"
proof -
  have inv: "pipe_inv im a nb n v" using assms(1) by (simp add: safe_inv_def)
  have acc: "v_access (v_x v) (v_dm v) \<noteq> None" if "live im a (next_w v n)" "exm_valid (v_x v)"
  proof -
    have "x_ok im (v_x v) (isa_run im a (next_w v n))" "v_dm v = a_mem (isa_run im a (next_w v n))"
      using pipe_invD(5,6) [OF inv] that by blast+
    with safe_access [OF assms(2) that(1)] show ?thesis
      by (auto simp: v_access_def x_ok_def access_ok_def Let_def op_classes(2))
  qed
  consider (live) "live im a (next_x v n)" | (mem) "live im a (next_w v n)" "\<not> live im a (next_x v n)"
    | (wb) "\<not> live im a (next_w v n)" using live_mono by blast
  then show ?thesis
  proof cases
    case live
    have "front_chain im nb v (a_pc (isa_run im a (next_x v n)))"
      using pipe_invD(7) [OF inv live] by (simp add: front_ok_chain)
    moreover have "fetchable nb im (Suc (Suc 0)) (a_pc (isa_run im a (next_x v n)))"
      using safe_live [OF assms(2) live] unfolding numeral_2_eq_2 .
    ultimately have "load_le im (v_pc v) 4 \<noteq> None" by (rule fetchable_mapped [OF front_chain_fetchable])
    moreover have "live im a (next_w v n)" using live by (rule live_mono) (simp add: next_x_def)
    ultimately show ?thesis using acc by blast
  next
    case mem
    then have x: "next_x v n = Suc (next_w v n)" "isa_halting (in_op (isa_insn im (isa_run im a (next_w v n))))"
      using halting_in_MEM by blast+
    have "front_chain im nb v (a_pc (isa_run im a (next_x v n)))" using assms(1) mem by (simp add: safe_inv_def)
    moreover have "fetchable nb im (Suc (Suc (Suc 0))) (a_pc (isa_run im a (next_x v n)))"
      using safe_halt [OF assms(2) mem(1) x(2)] unfolding x(1) numeral_3_eq_3 by blast
    ultimately have "load_le im (v_pc v) 4 \<noteq> None" by (rule fetchable_mapped [OF front_chain_fetchable])
    then show ?thesis using acc mem(1) by blast
  next
    case wb
    then have "load_le im (v_pc v) 4 \<noteq> None \<and> (exm_valid (v_x v) \<longrightarrow> \<not> is_mem_op (exm_op (v_x v)))"
      using assms(1) by (simp add: safe_inv_def)
    then show ?thesis by blast
  qed
qed

lemma halting_not_mem: "is_mem_op p \<Longrightarrow> \<not> isa_halting p"
  by (auto simp: isa_halting_def is_mem_op_def is_store_def)

lemma plain_not_taken: "plain_op (idex_op d) \<Longrightarrow> \<not> ex_actual_taken d x y"
  by (cases "idex_op d") (simp_all add: plain_op_def ex_actual_taken_def Let_def det_target_def is_cond_branch_def)

text \<open>Behind a halting instruction in MEM, the plain instruction in EX hands the front end on.\<close>

lemma plain_step:
  fixes v' :: pview
  assumes ch: "front_chain im nb v q" and nb: "nb \<longleftrightarrow> v_bp v = None"
    and safe: "fetchable nb im 3 q" "plain_op (in_op (decode (isa_fetch im q) q))"
    and fr: "v_front im v f' pc'"
    and v': "v_d v' = (if v_redirect v \<or> v_hazard v then id_ex_bubble else v_decode v)"
      "v_f v' = f'" "v_pc v' = pc'" "v_bp v' = v_trained v"
  shows "load_le im (v_pc v') 4 \<noteq> None \<and> (exm_valid (v_exec v) \<longrightarrow> \<not> is_mem_op (exm_op (v_exec v)))"
proof -
  have d: "plain_op (idex_op (v_d v)) \<and> \<not> idex_predicted_taken (v_d v)" if v: "idex_valid (v_d v)"
  proof -
    have "ok_pc nb q" using safe(1) unfolding numeral_3_eq_3 fetchable.simps(2) by blast
    with front_chain_d [OF ch v] safe(2) show ?thesis by (auto simp: plain_op_def link_def)
  qed
  then have r: "\<not> v_redirect v" and t: "v_trained v = v_bp v"
    using plain_not_taken by (auto simp: v_redirect_def v_trained_def plain_op_def)
  have "bp_sound im (v_bp v)" "f_ok im nb (v_f v) (v_pc v)" using ch by (simp_all add: front_chain_def)
  with front_chain_advance [of im v nb f' pc' v'] nb fr v' t r
  have "front_chain im nb v' (front_pc v)" by simp
  moreover have "fetchable nb im (Suc (Suc 0)) (front_pc v)"
    using front_pc_fetchable [OF ch] safe(1) unfolding numeral_3_eq_3 by blast
  ultimately have "load_le im (v_pc v') 4 \<noteq> None" by (rule fetchable_mapped [OF front_chain_fetchable])
  then show ?thesis using d by (auto simp: v_exec_def Let_def plain_op_def)
qed

lemma safe_aligned:
  assumes "program_safe nb im a"
  shows "\<forall>k. live im a k \<longrightarrow> ok_pc nb (a_pc (isa_run im a k))"
  using safe_live [OF assms] unfolding numeral_2_eq_2 fetchable.simps(2) by blast

text \<open>Every step keeps it.\<close>

lemma safe_step:
  assumes st: "pipe_step im v v'" and inv: "safe_inv im a nb n v" and safe: "program_safe nb im a"
    and nh: "\<not> (mwb_valid (v_w v) \<and> isa_halting (mwb_op (v_w v)))" and x0: "a_regs a 0 = 0"
  shows "safe_inv im a nb (next_w v n) v'"
proof -
  have pi: "pipe_inv im a nb n v" using inv by (simp add: safe_inv_def)
  note pi' = pipe_step_inv [OF st pi nh x0 safe_aligned [OF safe]]
  have ret: "live im a (next_w v n)" using retire [OF pi nh] by blast
  from st show ?thesis
  proof (cases rule: pipe_step.cases)
    case stall
    have "x_ok im (v_x v) (isa_run im a (next_w v n))" using pipe_invD(6) [OF pi ret stall(2)] .
    then have "\<not> isa_halting (in_op (isa_insn im (isa_run im a (next_w v n))))"
      using stall(3) halting_not_mem by (simp add: x_ok_def Let_def)
    then have "live im a (next_x v n)" using halting_in_MEM [OF ret] by blast
    moreover have nw: "next_w v' (next_w v n) = next_w v n"
      unfolding next_w_def [of v'] by (simp add: stall(1))
    moreover have "next_x v' (next_w v n) = next_x v n" unfolding next_x_def nw by (simp add: stall(1))
    ultimately show ?thesis using pi' ret by (simp add: safe_inv_def)
  next
    case (advance w' dm' f' pc')
    have w': "mwb_valid w' = exm_valid (v_x v)"
      using advance(2) by (auto simp: v_access_def Let_def split: if_splits)
    have xv: "exm_valid (v_exec v) = idex_valid (v_d v)" by (simp add: v_exec_def Let_def)
    have fld: "v_d v' = (if v_redirect v \<or> v_hazard v then id_ex_bubble else v_decode v)"
      "v_f v' = f'" "v_pc v' = pc'" "v_bp v' = v_trained v" "v_x v' = v_exec v" "v_w v' = w'"
      by (simp_all add: advance(1))
    have nw: "next_w v' (next_w v n) = next_x v n" by (simp add: next_w_def [of v'] next_x_def fld(6) w')
    have nx: "next_x v' (next_w v n) = next_x v n + of_bool (idex_valid (v_d v))"
      by (simp add: next_x_def [of v'] nw fld(5) xv)
    have mem: "front_chain im nb v' (a_pc (isa_run im a (next_x v' (next_w v n))))" if lx: "live im a (next_x v n)"
    proof -
      note f = pipe_invD(7) [OF pi lx] and al = safe_aligned [OF safe, rule_format, OF lx]
      have "bp_sound im (v_bp v)" "f_ok im nb (v_f v) (v_pc v)" using f by (simp_all add: front_ok_def)
      from front_chain_advance [OF this(1) trained_sound [OF f al pipe_invD(2) [OF pi]] pipe_invD(2) [OF pi]
          this(2) advance(3) fld(1-4)]
      show ?thesis using next_in_front [OF f al refl] by (cases "idex_valid (v_d v)") (simp_all add: nx)
    qed
    have wb: "load_le im (v_pc v') 4 \<noteq> None \<and> (exm_valid (v_x v') \<longrightarrow> \<not> is_mem_op (exm_op (v_x v')))"
      if "\<not> live im a (next_x v n)"
    proof -
      note h = halting_in_MEM [OF ret that]
      have "front_chain im nb v (a_pc (isa_run im a (Suc (next_w v n))))"
        using inv ret that h by (simp add: safe_inv_def)
      from plain_step [OF this pipe_invD(2) [OF pi] _ _ advance(3) fld(1-4)] safe_halt [OF safe ret] h
      show ?thesis unfolding fld(5) by blast
    qed
    from pi' mem wb show ?thesis by (simp add: safe_inv_def nw)
  qed
qed

end
