(* ===== verification/Tracer.thy ===== *)
theory Tracer
  imports Latch Regfile
begin

unbundle bit_operations_syntax

text \<open>
  The tracer (\<open>include/cpusim/sim/tracer.h\<close>, \<open>src/sim/tracer.cpp\<close>). The stream is the list of
  the lines written to it. The conversions of \<open>snprintf\<close> that the source uses are modelled as
  functions to strings; a buffer of size \<open>n\<close> keeps the first \<open>n - 1\<close> characters.
\<close>

section \<open>The conversions of snprintf\<close>

definition digit_char :: "nat \<Rightarrow> char" where
  "digit_char d = ''0123456789abcdef'' ! d"

text \<open>The digits of \<open>n\<close> in base \<open>b\<close>, at least one of them.\<close>

fun digits :: "nat \<Rightarrow> nat \<Rightarrow> string" where
  "digits b n = (if b < 2 \<or> n < b then [digit_char (n mod 16)]
                 else digits b (n div b) @ [digit_char (n mod b mod 16)])"

declare digits.simps [simp del]

definition pad_left :: "char \<Rightarrow> nat \<Rightarrow> string \<Rightarrow> string" where
  "pad_left c w s = replicate (w - length s) c @ s"

definition pad_right :: "nat \<Rightarrow> string \<Rightarrow> string" where
  "pad_right w s = s @ replicate (w - length s) (CHR '' '')"

text \<open>\<open>%0<w>x\<close>, \<open>%x\<close>, \<open>%d\<close> of a 32-bit value, \<open>%<w>llu\<close>.\<close>

definition hex :: "nat \<Rightarrow> u32 \<Rightarrow> string" where
  "hex w v = pad_left (CHR ''0'') w (digits 16 (unat v))"

definition dec :: "int \<Rightarrow> string" where
  "dec i = (if i < 0 then CHR ''-'' # digits 10 (nat (- i)) else digits 10 (nat i))"

definition udec :: "nat \<Rightarrow> u64 \<Rightarrow> string" where
  "udec w v = pad_left (CHR '' '') w (digits 10 (unat v))"

definition buffer :: "nat \<Rightarrow> string \<Rightarrow> string" where
  "buffer cap s = take (cap - 1) s"

section \<open>The tracer\<close>

datatype trace_format = Fmt_Commit | Fmt_Cycle

record tracer =
  tr_out :: "string list"
  tr_fmt :: trace_format

definition is_load_op :: "op \<Rightarrow> bool" where
  "is_load_op p \<longleftrightarrow> p = Op_LW \<or> p = Op_LH \<or> p = Op_LHU \<or> p = Op_LB \<or> p = Op_LBU"

definition store_hex_digits :: "op \<Rightarrow> nat" where
  "store_hex_digits p = (if p = Op_SB then 2 else if p = Op_SH then 4 else 8)"

definition format_effect :: "nat \<Rightarrow> mem_wb \<Rightarrow> string" where
  "format_effect cap wb =
     (if mwb_is_store wb
      then buffer cap ('' mem 0x'' @ hex 8 (mwb_mem_addr wb) @ '' 0x'' @
                        hex (store_hex_digits (mwb_op wb)) (mwb_mem_val wb))
      else if mwb_rd wb \<noteq> 0
      then buffer cap ('' x'' @ pad_right 2 (dec (uint (mwb_rd wb))) @ '' 0x'' @ hex 8 (mwb_wb_val wb) @
                        (if is_load_op (mwb_op wb) then '' mem 0x'' @ hex 8 (mwb_mem_addr wb) else []))
      else [])"

definition disasm :: "nat \<Rightarrow> u32 \<Rightarrow> u32 \<Rightarrow> string" where
  "disasm cap raw pc =
     (let i = decode raw pc;
          m = op_name (in_op i);
          m5 = pad_right 5 m @ '' '';
          rd = abi_name (unat (in_rd i));
          rs1 = abi_name (unat (in_rs1 i));
          rs2 = abi_name (unat (in_rs2 i));
          imm = dec (sint (in_imm i))
      in buffer cap
        (case op_fmt (in_op i) of
           R_fmt \<Rightarrow> m5 @ rd @ '', '' @ rs1 @ '', '' @ rs2
         | I_fmt \<Rightarrow>
             if in_op i \<in> {Op_ADDI, Op_SLTI, Op_SLTIU, Op_ANDI, Op_ORI, Op_XORI}
             then m5 @ rd @ '', '' @ rs1 @ '', '' @ imm
             else m5 @ rd @ '', '' @ imm @ ''('' @ rs1 @ '')''
         | Shift_fmt \<Rightarrow> m5 @ rd @ '', '' @ rs1 @ '', '' @ dec (sint (in_imm i AND 0x1f))
         | S_fmt \<Rightarrow> m5 @ rs2 @ '', '' @ imm @ ''('' @ rs1 @ '')''
         | B_fmt \<Rightarrow> m5 @ rs1 @ '', '' @ rs2 @ '', 0x'' @ hex 8 (pc + in_imm i)
         | J_fmt \<Rightarrow> m5 @ rd @ '', 0x'' @ hex 8 (pc + in_imm i)
         | U_fmt \<Rightarrow> m5 @ rd @ '', 0x'' @ hex 1 (drop_bit 12 (in_imm i))
         | _ \<Rightarrow> m))"

definition commit_line :: "mem_wb \<Rightarrow> string" where
  "commit_line wb =
     buffer 128 (''core   0: 3 0x'' @ hex 8 (mwb_pc wb) @ '' (0x'' @ hex 8 (mwb_raw wb) @ '')'' @
                 format_effect 64 wb)"

definition cycle_line :: "mem_wb \<Rightarrow> u64 \<Rightarrow> string" where
  "cycle_line wb cycle =
     (if \<not> mwb_valid wb then buffer 16 (udec 6 cycle @ '' |'')
      else buffer 80 (udec 6 cycle @ '' | 0x'' @ hex 8 (mwb_pc wb) @ ''  '' @
                      disasm 40 (mwb_raw wb) (mwb_pc wb)))"

definition tracer_record :: "mem_wb \<Rightarrow> u64 \<Rightarrow> tracer \<Rightarrow> tracer" where
  "tracer_record wb cycle t =
     (case tr_fmt t of
        Fmt_Cycle \<Rightarrow> t\<lparr>tr_out := tr_out t @ [cycle_line wb cycle]\<rparr>
      | Fmt_Commit \<Rightarrow> if \<not> mwb_valid wb then t else t\<lparr>tr_out := tr_out t @ [commit_line wb]\<rparr>)"

end
