(* ===== verification/Core.thy ===== *)
theory Core
  imports Execute Mem_Access Writeback Hazard Tracer
begin

text \<open>
  The core (\<open>include/cpusim/sim/core.h\<close>, \<open>src/sim/core.cpp\<close>): the seven stages wired to their
  latches, memories and predictor, and the clock. One field per member of the class; the
  memory port a member reference selects (cache or flat memory) is the memory itself here.
\<close>

datatype halt_reason = Halt_None | Halt_Ebreak | Halt_Illegal

record core =
  co_base :: u32
  co_imem :: memsys
  co_dmem :: memsys
  co_rf :: regfile
  co_bpred :: "branch_predictor option"
  co_stats :: sim_stats
  co_if_id :: "if_id latch"
  co_id_ex :: "id_ex latch"
  co_ex_mem :: "ex_mem latch"
  co_mem_wb :: "mem_wb latch"
  co_fetch :: fetch_stage
  co_decode :: decode_stage
  co_fwd :: forward_unit
  co_ex :: execute_stage
  co_mem :: mem_stage
  co_wb :: wb_stage
  co_hazard :: hazard_unit
  co_tracer :: "tracer option"
  co_halted :: bool
  co_halt_reason :: halt_reason
  co_halt_pc :: u32
  co_halt_raw :: u32

section \<open>Construction\<close>

definition core_imem :: "sim_config \<Rightarrow> memsys res" where
  "core_imem cfg =
     (let flat = flat_init (ram_base_addr cfg) (ram_size_bytes cfg) (imem_latency_cycles cfg) in
      if icache_enabled cfg
      then res_bind (cache_init (icache_line_bytes cfg) (icache_sets cfg)
             (icache_hit_latency_cycles cfg) (icache_ways cfg) (icache_prefetch_enabled cfg)
             (icache_prefetch_degree cfg) True) (\<lambda>c. Inr (Cached c (Flat flat)))
      else Inr (Flat flat))"

definition core_dmem :: "sim_config \<Rightarrow> memsys res" where
  "core_dmem cfg =
     (let dram = flat_init (ram_base_addr cfg) (ram_size_bytes cfg) (dmem_latency_cycles cfg) in
      if dcache_enabled cfg
      then res_bind (cache_init (dcache_line_bytes cfg) (dcache_sets cfg)
             (dcache_hit_latency_cycles cfg) (dcache_ways cfg) False 1 False)
             (\<lambda>c. Inr (Cached c (Flat dram)))
      else Inr (Flat dram))"

definition core_bpred :: "sim_config \<Rightarrow> branch_predictor option res" where
  "core_bpred cfg =
     (if bpred_enabled cfg
      then res_bind (bp_init (bpred_bht_entries cfg) (bpred_btb_entries cfg)) (\<lambda>b. Inr (Some b))
      else Inr None)"

definition core_init :: "sim_config \<Rightarrow> core res" where
  "core_init cfg =
     res_bind (core_imem cfg) (\<lambda>imem.
     res_bind (core_dmem cfg) (\<lambda>dmem.
     res_bind (core_bpred cfg) (\<lambda>bp.
       Inr \<lparr>co_base = ram_base_addr cfg, co_imem = imem, co_dmem = dmem, co_rf = regfile_init,
         co_bpred = bp, co_stats = stats_init,
         co_if_id = latch_init if_id_bubble, co_id_ex = latch_init id_ex_bubble,
         co_ex_mem = latch_init ex_mem_bubble, co_mem_wb = latch_init mem_wb_bubble,
         co_fetch = fetch_init (ram_base_addr cfg), co_decode = decode_init,
         co_fwd = forward_init, co_ex = execute_init, co_mem = \<lparr>ms_stalling = False\<rparr>,
         co_wb = wb_init, co_hazard = \<lparr>hz_stall = False\<rparr>, co_tracer = None,
         co_halted = False, co_halt_reason = Halt_None, co_halt_pc = 0, co_halt_raw = 0\<rparr>)))"

text \<open>\<open>load_program\<close>: the words go to consecutive addresses from the base, which wrap.\<close>

fun store_program :: "u32 \<Rightarrow> u32 list \<Rightarrow> memsys \<Rightarrow> memsys res" where
  "store_program addr [] m = Inr m"
| "store_program addr (w # ws) m =
     res_bind (mem_store_word m addr w) (\<lambda>m'. store_program (addr + 4) ws m')"

definition load_program :: "u32 list \<Rightarrow> core \<Rightarrow> core res" where
  "load_program words c =
     res_bind (store_program (co_base c) words (co_imem c)) (\<lambda>m. Inr (c\<lparr>co_imem := m\<rparr>))"

section \<open>The clock\<close>

text \<open>
  The evaluate phase, in the order of the source. The statistics are threaded through the
  instruction memory and then through the data memory.
\<close>

definition core_evaluate :: "core \<Rightarrow> core res" where
  "core_evaluate c =
     res_bind (fetch_evaluate (co_bpred c) (co_fetch c) (co_imem c, co_stats c) (co_if_id c))
       (\<lambda>(fs, (imem, st1), if_id).
     res_bind (decode_evaluate (co_rf c) (latch_read if_id) (co_id_ex c)) (\<lambda>id_ex.
       let fw = forward_evaluate (latch_read (co_mem_wb c)) (co_fwd c);
           (es, ex_mem) = execute_evaluate (co_bpred c \<noteq> None) fw (latch_read (co_ex_mem c))
                            (latch_read (co_mem_wb c)) (latch_read id_ex) (co_ex c) (co_ex_mem c)
       in
     res_bind (mem_evaluate (latch_read ex_mem) (co_mem c) (co_dmem c, st1) (co_mem_wb c))
       (\<lambda>(ms, (dmem, st2), mem_wb).
       Inr (c\<lparr>co_fetch := fs, co_imem := imem, co_if_id := if_id, co_id_ex := id_ex, co_fwd := fw,
              co_ex := es, co_ex_mem := ex_mem, co_mem := ms, co_dmem := dmem,
              co_mem_wb := mem_wb, co_stats := st2,
              co_wb := wb_evaluate (latch_read mem_wb) (co_wb c),
              co_hazard := hazard_evaluate (latch_read if_id) (latch_read id_ex) (co_hazard c)\<rparr>))))"

text \<open>Between the phases: trace, halt detection at the input of WB, retirement count.\<close>

definition core_observe :: "core \<Rightarrow> core" where
  "core_observe c =
     (let wb_in = latch_read (co_mem_wb c);
          c1 = c\<lparr>co_tracer := map_option (tracer_record wb_in (st_cycles (co_stats c))) (co_tracer c)\<rparr>;
          c2 = (if mwb_valid wb_in \<and> (mwb_op wb_in = Op_EBREAK \<or> mwb_op wb_in = Op_ILLEGAL)
                then c1\<lparr>co_halted := True,
                        co_halt_reason := (if mwb_op wb_in = Op_EBREAK then Halt_Ebreak else Halt_Illegal),
                        co_halt_pc := mwb_pc wb_in, co_halt_raw := mwb_raw wb_in\<rparr>
                else c1)
      in if mwb_valid wb_in then c2\<lparr>co_stats := count_instruction (co_stats c2)\<rparr> else c2)"

definition capture_ex_operands :: "core \<Rightarrow> core" where
  "capture_ex_operands c =
     (let held = latch_read (co_id_ex c);
          res = resolve (co_fwd c) (latch_read (co_ex_mem c)) (latch_read (co_mem_wb c))
      in if \<not> idex_valid held then c
         else c\<lparr>co_id_ex := latch_commit (latch_write
                  (held\<lparr>idex_rs1_val := res (idex_rs1 held) (idex_rs1_val held),
                        idex_rs2_val := res (idex_rs2 held) (idex_rs2_val held)\<rparr>) (co_id_ex c))\<rparr>)"

text \<open>The parts of the latch phase that both paths run: WB, the forwarding snapshot, MEM.\<close>

definition core_latch_wb :: "core \<Rightarrow> core res" where
  "core_latch_wb c =
     res_bind (wb_latch (co_wb c) (co_rf c)) (\<lambda>(ws, rf).
       Inr (c\<lparr>co_wb := ws, co_rf := rf, co_fwd := forward_latch (co_fwd c)\<rparr>))"

definition core_latch_mem :: "core \<Rightarrow> core" where
  "core_latch_mem c =
     (let ((dmem, st), mem_wb) = mem_latch (co_dmem c, co_stats c) (co_mem_wb c)
      in c\<lparr>co_dmem := dmem, co_stats := st, co_mem_wb := mem_wb\<rparr>)"

definition core_latch_ex :: "core \<Rightarrow> core" where
  "core_latch_ex c =
     (let (es, ex_mem, fs, ds, bp, st) =
            execute_latch (co_ex c) (co_ex_mem c) (co_fetch c) (co_decode c) (co_bpred c) (co_stats c)
      in c\<lparr>co_ex := es, co_ex_mem := ex_mem, co_fetch := fs, co_decode := ds, co_bpred := bp,
           co_stats := st\<rparr>)"

definition core_latch_hazard :: "core \<Rightarrow> core" where
  "core_latch_hazard c =
     (let (hz, fs, ds) = hazard_latch (co_hazard c) (co_fetch c) (co_decode c)
      in c\<lparr>co_hazard := hz, co_fetch := fs, co_decode := ds\<rparr>)"

definition core_latch_decode :: "core \<Rightarrow> core" where
  "core_latch_decode c =
     (let (ds, id_ex) = decode_latch (co_decode c) (co_id_ex c)
      in c\<lparr>co_decode := ds, co_id_ex := id_ex\<rparr>)"

definition core_latch_fetch :: "core \<Rightarrow> core" where
  "core_latch_fetch c =
     (let (fs, (imem, st), if_id) = fetch_latch (co_fetch c) (co_imem c, co_stats c) (co_if_id c)
      in c\<lparr>co_fetch := fs, co_imem := imem, co_stats := st, co_if_id := if_id\<rparr>)"

definition core_count_cycle :: "core \<Rightarrow> core" where
  "core_count_cycle c = c\<lparr>co_stats := count_cycle (co_stats c)\<rparr>"

text \<open>The two latch phases: a memory stall freezes IF, ID and EX; otherwise all stages commit.\<close>

definition core_latch_stalled :: "core \<Rightarrow> core res" where
  "core_latch_stalled c =
     res_bind (core_latch_wb (capture_ex_operands c)) (\<lambda>c1. Inr (core_count_cycle (core_latch_mem c1)))"

definition core_latch_all :: "core \<Rightarrow> core res" where
  "core_latch_all c =
     res_bind (core_latch_wb c) (\<lambda>c1.
       Inr (core_count_cycle (core_latch_fetch (core_latch_decode (core_latch_hazard
              (core_latch_mem (core_latch_ex c1)))))))"

definition core_tick :: "core \<Rightarrow> (bool \<times> core) res" where
  "core_tick c =
     (if co_halted c then Inr (False, c)
      else
        res_bind (core_evaluate c) (\<lambda>c1.
          let c2 = core_observe c1 in
          res_bind (if ms_stalling (co_mem c2) then core_latch_stalled c2 else core_latch_all c2)
            (\<lambda>c3. Inr (\<not> co_halted c3, c3))))"

section \<open>Inspection and setup\<close>

definition core_read_reg :: "core \<Rightarrow> u8 \<Rightarrow> u32 res" where
  "core_read_reg c reg = regfile_read (co_rf c) (unat reg)"

definition core_load_word :: "core \<Rightarrow> u32 \<Rightarrow> u32 res" where
  "core_load_word c addr = mem_load_word (co_dmem c) addr"

definition core_pc :: "core \<Rightarrow> u32" where
  "core_pc c = fs_pc (co_fetch c)"

definition core_cycles :: "core \<Rightarrow> u64" where
  "core_cycles c = st_cycles (co_stats c)"

definition core_instructions :: "core \<Rightarrow> u64" where
  "core_instructions c = st_instructions (co_stats c)"

definition core_mispredicts :: "core \<Rightarrow> u64" where
  "core_mispredicts c = st_branch_mispredicts (co_stats c)"

definition core_write_reg :: "u8 \<Rightarrow> u32 \<Rightarrow> core \<Rightarrow> core res" where
  "core_write_reg reg val c =
     res_bind (regfile_write (co_rf c) (unat reg) val) (\<lambda>rf. Inr (c\<lparr>co_rf := rf\<rparr>))"

definition core_store_word :: "u32 \<Rightarrow> u32 \<Rightarrow> core \<Rightarrow> core res" where
  "core_store_word addr val c =
     res_bind (mem_store_word (co_dmem c) addr val) (\<lambda>m. Inr (c\<lparr>co_dmem := m\<rparr>))"

definition core_set_tracer :: "tracer option \<Rightarrow> core \<Rightarrow> core" where
  "core_set_tracer t c = c\<lparr>co_tracer := t\<rparr>"

text \<open>\<open>%08X\<close>: the digits above 9 are capitals.\<close>

definition hex_upper :: "nat \<Rightarrow> u32 \<Rightarrow> string" where
  "hex_upper w v =
     map (\<lambda>c. if c \<in> set ''abcdef'' then char_of (of_char c - 32 :: nat) else c) (hex w v)"

text \<open>\<open>read_regs\<close> as the list of the sixteen lines it prints.\<close>

definition core_reg_cell :: "core \<Rightarrow> nat \<Rightarrow> string res" where
  "core_reg_cell c i =
     res_bind (regfile_read (co_rf c) i) (\<lambda>v.
       Inr (''x'' @ pad_right 2 (dec (int i)) @ '' '' @ pad_left (CHR '' '') 4 (abi_name i) @
            '' = 0x'' @ hex_upper 8 v))"

fun core_reg_lines :: "core \<Rightarrow> nat list \<Rightarrow> string list res" where
  "core_reg_lines c [] = Inr []"
| "core_reg_lines c (i # is) =
     res_bind (core_reg_cell c i) (\<lambda>left.
     res_bind (core_reg_cell c (i + 16)) (\<lambda>right.
     res_bind (core_reg_lines c is) (\<lambda>rest.
       Inr (('' '' @ left @ ''    '' @ right) # rest))))"

definition core_read_regs :: "core \<Rightarrow> string list res" where
  "core_read_regs c = core_reg_lines c [0 ..< 16]"

end
