(* ===== verification/Core_Refinement.thy ===== *)
theory Core_Refinement
  imports Core Pipe_Invariant
begin

unbundle bit_operations_syntax

text \<open>
  One clock cycle of the core is one step of the pipeline without time. The lemmas follow the
  stages: what each evaluation leaves in its output latch, then what the latch phase commits.
  Caches, latencies and the prefetcher decide only whether the step is a stall and whether
  the fetch delivers an instruction.
\<close>

section \<open>The view of a core\<close>

definition core_regs :: "regfile \<Rightarrow> u8 \<Rightarrow> u32" where
  "core_regs rf r = (if unat r < 32 then reg_val rf r else 0)"

definition core_view :: "core \<Rightarrow> pview" where
  "core_view c =
     \<lparr>v_regs = core_regs (co_rf c), v_w = latch_read (co_mem_wb c), v_p = fw_prev (co_fwd c),
      v_x = latch_read (co_ex_mem c), v_d = latch_read (co_id_ex c), v_f = latch_read (co_if_id c),
      v_pc = fs_pc (co_fetch c), v_bp = co_bpred c, v_dm = mem_bytes (co_dmem c)\<rparr>"

text \<open>Between cycles the transient signals are down and the register file is well formed.\<close>

definition quiet :: "core \<Rightarrow> bool" where
  "quiet c \<longleftrightarrow> \<not> fs_redirect (co_fetch c) \<and> \<not> fs_stall (co_fetch c) \<and>
     \<not> ds_flush (co_decode c) \<and> \<not> ds_stall (co_decode c) \<and> regfile_wf (co_rf c)"

section \<open>The stages\<close>

lemma latch_shadow [simp]:
  "la_shadow (latch_write v l) = v" "latch_read (latch_commit l) = la_shadow l"
  by (simp_all add: latch_defs)

lemma fetch_evaluate_ok:
  assumes "fetch_evaluate bp fs imem out = Inr (fs', imem', out')" and "\<not> fs_redirect fs"
  shows "latch_read out' = latch_read out \<and> mem_bytes (fst imem') = mem_bytes (fst imem) \<and>
    fs_pc fs' = fs_pc fs \<and> \<not> fs_redirect fs' \<and> fs_stall fs' = fs_stall fs \<and>
    (if fs_fetch_stall fs' then la_shadow out' = if_id_bubble
     else \<exists>w. load_le (mem_bytes (fst imem)) (fs_pc fs) 4 = Some w \<and>
       la_shadow out' = \<lparr>ifid_pc = fs_pc fs, ifid_raw = w, ifid_valid = True,
         ifid_predicted_taken = fst (fetch_predict bp (fs_pc fs))\<rparr> \<and>
       fs_next_pc fs' = snd (fetch_predict bp (fs_pc fs)))"
proof -
  obtain r im1 where r: "mem_ready (fs_pc fs) False imem = (r, im1)" by (cases "mem_ready (fs_pc fs) False imem")
  have b: "mem_bytes (fst im1) = mem_bytes (fst imem)" using mem_ready_bytes [of "fs_pc fs" False imem] r by simp
  have w: "load_le (mem_bytes (fst imem)) (fs_pc fs) 4 = Some w" if "mem_load_word (fst im1) (fs_pc fs) = Inr w" for w
    using mem_load_bytes(1) [of "fst im1" "fs_pc fs"] that b by simp
  show ?thesis
    using assms r b w by (auto simp: fetch_evaluate_def Let_def res_bind_Inr_iff case_prod_beta split: if_splits)
qed

lemma core_regs_read: "regfile_read rf (unat r) = Inr v \<Longrightarrow> v = core_regs rf r"
  by (auto simp: regfile_read_def core_regs_def reg_val_def kNumRegs_def split: if_splits)

lemma decode_evaluate_ok:
  assumes "decode_evaluate (co_rf c) (latch_read (co_if_id c)) out = Inr out'"
  shows "latch_read out' = latch_read out \<and> la_shadow out' = v_decode (core_view c)"
  using assms
  by (auto simp: decode_evaluate_def v_decode_def core_view_def Let_def res_bind_Inr_iff
      dest!: core_regs_read split: if_splits)

lemma resolve_prev: "resolve fw = resolve \<lparr>fw_prev = fw_prev fw, fw_prev_next = fw_prev fw\<rparr>"
  by (intro ext) (simp only: resolve_def forward_unit.simps)

lemma execute_evaluate_ok:
  assumes "execute_evaluate has_bp fw (latch_read (co_ex_mem c)) (latch_read (co_mem_wb c))
      (latch_read (co_id_ex c)) es out = (es', out')" and "fw_prev fw = fw_prev (co_fwd c)"
  defines "v \<equiv> core_view c"
  shows "latch_read out' = latch_read out \<and> la_shadow out' = v_exec v \<and> es_redirect es' = v_redirect v \<and>
    (v_redirect v \<longrightarrow> es_redirect_target es' = v_redirect_pc v) \<and>
    (es_train es' \<longleftrightarrow> has_bp \<and> idex_valid (v_d v) \<and> det_target (idex_op (v_d v))) \<and>
    (es_train es' \<longrightarrow> es_train_pc es' = idex_pc (v_d v) \<and> es_train_cond es' = is_cond_branch (idex_op (v_d v)) \<and>
       es_train_taken es' = ex_actual_taken (v_d v) (v_op1 v) (v_op2 v) \<and>
       es_train_target es' = ex_target (v_d v) (v_op1 v))"
proof -
  have r: "resolve fw (latch_read (co_ex_mem c)) (latch_read (co_mem_wb c)) r x = v_resolve v r x" for r x
    using resolve_prev [of fw] by (simp add: v_resolve_def v_def core_view_def assms(2))
  have d: "latch_read (co_id_ex c) = v_d v" by (simp add: v_def core_view_def)
  show ?thesis
    using assms(1) unfolding d
    by (auto simp: execute_evaluate_def Let_def r v_exec_def v_op1_def v_op2_def v_redirect_def
        v_redirect_pc_def det_target_def split: if_splits)
qed

lemma mem_evaluate_ok:
  assumes "mem_evaluate x ms dmem out = Inr (ms', dmem', out')"
  shows "latch_read out' = latch_read out \<and>
    (if ms_stalling ms' then exm_valid x \<and> is_mem_op (exm_op x) \<and> la_shadow out' = mem_wb_bubble \<and>
       mem_bytes (fst dmem') = mem_bytes (fst dmem)
     else v_access x (mem_bytes (fst dmem)) = Some (la_shadow out', mem_bytes (fst dmem')))"
proof (cases "exm_valid x")
  case True
  define wb where "wb = mem_wb_bubble\<lparr>mwb_pc := exm_pc x, mwb_raw := exm_raw x, mwb_op := exm_op x,
    mwb_rd := exm_rd x, mwb_valid := True\<rparr>"
  obtain r d1 where r: "(if is_mem_op (exm_op x) then mem_ready (exm_alu_out x) (is_store (exm_op x)) dmem
      else (True, dmem)) = (r, d1)" by (metis surj_pair)
  have b: "mem_bytes (fst d1) = mem_bytes (fst dmem)"
    using mem_ready_bytes [of "exm_alu_out x" "is_store (exm_op x)" dmem] r by (auto split: if_splits)
  show ?thesis
  proof (cases r)
    case False
    then show ?thesis using assms True r b by (auto simp: mem_evaluate_def split: if_splits)
  next
    case T: True
    obtain wb' m' where acc: "mem_access (exm_op x) (exm_alu_out x) (exm_rs2_val x) wb (fst d1) = Inr (wb', m')"
      and res: "ms' = ms\<lparr>ms_stalling := False\<rparr>" "dmem' = (m', snd d1)" "out' = latch_write wb' out"
      using assms True r T by (auto simp: mem_evaluate_def wb_def [symmetric] Let_def res_bind_Inr_iff)
    have "v_access x (mem_bytes (fst dmem)) = Some (wb', mem_bytes m')"
    proof -
      consider (load) "isa_is_load (exm_op x)" | (store) "is_store (exm_op x)" "\<not> isa_is_load (exm_op x)"
        | (other) "\<not> is_mem_op (exm_op x)" by (auto simp: op_classes(2))
      then show ?thesis
      proof cases
        case load
        from mem_access_load [OF load acc] show ?thesis
          using True load b by (simp add: v_access_def Let_def wb_def [symmetric])
      next
        case store
        from mem_access_store [OF store(1) acc] show ?thesis
          using True store b by (simp add: v_access_def Let_def wb_def [symmetric])
      next
        case other
        then have "wb' = wb\<lparr>mwb_wb_val := exm_alu_out x\<rparr>" "m' = fst d1"
          using acc by (simp_all add: mem_access_other)
        with other True b show ?thesis
          by (simp add: v_access_def Let_def wb_def [symmetric] op_classes(2))
      qed
    qed
    then show ?thesis using res by simp
  qed
qed (use assms in \<open>auto simp: mem_evaluate_def v_access_def\<close>)

lemma wb_latch_ok:
  assumes "wb_latch (wb_evaluate w ws) rf = Inr (ws', rf')" and "regfile_wf rf"
  shows "core_regs rf' = wb_regs w (core_regs rf) \<and> regfile_wf rf'"
proof (cases "mwb_valid w \<and> has_writeback (mwb_op w)")
  case True
  then have wr: "regfile_write rf (unat (mwb_rd w)) (mwb_wb_val w) = Inr rf'"
    using assms(1) by (auto simp: wb_latch_def wb_evaluate_def res_bind_Inr_iff)
  then have "unat (mwb_rd w) < 32" by (auto simp: regfile_write_def kNumRegs_def split: if_splits)
  with reg_val_write [OF assms(2) wr] have "core_regs rf' r = wb_regs w (core_regs rf) r" for r
    using True by (auto simp: core_regs_def wb_regs_def)
  then show ?thesis using rfile.wr_inv [OF assms(2) wr] by blast
next
  case False
  then have "rf' = rf" using assms(1) by (auto simp: wb_latch_def wb_evaluate_def)
  then show ?thesis using False assms(2) by (auto simp: wb_regs_def)
qed

lemma hazard_evaluate_flag:
  "hz_stall (hazard_evaluate f d hz) = hz_stall (hazard_evaluate f d \<lparr>hz_stall = False\<rparr>)"
  by (simp add: hazard_evaluate_def Let_def)

section \<open>The evaluate phase\<close>

lemma core_evaluate_ok:
  assumes ev: "core_evaluate c = Inr c1" and q: "quiet c"
  defines "v \<equiv> core_view c"
  shows "core_view c1 = v\<lparr>v_dm := mem_bytes (co_dmem c1)\<rparr> \<and> co_rf c1 = co_rf c \<and>
    co_halted c1 = co_halted c \<and>
    mem_bytes (co_imem c1) = mem_bytes (co_imem c) \<and> co_decode c1 = co_decode c \<and>
    fw_prev_next (co_fwd c1) = v_w v \<and> (\<exists>ws. co_wb c1 = wb_evaluate (v_w v) ws) \<and>
    hz_stall (co_hazard c1) = v_hazard v"
    (is ?frame)
  and "\<not> fs_redirect (co_fetch c1) \<and> \<not> fs_stall (co_fetch c1) \<and>
    (if fs_fetch_stall (co_fetch c1)
     then v_fetched (mem_bytes (co_imem c)) v (la_shadow (co_if_id c1)) (v_pc v)
     else v_fetched (mem_bytes (co_imem c)) v (la_shadow (co_if_id c1)) (fs_next_pc (co_fetch c1)))"
    (is ?fetch)
  and "la_shadow (co_id_ex c1) = v_decode v" (is ?decode)
  and "la_shadow (co_ex_mem c1) = v_exec v \<and> es_redirect (co_ex c1) = v_redirect v \<and>
    (v_redirect v \<longrightarrow> es_redirect_target (co_ex c1) = v_redirect_pc v) \<and>
    (es_train (co_ex c1) \<longleftrightarrow> v_bp v \<noteq> None \<and> idex_valid (v_d v) \<and> det_target (idex_op (v_d v))) \<and>
    (es_train (co_ex c1) \<longrightarrow>
       map_option (bp_update (es_train_pc (co_ex c1)) (es_train_cond (co_ex c1)) (es_train_taken (co_ex c1))
         (es_train_target (co_ex c1))) (v_bp v) = v_trained v)" (is ?exec)
  and "if ms_stalling (co_mem c1)
     then exm_valid (v_x v) \<and> is_mem_op (exm_op (v_x v)) \<and> la_shadow (co_mem_wb c1) = mem_wb_bubble \<and>
       mem_bytes (co_dmem c1) = v_dm v
     else v_access (v_x v) (v_dm v) = Some (la_shadow (co_mem_wb c1), mem_bytes (co_dmem c1))" (is ?mem)
proof -
  obtain fs imem st1 ifid where F: "fetch_evaluate (co_bpred c) (co_fetch c) (co_imem c, co_stats c) (co_if_id c)
      = Inr (fs, (imem, st1), ifid)" using ev by (auto simp: core_evaluate_def res_bind_Inr_iff)
  have f: "latch_read ifid = latch_read (co_if_id c)" "mem_bytes imem = mem_bytes (co_imem c)"
    "fs_pc fs = v_pc v" "\<not> fs_redirect fs" "\<not> fs_stall fs"
    and fr: "if fs_fetch_stall fs then la_shadow ifid = if_id_bubble
     else \<exists>w. load_le (mem_bytes (co_imem c)) (v_pc v) 4 = Some w \<and>
       la_shadow ifid = \<lparr>ifid_pc = v_pc v, ifid_raw = w, ifid_valid = True,
         ifid_predicted_taken = fst (fetch_predict (v_bp v) (v_pc v))\<rparr> \<and>
       fs_next_pc fs = snd (fetch_predict (v_bp v) (v_pc v))"
    using fetch_evaluate_ok [OF F] q by (simp_all add: quiet_def v_def core_view_def split: if_splits)
  obtain idex where D: "decode_evaluate (co_rf c) (latch_read (co_if_id c)) (co_id_ex c) = Inr idex"
    using ev F f(1) by (auto simp: core_evaluate_def res_bind_Inr_iff)
  have d: "latch_read idex = latch_read (co_id_ex c)" "la_shadow idex = v_decode v"
    using decode_evaluate_ok [OF D] by (simp_all add: v_def)
  define fw where "fw = forward_evaluate (latch_read (co_mem_wb c)) (co_fwd c)"
  obtain es exm where E: "execute_evaluate (co_bpred c \<noteq> None) fw (latch_read (co_ex_mem c))
      (latch_read (co_mem_wb c)) (latch_read (co_id_ex c)) (co_ex c) (co_ex_mem c) = (es, exm)"
    by (metis surj_pair)
  have fwp: "fw_prev fw = fw_prev (co_fwd c)" "fw_prev_next fw = v_w v"
    by (simp_all add: fw_def forward_evaluate_def v_def core_view_def)
  note e = execute_evaluate_ok [OF E fwp(1)]
  obtain ms dmem st2 mwb where M: "mem_evaluate (latch_read (co_ex_mem c)) (co_mem c) (co_dmem c, st1) (co_mem_wb c)
      = Inr (ms, (dmem, st2), mwb)"
    using ev F f(1) D d(1) E e by (auto simp: core_evaluate_def res_bind_Inr_iff fw_def [symmetric] Let_def)
  note m = mem_evaluate_ok [OF M]
  have c1: "c1 = c\<lparr>co_fetch := fs, co_imem := imem, co_if_id := ifid, co_id_ex := idex, co_fwd := fw,
      co_ex := es, co_ex_mem := exm, co_mem := ms, co_dmem := dmem, co_mem_wb := mwb, co_stats := st2,
      co_wb := wb_evaluate (latch_read (co_mem_wb c)) (co_wb c),
      co_hazard := hazard_evaluate (latch_read (co_if_id c)) (latch_read (co_id_ex c)) (co_hazard c)\<rparr>"
    using ev F f(1) D d(1) E e M m by (simp add: core_evaluate_def fw_def [symmetric] Let_def)
  have bp: "v_bp v = co_bpred c" and x: "latch_read (co_ex_mem c) = v_x v" "mem_bytes (co_dmem c) = v_dm v"
    by (simp_all add: v_def core_view_def)
  show ?frame
    using f d(1) e m fwp hazard_evaluate_flag [of "latch_read (co_if_id c)" "latch_read (co_id_ex c)" "co_hazard c"]
    by (auto simp: c1 v_def core_view_def v_hazard_def)
  show ?fetch using f fr by (auto simp: c1 v_fetched_def split: if_splits)
  show ?decode using d by (simp add: c1)
  show ?exec using e unfolding v_def [symmetric] by (auto simp: c1 bp v_trained_def)
  show ?mem using m by (simp add: c1 x split: if_splits)
qed

section \<open>The latch phase\<close>

lemma core_observe_frame:
  "core_view (core_observe c) = core_view c" "co_rf (core_observe c) = co_rf c"
  "co_imem (core_observe c) = co_imem c" "co_dmem (core_observe c) = co_dmem c"
  "co_decode (core_observe c) = co_decode c" "co_fetch (core_observe c) = co_fetch c"
  "co_fwd (core_observe c) = co_fwd c" "co_wb (core_observe c) = co_wb c"
  "co_hazard (core_observe c) = co_hazard c" "co_ex (core_observe c) = co_ex c"
  "co_mem (core_observe c) = co_mem c" "co_if_id (core_observe c) = co_if_id c"
  "co_id_ex (core_observe c) = co_id_ex c" "co_ex_mem (core_observe c) = co_ex_mem c"
  "co_mem_wb (core_observe c) = co_mem_wb c" "co_bpred (core_observe c) = co_bpred c"
  by (simp_all add: core_observe_def core_view_def Let_def)

lemma core_observe_halted:
  "co_halted (core_observe c) \<longleftrightarrow>
     co_halted c \<or> mwb_valid (latch_read (co_mem_wb c)) \<and> isa_halting (mwb_op (latch_read (co_mem_wb c)))"
  by (auto simp: core_observe_def isa_halting_def Let_def)

text \<open>The stalled path commits WB and takes the captured operands.\<close>

lemma core_latch_stalled_ok:
  assumes "core_latch_stalled c = Inr c'" and "co_wb c = wb_evaluate (latch_read (co_mem_wb c)) ws"
    and "fw_prev_next (co_fwd c) = latch_read (co_mem_wb c)" and "la_shadow (co_mem_wb c) = mem_wb_bubble"
    and "regfile_wf (co_rf c)"
  defines "v \<equiv> core_view c"
  shows "core_view c' = v\<lparr>v_regs := wb_regs (v_w v) (v_regs v), v_w := mem_wb_bubble, v_p := v_w v, v_d := v_capture v\<rparr> \<and>
    regfile_wf (co_rf c') \<and> co_fetch c' = co_fetch c \<and> co_decode c' = co_decode c \<and> co_imem c' = co_imem c \<and>
    co_halted c' = co_halted c"
proof -
  define k where "k = capture_ex_operands c"
  have k: "co_wb k = co_wb c" "co_rf k = co_rf c" "co_fwd k = co_fwd c" "co_mem_wb k = co_mem_wb c"
    "co_dmem k = co_dmem c" "co_ex_mem k = co_ex_mem c" "co_if_id k = co_if_id c" "co_fetch k = co_fetch c"
    "co_bpred k = co_bpred c" "co_decode k = co_decode c" "co_imem k = co_imem c" "co_halted k = co_halted c"
    by (simp_all add: k_def capture_ex_operands_def Let_def)
  have kd: "latch_read (co_id_ex k) = v_capture v"
    using resolve_prev [of "co_fwd c"]
    by (simp add: k_def capture_ex_operands_def v_capture_def v_op1_def v_op2_def v_resolve_def v_def
        core_view_def Let_def)
  obtain ws' rf where w: "wb_latch (co_wb c) (co_rf c) = Inr (ws', rf)"
    and c': "c' = core_count_cycle (core_latch_mem (k\<lparr>co_wb := ws', co_rf := rf, co_fwd := forward_latch (co_fwd k)\<rparr>))"
    using assms(1) by (auto simp: core_latch_stalled_def core_latch_wb_def res_bind_Inr_iff k_def [symmetric] k)
  have rf: "core_regs rf = wb_regs (v_w v) (v_regs v)" "regfile_wf rf"
    using wb_latch_ok [of "latch_read (co_mem_wb c)" ws "co_rf c" ws' rf] w assms(2,5)
    by (simp_all add: v_def core_view_def)
  show ?thesis
    using rf kd k assms(3,4) mem_tick_bytes [of "(co_dmem c, co_stats k)"]
    by (simp add: c' core_count_cycle_def core_latch_mem_def mem_latch_def case_prod_beta
        forward_latch_def core_view_def v_def)
qed

text \<open>The normal path commits all stages; a redirect wins over the interlock.\<close>

lemma core_latch_all_ok:
  assumes la: "core_latch_all c = Inr c'" and wb: "co_wb c = wb_evaluate (latch_read (co_mem_wb c)) ws"
    and fwd: "fw_prev_next (co_fwd c) = latch_read (co_mem_wb c)"
    and rf: "regfile_wf (co_rf c)" and q: "\<not> ds_flush (co_decode c)" "\<not> ds_stall (co_decode c)"
      "\<not> fs_redirect (co_fetch c)" "\<not> fs_stall (co_fetch c)"
  shows "core_regs (co_rf c') = wb_regs (latch_read (co_mem_wb c)) (core_regs (co_rf c)) \<and> regfile_wf (co_rf c') \<and>
    latch_read (co_mem_wb c') = la_shadow (co_mem_wb c) \<and> fw_prev (co_fwd c') = latch_read (co_mem_wb c) \<and>
    latch_read (co_ex_mem c') = la_shadow (co_ex_mem c) \<and>
    latch_read (co_id_ex c') = (if es_redirect (co_ex c) \<or> hz_stall (co_hazard c) then id_ex_bubble
      else la_shadow (co_id_ex c)) \<and>
    latch_read (co_if_id c') = (if es_redirect (co_ex c) then if_id_bubble
      else if hz_stall (co_hazard c) then latch_read (co_if_id c) else la_shadow (co_if_id c)) \<and>
    fs_pc (co_fetch c') = (if es_redirect (co_ex c) then es_redirect_target (co_ex c)
      else if hz_stall (co_hazard c) \<or> fs_fetch_stall (co_fetch c) then fs_pc (co_fetch c)
      else fs_next_pc (co_fetch c)) \<and>
    co_bpred c' = (if es_train (co_ex c) then map_option (bp_update (es_train_pc (co_ex c))
      (es_train_cond (co_ex c)) (es_train_taken (co_ex c)) (es_train_target (co_ex c))) (co_bpred c)
      else co_bpred c) \<and>
    mem_bytes (co_dmem c') = mem_bytes (co_dmem c) \<and> mem_bytes (co_imem c') = mem_bytes (co_imem c) \<and>
    \<not> fs_redirect (co_fetch c') \<and> \<not> fs_stall (co_fetch c') \<and> \<not> ds_flush (co_decode c') \<and>
    \<not> ds_stall (co_decode c') \<and> co_halted c' = co_halted c"
proof -
  obtain ws' rf' where w: "wb_latch (co_wb c) (co_rf c) = Inr (ws', rf')"
    and c': "c' = core_count_cycle (core_latch_fetch (core_latch_decode (core_latch_hazard
        (core_latch_mem (core_latch_ex (c\<lparr>co_wb := ws', co_rf := rf', co_fwd := forward_latch (co_fwd c)\<rparr>))))))"
    using la by (auto simp: core_latch_all_def core_latch_wb_def res_bind_Inr_iff)
  have rf': "core_regs rf' = wb_regs (latch_read (co_mem_wb c)) (core_regs (co_rf c))" "regfile_wf rf'"
    using wb_latch_ok [of "latch_read (co_mem_wb c)" ws "co_rf c" ws' rf'] w wb rf by simp_all
  show ?thesis
    using rf' q fwd
    by (simp add: c' core_count_cycle_def core_latch_fetch_def core_latch_decode_def core_latch_hazard_def
        core_latch_mem_def core_latch_ex_def fetch_latch_def decode_latch_def hazard_latch_def mem_latch_def
        execute_latch_def forward_latch_def fetch_set_redirect_def fetch_set_stall_def decode_set_flush_def
        case_prod_beta Let_def mem_tick_bytes)
qed

section \<open>One cycle, one step\<close>

text \<open>What an advance commits.\<close>

definition v_advance :: "pview \<Rightarrow> mem_wb \<Rightarrow> if_id \<Rightarrow> u32 \<Rightarrow> byte_map \<Rightarrow> pview" where
  "v_advance v w' f' pc' dm' =
      \<lparr>v_regs = wb_regs (v_w v) (v_regs v), v_w = w', v_p = v_w v, v_x = v_exec v,
       v_d = (if v_redirect v \<or> v_hazard v then id_ex_bubble else v_decode v),
       v_f = f', v_pc = pc', v_bp = v_trained v, v_dm = dm'\<rparr>"

text \<open>The cycle that is not a memory stall; without redirect and interlock, IF/ID gets what IF delivered.\<close>

lemma core_tick_advance:
  assumes e: "core_evaluate c = Inr c1" and q: "quiet c" and s: "\<not> ms_stalling (co_mem c1)"
    and l: "core_latch_all (core_observe c1) = Inr c'"
  shows "\<exists>w' dm' f' pc'. v_access (v_x (core_view c)) (v_dm (core_view c)) = Some (w', dm') \<and>
    v_front (mem_bytes (co_imem c)) (core_view c) f' pc' \<and>
    (\<not> v_redirect (core_view c) \<and> \<not> v_hazard (core_view c) \<longrightarrow> f' = la_shadow (co_if_id c1)) \<and>
    core_view c' = v_advance (core_view c) w' f' pc' dm' \<and> quiet c' \<and>
    mem_bytes (co_imem c') = mem_bytes (co_imem c) \<and> co_halted c' = co_halted (core_observe c1)"
proof -
  let ?v = "core_view c" and ?im = "mem_bytes (co_imem c)"
  note ev = core_evaluate_ok [OF e q]
  define c2 where "c2 = core_observe c1"
  note ob = core_observe_frame [of c1, folded c2_def]
  have w: "latch_read (co_mem_wb c2) = v_w ?v" "latch_read (co_if_id c2) = v_f ?v" "fs_pc (co_fetch c2) = v_pc ?v"
    "co_bpred c2 = v_bp ?v" "core_regs (co_rf c2) = v_regs ?v"
    using ev(1) ob by (simp_all add: core_view_def)
  obtain ws where wb: "co_wb c2 = wb_evaluate (latch_read (co_mem_wb c2)) ws" using ev(1) ob w(1) by auto
  have fw: "fw_prev_next (co_fwd c2) = latch_read (co_mem_wb c2)" using ev(1) ob w(1) by simp
  have rf: "regfile_wf (co_rf c2)" and ds: "\<not> ds_flush (co_decode c2)" "\<not> ds_stall (co_decode c2)"
    and fs: "\<not> fs_redirect (co_fetch c2)" "\<not> fs_stall (co_fetch c2)"
    using ev(1,2) ob q by (simp_all add: quiet_def)
  have acc: "v_access (v_x ?v) (v_dm ?v) = Some (la_shadow (co_mem_wb c2), mem_bytes (co_dmem c2))"
    using ev(5) ob s by simp
  note ls = core_latch_all_ok [OF l [folded c2_def] wb fw rf ds fs]
  have ex: "la_shadow (co_ex_mem c2) = v_exec ?v" "es_redirect (co_ex c2) = v_redirect ?v"
    "v_redirect ?v \<Longrightarrow> es_redirect_target (co_ex c2) = v_redirect_pc ?v"
    "hz_stall (co_hazard c2) = v_hazard ?v" "la_shadow (co_id_ex c2) = v_decode ?v"
    using ev(1,3,4) ob by simp_all
  have front: "v_front ?im ?v (latch_read (co_if_id c')) (fs_pc (co_fetch c'))"
    using ls ex w ev(2) ob by (auto simp: v_front_def split: if_splits)
  have fetched: "\<not> v_redirect ?v \<and> \<not> v_hazard ?v \<longrightarrow> latch_read (co_if_id c') = la_shadow (co_if_id c1)"
    using ls ex ob by simp
  have bp: "co_bpred c' = v_trained ?v"
  proof (cases "es_train (co_ex c1)")
    case True
    then show ?thesis using ls ev(4) ob w by simp
  next
    case False
    then have "v_trained ?v = v_bp ?v" using ev(4) by (auto simp: v_trained_def)
    then show ?thesis using ls False ob w by simp
  qed
  have "core_view c' = v_advance ?v (la_shadow (co_mem_wb c2)) (latch_read (co_if_id c')) (fs_pc (co_fetch c'))
      (mem_bytes (co_dmem c2))"
    using ls ex w bp by (simp add: core_view_def v_advance_def)
  with acc front fetched ls ev(1) ob show ?thesis unfolding quiet_def c2_def by metis
qed

lemma core_tick_step:
  assumes t: "core_tick c = Inr (b, c')" and h: "\<not> co_halted c" and q: "quiet c"
  shows "pipe_step (mem_bytes (co_imem c)) (core_view c) (core_view c') \<and> quiet c' \<and>
    mem_bytes (co_imem c') = mem_bytes (co_imem c) \<and>
    (co_halted c' \<longleftrightarrow> mwb_valid (v_w (core_view c)) \<and> isa_halting (mwb_op (v_w (core_view c)))) \<and>
    b = (\<not> co_halted c')"
proof -
  let ?v = "core_view c" and ?im = "mem_bytes (co_imem c)"
  obtain c1 where e: "core_evaluate c = Inr c1" using t h by (auto simp: core_tick_def res_bind_Inr_iff)
  note ev = core_evaluate_ok [OF e q]
  define c2 where "c2 = core_observe c1"
  note ob = core_observe_frame [of c1, folded c2_def]
  have lat: "(if ms_stalling (co_mem c2) then core_latch_stalled c2 else core_latch_all c2) = Inr c'"
    and b: "b = (\<not> co_halted c')"
    using t h e by (auto simp: core_tick_def res_bind_Inr_iff c2_def [symmetric] Let_def)
  have w: "latch_read (co_mem_wb c2) = v_w ?v" "latch_read (co_if_id c2) = v_f ?v" "fs_pc (co_fetch c2) = v_pc ?v"
    "co_bpred c2 = v_bp ?v" "core_regs (co_rf c2) = v_regs ?v"
    using ev(1) ob by (simp_all add: core_view_def)
  have hl: "co_halted c2 \<longleftrightarrow> mwb_valid (v_w ?v) \<and> isa_halting (mwb_op (v_w ?v))"
    using core_observe_halted [of c1] ev(1) h w(1) ob(15) by (simp add: c2_def)
  obtain ws where wb: "co_wb c2 = wb_evaluate (latch_read (co_mem_wb c2)) ws" using ev(1) ob w(1) by auto
  have fw: "fw_prev_next (co_fwd c2) = latch_read (co_mem_wb c2)" using ev(1) ob w(1) by simp
  have rf: "regfile_wf (co_rf c2)" and ds: "\<not> ds_flush (co_decode c2)" "\<not> ds_stall (co_decode c2)"
    and fs: "\<not> fs_redirect (co_fetch c2)" "\<not> fs_stall (co_fetch c2)"
    using ev(1,2) ob q by (simp_all add: quiet_def)
  show ?thesis
  proof (cases "ms_stalling (co_mem c1)")
    case True
    then have m: "exm_valid (v_x ?v)" "is_mem_op (exm_op (v_x ?v))" "la_shadow (co_mem_wb c2) = mem_wb_bubble"
      "mem_bytes (co_dmem c1) = v_dm ?v" using ev(5) ob by auto
    have v2: "core_view c2 = ?v" using ev(1) ob(1) m(4) by simp
    have "core_latch_stalled c2 = Inr c'" using lat True ob by simp
    note ls = core_latch_stalled_ok [OF this wb fw m(3) rf, unfolded v2]
    from pipe_step.stall [OF m(1,2), of ?im] ls ev(1) ob hl b ds fs show ?thesis
      by (simp add: quiet_def)
  next
    case False
    have "core_latch_all c2 = Inr c'" using lat False ob by simp
    from core_tick_advance [OF e q False this [unfolded c2_def]]
    obtain w' dm' f' pc' where acc: "v_access (v_x ?v) (v_dm ?v) = Some (w', dm')" and fr: "v_front ?im ?v f' pc'"
      and "core_view c' = v_advance ?v w' f' pc' dm'" "quiet c'" "mem_bytes (co_imem c') = ?im"
        "co_halted c' = co_halted c2" unfolding c2_def by blast
    with pipe_step.advance [OF acc fr] hl b show ?thesis by (simp add: v_advance_def)
  qed
qed

end
