(* ===== verification/Core_Run.thy ===== *)
theory Core_Run
  imports Core
begin

text \<open>
  The clock of the core over many cycles: what a tick does to the counters, the loop of
  \<open>Core::run\<close> with its termination, and the log of the retired instructions.
\<close>

section \<open>The counters\<close>

text \<open>The counters that the memories leave alone: only the prefetch counters are theirs.\<close>

definition clock_of :: "sim_stats \<Rightarrow> u64 \<times> u64 \<times> u64 \<times> u64" where
  "clock_of st = (st_cycles st, st_instructions st, st_branch_correct st, st_branch_mispredicts st)"

lemma count_clock [simp]:
  "clock_of (count_useful st) = clock_of st" "clock_of (count_useless st) = clock_of st"
  by (simp_all add: clock_of_def count_defs)

lemma install_line_clock [simp]: "clock_of (snd (install_line s w a iw fp c st)) = clock_of st"
  by (simp add: install_line_def Let_def)

lemma start_hit_clock [simp]: "clock_of (snd (start_hit s w iw c st)) = clock_of st"
  by (simp add: start_hit_def Let_def)

lemma cache_start_clock [simp]: "clock_of (snd (cache_start a iw c st)) = clock_of st"
  by (simp add: cache_start_def Let_def split: option.split)

lemma cache_ready_clock [simp]: "clock_of (snd (snd (cache_ready a iw c st))) = clock_of st"
  by (simp add: cache_ready_def Let_def case_prod_beta)

lemma mem_ready_clock [simp]: "clock_of (snd (snd (mem_ready a iw b))) = clock_of (snd b)"
  by (induction a iw b rule: mem_ready.induct) (simp_all add: Let_def case_prod_beta)

lemma cache_drive_clock: "clock_of (snd (snd (snd (cache_drive c b)))) = clock_of (snd b)"
  by (simp add: cache_drive_def service_prefetch_def finish_miss_def Let_def case_prod_beta split: phase.split)

lemma mem_tick_clock [simp]: "clock_of (snd (mem_tick b)) = clock_of (snd b)"
proof (induction b rule: mem_tick.induct)
  case (2 c b st)
  obtain t c' b' st' where d: "cache_drive c (b, st) = (t, c', b', st')" by (cases "cache_drive c (b, st)")
  from "2.IH" [of "(t, c', b', st')" t "(c', b', st')" c' "(b', st')" b' st'] cache_drive_clock [of c "(b, st)"]
  show ?case by (simp add: d case_prod_beta)
qed simp

lemma clock_cong:
  "clock_of s = clock_of t \<Longrightarrow> st_cycles s = st_cycles t \<and> st_instructions s = st_instructions t"
  by (simp add: clock_of_def)

lemma fetch_evaluate_clock:
  "fetch_evaluate bp fs im out = Inr (fs', im', out') \<Longrightarrow> clock_of (snd im') = clock_of (snd im)"
  using mem_ready_clock [of "fs_pc fs" False im]
  by (auto simp: fetch_evaluate_def Let_def res_bind_Inr_iff case_prod_beta split: if_splits)

lemma mem_evaluate_clock:
  "mem_evaluate x ms dm out = Inr (ms', dm', out') \<Longrightarrow>
     clock_of (snd dm') = clock_of (snd dm) \<and> latch_read out' = latch_read out"
  using mem_ready_clock [of "exm_alu_out x" "is_store (exm_op x)" dm]
  by (auto simp: mem_evaluate_def Let_def res_bind_Inr_iff case_prod_beta split: if_splits)

lemma core_evaluate_clock:
  assumes "core_evaluate c = Inr c'"
  shows "clock_of (co_stats c') = clock_of (co_stats c) \<and> latch_read (co_mem_wb c') = latch_read (co_mem_wb c) \<and>
    co_tracer c' = co_tracer c \<and> co_halted c' = co_halted c"
  using assms
  by (auto simp: core_evaluate_def Let_def case_prod_beta res_bind_Inr_iff
      dest!: fetch_evaluate_clock mem_evaluate_clock)

text \<open>The latch phase adds one cycle and nothing else to the first two counters.\<close>

lemma core_latch_mem_clock:
  "clock_of (co_stats (core_latch_mem c)) = clock_of (co_stats c)" "co_tracer (core_latch_mem c) = co_tracer c"
  "co_halted (core_latch_mem c) = co_halted c"
  by (simp_all add: core_latch_mem_def mem_latch_def case_prod_beta)

lemma core_latch_fetch_clock:
  "clock_of (co_stats (core_latch_fetch c)) = clock_of (co_stats c)" "co_tracer (core_latch_fetch c) = co_tracer c"
  "co_halted (core_latch_fetch c) = co_halted c"
  by (simp_all add: core_latch_fetch_def fetch_latch_def case_prod_beta Let_def)

lemma core_latch_side:
  "co_stats (core_latch_decode c) = co_stats c" "co_tracer (core_latch_decode c) = co_tracer c"
  "co_stats (core_latch_hazard c) = co_stats c" "co_tracer (core_latch_hazard c) = co_tracer c"
  "co_stats (capture_ex_operands c) = co_stats c" "co_tracer (capture_ex_operands c) = co_tracer c"
  "co_tracer (core_latch_ex c) = co_tracer c"
  "st_cycles (co_stats (core_latch_ex c)) = st_cycles (co_stats c)"
  "st_instructions (co_stats (core_latch_ex c)) = st_instructions (co_stats c)"
  by (simp_all add: core_latch_decode_def core_latch_hazard_def capture_ex_operands_def core_latch_ex_def
      execute_latch_def case_prod_beta Let_def)

lemma core_latch_wb_side:
  "core_latch_wb c = Inr c' \<Longrightarrow> co_stats c' = co_stats c \<and> co_tracer c' = co_tracer c"
  by (auto simp: core_latch_wb_def res_bind_Inr_iff)

lemma core_latch_counts:
  assumes "(if s then core_latch_stalled c else core_latch_all c) = Inr c'"
  shows "st_cycles (co_stats c') = st_cycles (co_stats c) + 1 \<and>
    st_instructions (co_stats c') = st_instructions (co_stats c) \<and> co_tracer c' = co_tracer c"
proof -
  note m = clock_cong [OF core_latch_mem_clock(1)] and f = clock_cong [OF core_latch_fetch_clock(1)]
  show ?thesis
    using assms
    by (auto simp: core_latch_stalled_def core_latch_all_def res_bind_Inr_iff core_count_cycle_def count_cycle_def
        m f core_latch_side core_latch_mem_clock(2) core_latch_fetch_clock(2) dest!: core_latch_wb_side split: if_splits)
qed

lemma core_tick_counts:
  assumes t: "core_tick c = Inr (b, c')" and h: "\<not> co_halted c"
  shows "st_cycles (co_stats c') = st_cycles (co_stats c) + 1 \<and>
    st_instructions (co_stats c') =
      st_instructions (co_stats c) + of_bool (mwb_valid (latch_read (co_mem_wb c))) \<and>
    co_tracer c' = map_option (tracer_record (latch_read (co_mem_wb c)) (st_cycles (co_stats c))) (co_tracer c)"
proof -
  obtain c1 where e: "core_evaluate c = Inr c1" using t h by (auto simp: core_tick_def res_bind_Inr_iff)
  have l: "(if ms_stalling (co_mem (core_observe c1)) then core_latch_stalled (core_observe c1)
      else core_latch_all (core_observe c1)) = Inr c'"
    using t h e by (auto simp: core_tick_def res_bind_Inr_iff Let_def)
  note ev = core_evaluate_clock [OF e]
  show ?thesis
    using core_latch_counts [OF l] ev clock_cong [OF conjunct1 [OF ev]]
    by (simp add: core_observe_def count_instruction_def Let_def)
qed

section \<open>The loop of run\<close>

text \<open>
  Every iteration adds one to the 64-bit cycle counter, which is below \<open>max_cycles\<close> when the
  iteration starts and therefore does not wrap: the distance to \<open>max_cycles\<close> is the measure.
\<close>

lemma res_bind_cong [fundef_cong]:
  "r = r' \<Longrightarrow> (\<And>x. r' = Inr x \<Longrightarrow> f x = g x) \<Longrightarrow> res_bind r f = res_bind r' g"
  by (cases r') simp_all

lemma cycles_left:
  fixes n m :: u64
  assumes "n < m"
  shows "unat (m - (n + 1)) < unat (m - n)"
proof -
  have "m - n \<noteq> 0" using assms by simp
  then have "unat (m - n - 1) = unat (m - n) - 1" "unat (m - n) > 0"
    by (simp_all add: unat_minus_one unat_gt_0)
  then show ?thesis by (simp add: diff_diff_eq)
qed

function core_run :: "u64 \<Rightarrow> core \<Rightarrow> core res" where
  "core_run max_cycles c =
     (if \<not> co_halted c \<and> st_cycles (co_stats c) < max_cycles
      then res_bind (core_tick c) (\<lambda>r. core_run max_cycles (snd r))
      else Inr c)"
  by pat_completeness auto
termination
  by (relation "measure (\<lambda>(m, c). unat (m - st_cycles (co_stats c)))")
    (auto dest!: core_tick_counts simp: cycles_left)

declare core_run.simps [simp del]

lemma core_run_step:
  "\<not> co_halted c \<Longrightarrow> st_cycles (co_stats c) < m \<Longrightarrow>
     core_run m c = res_bind (core_tick c) (\<lambda>r. core_run m (snd r))"
  by (simp add: core_run.simps [of m c])

lemma core_run_stop: "co_halted c \<or> m \<le> st_cycles (co_stats c) \<Longrightarrow> core_run m c = Inr c"
  by (auto simp: core_run.simps [of m c])

lemma next_cycle_le: "(n :: u64) < m \<Longrightarrow> n + 1 \<le> m"
  by (rule inc_le)

lemma core_run_limit:
  assumes "core_run m c = Inr c'"
  shows "(co_halted c' \<or> m \<le> st_cycles (co_stats c')) \<and>
    (st_cycles (co_stats c) \<le> m \<longrightarrow> st_cycles (co_stats c') \<le> m) \<and>
    (m \<le> st_cycles (co_stats c) \<longrightarrow> c' = c)"
  using assms
proof (induction m c rule: core_run.induct)
  case (1 m c)
  show ?case
  proof (cases "\<not> co_halted c \<and> st_cycles (co_stats c) < m")
    case True
    then obtain b c1 where t: "core_tick c = Inr (b, c1)" and r: "core_run m c1 = Inr c'"
      using "1.prems" by (auto simp: core_run_step res_bind_Inr_iff)
    from "1.IH" [OF True t] r core_tick_counts [OF t] True next_cycle_le [of "st_cycles (co_stats c)" m]
    show ?thesis by (simp add: not_le [symmetric])
  next
    case False
    then show ?thesis using "1.prems" core_run_stop [of c m] by (auto simp: not_less)
  qed
qed

lemma core_run_split:
  assumes "m \<le> n"
  shows "res_bind (core_run m c) (core_run n) = core_run n c"
  using assms
proof (induction m c rule: core_run.induct)
  case (1 m c)
  show ?case
  proof (cases "\<not> co_halted c \<and> st_cycles (co_stats c) < m")
    case True
    then have n: "st_cycles (co_stats c) < n" using "1.prems" by (meson less_le_trans)
    show ?thesis
    proof (cases "core_tick c")
      case (Inr r)
      then show ?thesis using "1.IH" [OF True Inr "1.prems"] True n by (simp add: core_run_step)
    qed (use True n in \<open>simp add: core_run_step\<close>)
  next
    case False
    then show ?thesis using core_run_stop [of c m] by (auto simp: not_less)
  qed
qed

text \<open>
  C27: \<open>Core::run\<close> stops, and stops for the reason it should: it returns a core that has halted
  or has reached \<open>max_cycles\<close>, and it never runs past \<open>max_cycles\<close> (a core that is already
  past it is returned unchanged). An abort of a tick is the only other outcome.
\<close>

theorem run_stops_at_limit:
  assumes "core_run m c = Inr c'"
  shows "(co_halted c' \<or> m \<le> st_cycles (co_stats c')) \<and>
    (st_cycles (co_stats c) \<le> m \<longrightarrow> st_cycles (co_stats c') \<le> m) \<and>
    (m \<le> st_cycles (co_stats c) \<longrightarrow> c' = c)"
  using core_run_limit [OF assms] .

text \<open>
  Running to a limit and then on to a later one is running to the later one: \<open>run\<close> can be
  split at any cycle without changing the result.
\<close>

theorem run_resumes:
  assumes "m \<le> n"
  shows "res_bind (core_run m c) (core_run n) = core_run n c"
  using core_run_split [OF assms] .

section \<open>The log of retired instructions\<close>

text \<open>
  At most \<open>k\<close> cycles; the log holds the entries that were valid at the input of WB, which is
  what \<open>tick\<close> hands to the tracer.
\<close>

fun core_ticks :: "nat \<Rightarrow> core \<Rightarrow> (mem_wb list \<times> core) res" where
  "core_ticks 0 c = Inr ([], c)"
| "core_ticks (Suc k) c =
     (if co_halted c then Inr ([], c)
      else res_bind (core_tick c) (\<lambda>(b, c').
           res_bind (core_ticks k c') (\<lambda>(log, c'').
             let w = latch_read (co_mem_wb c) in Inr ((if mwb_valid w then [w] else []) @ log, c''))))"

lemmas core_ticks_numeral =
  core_ticks.simps(2) [where k = "pred_numeral n" for n, folded numeral_eq_Suc]

lemma core_ticks_SucE:
  assumes "core_ticks (Suc k) c = Inr (log, c')" and "\<not> co_halted c"
  obtains b c1 log1 where "core_tick c = Inr (b, c1)" and "core_ticks k c1 = Inr (log1, c')"
    and "log = (if mwb_valid (latch_read (co_mem_wb c)) then [latch_read (co_mem_wb c)] else []) @ log1"
  using assms by (auto simp: res_bind_Inr_iff Let_def)

lemma core_ticks_halted: "co_halted c \<Longrightarrow> core_ticks k c = Inr ([], c)"
  by (cases k) simp_all

lemma core_ticks_instructions:
  assumes "core_ticks k c = Inr (log, c')"
  shows "st_instructions (co_stats c') = st_instructions (co_stats c) + of_nat (length log)"
  using assms
proof (induction k arbitrary: c log)
  case (Suc k)
  show ?case
  proof (cases "co_halted c")
    case False
    with Suc.prems obtain b c1 log1 where "core_tick c = Inr (b, c1)" "core_ticks k c1 = Inr (log1, c')"
      "log = (if mwb_valid (latch_read (co_mem_wb c)) then [latch_read (co_mem_wb c)] else []) @ log1"
      by (rule core_ticks_SucE)
    then show ?thesis using Suc.IH core_tick_counts False by (auto simp: ac_simps)
  qed (use Suc.prems in auto)
qed simp

lemma core_ticks_elapsed:
  assumes "core_ticks k c = Inr (log, c')"
  shows "\<exists>n \<le> k. st_cycles (co_stats c') = st_cycles (co_stats c) + of_nat n \<and> length log \<le> n \<and>
    (\<not> co_halted c' \<longrightarrow> n = k)"
  using assms
proof (induction k arbitrary: c log)
  case (Suc k)
  show ?case
  proof (cases "co_halted c")
    case False
    with Suc.prems obtain b c1 log1 where t: "core_tick c = Inr (b, c1)"
      and r: "core_ticks k c1 = Inr (log1, c')"
      and l: "log = (if mwb_valid (latch_read (co_mem_wb c)) then [latch_read (co_mem_wb c)] else []) @ log1"
      by (rule core_ticks_SucE)
    from Suc.IH [OF r] obtain n where "n \<le> k" "st_cycles (co_stats c') = st_cycles (co_stats c1) + of_nat n"
      "length log1 \<le> n" "\<not> co_halted c' \<longrightarrow> n = k" by blast
    with core_tick_counts [OF t False] show ?thesis by (auto simp: l ac_simps intro!: exI [of _ "Suc n"])
  qed (use Suc.prems in auto)
qed auto

text \<open>
  The counters count. Over any run, \<open>instructions\<close> grows by the number of retired
  instructions, and \<open>cycles\<close> by the number of cycles when the core has not halted, by no more
  than that otherwise (both modulo \<open>2 ^ 64\<close>).
\<close>

theorem counters_count:
  assumes "core_ticks k c = Inr (log, c')"
  shows "st_instructions (co_stats c') = st_instructions (co_stats c) + of_nat (length log) \<and>
    (\<exists>n \<le> k. st_cycles (co_stats c') = st_cycles (co_stats c) + of_nat n \<and> length log \<le> n \<and>
       (\<not> co_halted c' \<longrightarrow> n = k))"
  using core_ticks_instructions [OF assms] core_ticks_elapsed [OF assms] by blast

text \<open>
  With a tracer in \<open>Commit\<close> format attached, a run appends one line per retired instruction, in
  order, and no other.
\<close>

lemma core_ticks_trace:
  assumes "core_ticks k c = Inr (log, c')" and "co_tracer c = Some t" and "tr_fmt t = Fmt_Commit"
  shows "co_tracer c' = Some (t\<lparr>tr_out := tr_out t @ map commit_line log\<rparr>)"
  using assms
proof (induction k arbitrary: c log t)
  case (Suc k)
  show ?case
  proof (cases "co_halted c")
    case False
    with Suc.prems(1) obtain b c1 log1 where t: "core_tick c = Inr (b, c1)"
      and r: "core_ticks k c1 = Inr (log1, c')"
      and l: "log = (if mwb_valid (latch_read (co_mem_wb c)) then [latch_read (co_mem_wb c)] else []) @ log1"
      by (rule core_ticks_SucE)
    have "co_tracer c1 = Some (tracer_record (latch_read (co_mem_wb c)) (st_cycles (co_stats c)) t)"
      using core_tick_counts [OF t False] Suc.prems(2) by simp
    from Suc.IH [OF r this] Suc.prems(3) show ?thesis
      by (simp add: l tracer_record_def)
  qed (use Suc.prems in auto)
qed auto

lemma core_ticks_cycles:
  assumes "core_ticks k c = Inr (log, c')" and "\<not> co_halted c'"
  shows "st_cycles (co_stats c') = st_cycles (co_stats c) + of_nat k"
  using core_ticks_elapsed [OF assms(1)] assms(2) by auto

text \<open>Every result of \<open>run\<close> is the result of some number of ticks, and one of the two exits.\<close>

lemma core_run_ticks:
  assumes "core_run m c = Inr c'"
  shows "\<exists>k log. core_ticks k c = Inr (log, c') \<and> (co_halted c' \<or> m \<le> st_cycles (co_stats c'))"
  using assms
proof (induction m c rule: core_run.induct)
  case (1 m c)
  show ?case
  proof (cases "\<not> co_halted c \<and> st_cycles (co_stats c) < m")
    case True
    then obtain b c1 where t: "core_tick c = Inr (b, c1)" and r: "core_run m c1 = Inr c'"
      using "1.prems" by (auto simp: core_run_step res_bind_Inr_iff)
    from "1.IH" [OF True t] r obtain k log where "core_ticks k c1 = Inr (log, c')"
      "co_halted c' \<or> m \<le> st_cycles (co_stats c')" by auto
    then show ?thesis using True t
      by (intro exI [of _ "Suc k"]) (simp add: Let_def)
  next
    case False
    then have "core_ticks 0 c = Inr ([], c') \<and> (co_halted c' \<or> m \<le> st_cycles (co_stats c'))" using "1.prems" core_run_stop [of c m] by (auto simp: not_less)
    then show ?thesis by blast
  qed
qed

end
