(* ===== verification/Demo_Core.thy ===== *)
theory Demo_Core
  imports Core_Run
begin

text \<open>
  A concrete run, on which the statements about runs are instantiated: three instructions in
  a 32-byte memory, the default configuration otherwise, a tracer in \<open>Commit\<close> format. The
  simplifier evaluates the core by the equations of its stages; the congruences keep it from
  rewriting a continuation before its argument is a value.
\<close>

definition demo_config :: sim_config where
  "demo_config = default_config\<lparr>ram_size_bytes := 32\<rparr>"

text \<open>\<open>addi x1, x0, 5; addi x2, x1, 1; ebreak\<close>\<close>

definition demo_prog :: "u32 list" where
  "demo_prog = [0x00500093, 0x00108113, 0x00100073]"

definition demo_dmem :: flat_mem where
  "demo_dmem = flat_init 0x80000000 32 1"

definition demo_imem :: flat_mem where
  "demo_imem = demo_dmem\<lparr>fm_mem :=
     [0x93, 0, 0x50, 0, 0x13, 0x81, 0x10, 0, 0x73, 0, 0x10, 0] @ replicate 20 0\<rparr>"

definition demo_tracer :: tracer where
  "demo_tracer = \<lparr>tr_out = [], tr_fmt = Fmt_Commit\<rparr>"

definition demo_core :: core where
  "demo_core =
     \<lparr>co_base = 0x80000000, co_imem = Flat demo_imem, co_dmem = Flat demo_dmem, co_rf = regfile_init,
      co_bpred = None, co_stats = stats_init,
      co_if_id = latch_init if_id_bubble, co_id_ex = latch_init id_ex_bubble,
      co_ex_mem = latch_init ex_mem_bubble, co_mem_wb = latch_init mem_wb_bubble,
      co_fetch = fetch_init 0x80000000, co_decode = decode_init,
      co_fwd = forward_init, co_ex = execute_init, co_mem = \<lparr>ms_stalling = False\<rparr>,
      co_wb = wb_init, co_hazard = \<lparr>hz_stall = False\<rparr>, co_tracer = Some demo_tracer,
      co_halted = False, co_halt_reason = Halt_None, co_halt_pc = 0, co_halt_raw = 0\<rparr>"

section \<open>Evaluation\<close>

lemma res_bind_weak_cong: "r = r' \<Longrightarrow> res_bind r f = res_bind r' f"
  by simp

lemma Let_weak_cong: "r = r' \<Longrightarrow> Let r f = Let r' f"
  by simp

lemma numeral_list:
  "replicate (numeral k) x = x # replicate (pred_numeral k) x"
  "(x # xs)[numeral k := y] = x # xs[pred_numeral k := y]"
  by (simp_all add: numeral_eq_Suc)

lemma decode_demo:
  "decode 0x00500093 pc = \<lparr>in_raw = 0x00500093, in_pc = pc, in_op = Op_ADDI, in_rd = 1, in_rs1 = 0,
     in_rs2 = 0, in_imm = 5\<rparr>"
  "decode 0x00108113 pc = \<lparr>in_raw = 0x00108113, in_pc = pc, in_op = Op_ADDI, in_rd = 2, in_rs1 = 1,
     in_rs2 = 0, in_imm = 1\<rparr>"
  "decode 0x00100073 pc = \<lparr>in_raw = 0x00100073, in_pc = pc, in_op = Op_EBREAK, in_rd = 0, in_rs1 = 0,
     in_rs2 = 0, in_imm = 0\<rparr>"
  "decode 0 pc = \<lparr>in_raw = 0, in_pc = pc, in_op = Op_ILLEGAL, in_rd = 0, in_rs1 = 0, in_rs2 = 0, in_imm = 0\<rparr>"
  subgoal by code_simp
  subgoal by code_simp
  subgoal by code_simp
  subgoal by code_simp
  done

lemmas memory_eval =
  flat_load_word_def flat_offset_def flat_ready_def flat_tick_def flat_init_def vec_get_def numeral_list

lemmas evaluate_eval =
  core_evaluate_def fetch_evaluate_def fetch_predict_def decode_evaluate_def decode_demo
  regfile_read_def regfile_init_def kNumRegs_def forward_evaluate_def execute_evaluate_def resolve_def
  ex_alu_out_def ex_actual_taken_def ex_target_def uses_imm_def is_cond_branch_def mem_evaluate_def
  is_mem_op_def is_store_def wb_evaluate_def has_writeback_def hazard_evaluate_def is_load_def

lemmas latch_eval =
  latch_defs core_latch_stalled_def core_latch_all_def core_latch_wb_def core_latch_mem_def
  core_latch_ex_def core_latch_hazard_def core_latch_decode_def core_latch_fetch_def fetch_latch_def
  decode_latch_def forward_latch_def execute_latch_def mem_latch_def wb_latch_def hazard_latch_def
  regfile_write_def core_count_cycle_def count_defs

lemmas tick_eval =
  core_tick_def core_observe_def tracer_record_def evaluate_eval latch_eval memory_eval Let_def

lemmas demo_init =
  demo_core_def demo_imem_def demo_dmem_def demo_tracer_def fetch_init_def decode_init_def
  forward_init_def execute_init_def wb_init_def if_id_bubble_def id_ex_bubble_def ex_mem_bubble_def
  mem_wb_bubble_def stats_init_def

text \<open>The constructor and the program loader build it.\<close>

lemma demo_loads:
  "res_bind (core_init demo_config) (load_program demo_prog) = Inr (demo_core\<lparr>co_tracer := None\<rparr>)"
  supply [cong] = res_bind_weak_cong
  by (simp add: core_init_def core_imem_def core_dmem_def core_bpred_def demo_config_def default_config_def
      load_program_def demo_prog_def demo_imem_def demo_dmem_def demo_core_def flat_init_def
      flat_store_word_def flat_offset_def vec_set_def numeral_list)

text \<open>Seven cycles retire the three instructions and halt the core.\<close>

lemma demo_run:
  "\<exists>log c. core_ticks 7 demo_core = Inr (log, c) \<and> co_halted c \<and>
     map mwb_op log = [Op_ADDI, Op_ADDI, Op_EBREAK]"
  supply [cong] = res_bind_weak_cong Let_weak_cong
  by (simp add: demo_init tick_eval core_ticks_numeral)

text \<open>After five cycles one instruction has retired and the second is in WB.\<close>

lemma demo_midway:
  "\<exists>log c. core_ticks 5 demo_core = Inr (log, c) \<and> \<not> co_halted c \<and> length log = 1 \<and>
     mwb_valid (latch_read (co_mem_wb c)) \<and> mwb_op (latch_read (co_mem_wb c)) = Op_ADDI"
  supply [cong] = res_bind_weak_cong Let_weak_cong
  by (simp add: demo_init tick_eval core_ticks_numeral)

text \<open>A limit of two cycles stops it before it halts.\<close>

lemma demo_limit:
  "\<exists>c. core_run 2 demo_core = Inr c \<and> \<not> co_halted c"
  supply [cong] = res_bind_weak_cong Let_weak_cong
  by (simp add: demo_init tick_eval core_run.simps)

text \<open>The same core with an instruction memory of latency 2 takes twelve cycles.\<close>

definition demo_slow :: core where
  "demo_slow = demo_core\<lparr>co_imem := Flat (demo_imem\<lparr>fm_latency := 2\<rparr>)\<rparr>"

lemma demo_slow_run:
  "\<exists>log c. core_ticks 12 demo_slow = Inr (log, c) \<and> co_halted c \<and> length log = 3"
  supply [cong] = res_bind_weak_cong Let_weak_cong
  by (simp add: demo_slow_def demo_init tick_eval core_ticks_numeral)

section \<open>Instances of the statements about runs\<close>

theorem run_stops_at_limit_witness:
  "\<exists>c. core_run 2 demo_core = Inr c \<and> \<not> co_halted c \<and> st_cycles (co_stats c) = 2"
proof -
  obtain c where c: "core_run 2 demo_core = Inr c" "\<not> co_halted c" using demo_limit by blast
  have "st_cycles (co_stats demo_core) = 0" by (simp add: demo_core_def stats_init_def)
  with run_stops_at_limit [OF c(1)] c show ?thesis by (auto intro: order_antisym)
qed

theorem run_resumes_witness:
  "res_bind (core_run 2 demo_core) (core_run 9) = core_run 9 demo_core"
  by (rule run_resumes) simp

theorem counters_count_witness:
  "\<exists>log c. core_ticks 5 demo_core = Inr (log, c) \<and>
     st_cycles (co_stats c) = 5 \<and> st_instructions (co_stats c) = 1"
proof -
  obtain log c where c: "core_ticks 5 demo_core = Inr (log, c)" "\<not> co_halted c" "length log = 1"
    using demo_midway by blast
  have "st_cycles (co_stats demo_core) = 0" "st_instructions (co_stats demo_core) = 0"
    by (simp_all add: demo_core_def stats_init_def)
  with counters_count [OF c(1)] c show ?thesis by auto
qed

end
