(* ===== verification/Commit_Log.thy ===== *)
theory Commit_Log
  imports Core_Refinement Demo_Core
begin

unbundle bit_operations_syntax

text \<open>
  The commit log of a run and its agreement with the reference machine. A commit is what the
  retirement of an instruction shows: its address and word, the register it writes, the memory
  it reads or writes. This is the content of the commit trace that the repository compares with
  Spike (\<open>docs/simulation.md\<close>).
\<close>

section \<open>Commits\<close>

record commit =
  cm_pc :: u32
  cm_raw :: u32
  cm_op :: op
  cm_reg :: "(u8 \<times> u32) option"
  cm_load :: "u32 option"
  cm_store :: "(u32 \<times> u32) option"

definition commit_of :: "mem_wb \<Rightarrow> commit" where
  "commit_of w =
     \<lparr>cm_pc = mwb_pc w, cm_raw = mwb_raw w, cm_op = mwb_op w,
      cm_reg = (if has_writeback (mwb_op w) \<and> mwb_rd w \<noteq> 0 then Some (mwb_rd w, mwb_wb_val w) else None),
      cm_load = (if is_load_op (mwb_op w) then Some (mwb_mem_addr w) else None),
      cm_store = (if mwb_is_store w then Some (mwb_mem_addr w, mwb_mem_val w) else None)\<rparr>"

definition isa_commit :: "byte_map \<Rightarrow> arch \<Rightarrow> commit" where
  "isa_commit im s =
     (let i = isa_insn im s in
      \<lparr>cm_pc = a_pc s, cm_raw = isa_fetch im (a_pc s), cm_op = in_op i,
       cm_reg = (if isa_writes (in_op i) \<and> in_rd i \<noteq> 0 then Some (in_rd i, isa_value im s) else None),
       cm_load = (if isa_is_load (in_op i) then Some (isa_addr im s) else None),
       cm_store = (if is_store (in_op i) then Some (isa_addr im s, isa_store_val (in_op i) (isa_v2 im s))
                   else None)\<rparr>)"

lemma commit_ok: "w_ok im w s \<Longrightarrow> commit_of w = isa_commit im s"
  by (auto simp: w_ok_def commit_of_def isa_commit_def Let_def op_classes(1,2) is_load_op_def isa_is_load_def)

text \<open>The line that the commit trace shows for a commit.\<close>

definition isa_effect :: "commit \<Rightarrow> string" where
  "isa_effect cm =
     (case cm_store cm of
        Some (a, v) \<Rightarrow> '' mem 0x'' @ hex 8 a @ '' 0x'' @ hex (store_hex_digits (cm_op cm)) v
      | None \<Rightarrow>
          (case cm_reg cm of
             Some (r, v) \<Rightarrow> '' x'' @ pad_right 2 (dec (uint r)) @ '' 0x'' @ hex 8 v @
               (case cm_load cm of Some a \<Rightarrow> '' mem 0x'' @ hex 8 a | None \<Rightarrow> [])
           | None \<Rightarrow> []))"

definition isa_line :: "commit \<Rightarrow> string" where
  "isa_line cm =
     buffer 128 (''core   0: 3 0x'' @ hex 8 (cm_pc cm) @ '' (0x'' @ hex 8 (cm_raw cm) @ '')'' @
                 buffer 64 (isa_effect cm))"

text \<open>
  A retired illegal instruction is the exception: the tracer prints its destination field as a
  register write, although WB does not write it.
\<close>

lemma commit_line_ok:
  assumes "w_ok im w s" and "in_op (isa_insn im s) \<noteq> Op_ILLEGAL"
  shows "commit_line w = isa_line (isa_commit im s)"
proof -
  have rd: "has_writeback (mwb_op w) \<or> mwb_rd w = 0"
    using assms insn_rd_zero [of im s] by (auto simp: w_ok_def Let_def op_classes(1))
  have st: "mwb_is_store w \<Longrightarrow> cm_store (commit_of w) = Some (mwb_mem_addr w, mwb_mem_val w)"
    by (simp add: commit_of_def)
  have "commit_line w = isa_line (commit_of w)"
    using rd by (auto simp: commit_line_def isa_line_def isa_effect_def format_effect_def commit_of_def buffer_def)
  then show ?thesis using commit_ok [OF assms(1)] by simp
qed

section \<open>Fresh cores\<close>

text \<open>A core whose pipeline is empty, as the constructor leaves it.\<close>

definition fresh :: "core \<Rightarrow> bool" where
  "fresh c \<longleftrightarrow> quiet c \<and> \<not> co_halted c \<and> \<not> mwb_valid (latch_read (co_mem_wb c)) \<and>
     \<not> exm_valid (latch_read (co_ex_mem c)) \<and> \<not> idex_valid (latch_read (co_id_ex c)) \<and>
     \<not> ifid_valid (latch_read (co_if_id c)) \<and>
     (\<forall>b. co_bpred c = Some b \<longrightarrow> bp_wf b \<and> (\<forall>e \<in> set (bp_btb b). \<not> be_valid e))"

definition core_arch :: "core \<Rightarrow> arch" where
  "core_arch c = \<lparr>a_pc = fs_pc (co_fetch c), a_regs = core_regs (co_rf c), a_mem = mem_bytes (co_dmem c)\<rparr>"

lemma core_init_fresh:
  assumes "core_init cfg = Inr c" and "bpred_enabled cfg \<Longrightarrow> bpred_bht_entries cfg \<noteq> 0"
  shows "fresh c \<and> fs_pc (co_fetch c) = ram_base_addr cfg \<and> co_base c = ram_base_addr cfg"
proof -
  obtain imem dmem bp where i: "core_imem cfg = Inr imem" "core_dmem cfg = Inr dmem" "core_bpred cfg = Inr bp"
    using assms(1) by (auto simp: core_init_def res_bind_Inr_iff)
  have "bp_wf b \<and> (\<forall>e \<in> set (bp_btb b). \<not> be_valid e)" if "bp = Some b" for b
    using i(3) that assms(2) bp_init_wf [of "bpred_bht_entries cfg" "bpred_btb_entries cfg"]
    by (auto simp: core_bpred_def res_bind_Inr_iff split: if_splits)
  then show ?thesis
    using assms(1) i by (auto simp: core_init_def fresh_def quiet_def fetch_init_def decode_init_def)
qed

lemma fresh_frame [simp]:
  "fresh (c\<lparr>co_imem := m\<rparr>) = fresh c" "fresh (c\<lparr>co_dmem := m\<rparr>) = fresh c"
  "fresh (c\<lparr>co_tracer := t\<rparr>) = fresh c"
  by (simp_all add: fresh_def quiet_def)

lemma load_program_fresh: "load_program ws c = Inr c' \<Longrightarrow> fresh c' = fresh c"
  by (auto simp: load_program_def res_bind_Inr_iff)

lemma fresh_inv:
  assumes "fresh c"
  shows "pipe_inv (mem_bytes (co_imem c)) (core_arch c) (co_bpred c = None) 0 (core_view c)"
proof -
  have "bp_sound (mem_bytes (co_imem c)) (co_bpred c)"
    using assms by (auto simp: fresh_def bp_sound_def btb_entry_ok_def)
  then show ?thesis
    using assms
    by (simp add: fresh_def pipe_inv_def core_arch_def core_view_def next_w_def next_x_def front_ok_def
        front_pc_def f_ok_def)
qed

lemma core_regs_x0: "regfile_wf rf \<Longrightarrow> core_regs rf 0 = 0"
  by (simp add: core_regs_def)

section \<open>The log agrees with the reference machine\<close>

text \<open>Every step writes back what WB held.\<close>

lemma pipe_step_regs: "pipe_step im v v' \<Longrightarrow> v_regs v' = wb_regs (v_w v) (v_regs v)"
  by (erule pipe_step.cases) simp_all

lemma core_ticks_log:
  assumes "core_ticks k c = Inr (log, c')" and "quiet c" and "\<not> co_halted c"
    and "mem_bytes (co_imem c) = im" and "pipe_inv im a nb n (core_view c)"
    and x0: "a_regs a 0 = 0" and al: "\<forall>j. live im a j \<longrightarrow> ok_pc nb (a_pc (isa_run im a j))"
  shows "list_all2 (w_ok im) log (map (isa_run im a) [n ..< n + length log]) \<and>
    core_regs (co_rf c') = a_regs (isa_run im a (n + length log)) \<and>
    (if co_halted c' then log \<noteq> [] \<and> live im a (n + length log - 1) \<and> \<not> live im a (n + length log)
     else quiet c' \<and> mem_bytes (co_imem c') = im \<and> pipe_inv im a nb (n + length log) (core_view c'))"
  using assms(1-5)
proof (induction k arbitrary: c n log)
  case 0
  then show ?case using pipe_invD(3) [OF 0(5)] by (auto simp: core_view_def)
next
  case (Suc k)
  let ?w = "latch_read (co_mem_wb c)"
  obtain b c1 log1 where t: "core_tick c = Inr (b, c1)" and r: "core_ticks k c1 = Inr (log1, c')"
    and log: "log = (if mwb_valid ?w then [?w] else []) @ log1"
    using Suc.prems(1,3) by (auto simp: res_bind_Inr_iff Let_def)
  note s = core_tick_step [OF t Suc.prems(3,2), unfolded Suc.prems(4)]
  have vw: "v_w (core_view c) = ?w" by (simp add: core_view_def)
  have D: "mwb_valid ?w \<Longrightarrow> w_ok im ?w (isa_run im a n)" "v_regs (core_view c) = a_regs (isa_run im a n)" "live im a n"
    using pipe_invD [OF Suc.prems(5)] vw by auto
  have regs1: "core_regs (co_rf c1) = a_regs (isa_run im a (next_w (core_view c) n))"
  proof -
    have "v_regs (core_view c1) = wb_regs ?w (a_regs (isa_run im a n))"
      using pipe_step_regs [OF conjunct1 [OF s]] D(2) vw by simp
    then have "core_regs (co_rf c1) = wb_regs ?w (a_regs (isa_run im a n))" by (simp add: core_view_def)
    then show ?thesis
      using D(1) wb_regs_ok [of im ?w "isa_run im a n"]
      by (cases "mwb_valid ?w") (simp_all add: next_w_def vw, simp add: wb_regs_def)
  qed
  have len: "n + length log = next_w (core_view c) n + length log1" by (simp add: log next_w_def vw)
  have upt: "list_all2 (w_ok im) log (map (isa_run im a) [n ..< n + length log])"
    if "list_all2 (w_ok im) log1 (map (isa_run im a) [next_w (core_view c) n ..< next_w (core_view c) n + length log1])"
    using that D(1) by (auto simp: log next_w_def vw upt_conv_Cons simp del: upt_Suc)
  show ?case
  proof (cases "co_halted c1")
    case True
    then have w: "mwb_valid ?w" "isa_halting (mwb_op ?w)" using s vw by auto
    have e: "log1 = []" "c' = c1" using r True by (cases k; simp)+
    have "\<not> live im a (Suc n)" using w D(1) by (simp add: live_Suc w_ok_def Let_def)
    then show ?thesis using True upt regs1 D(3) w e by (simp add: log next_w_def vw)
  next
    case False
    then have nh: "\<not> (mwb_valid (v_w (core_view c)) \<and> isa_halting (mwb_op (v_w (core_view c))))" using s by simp
    have "pipe_inv im a nb (next_w (core_view c) n) (core_view c1)"
      using s by (intro pipe_step_inv [OF _ Suc.prems(5) nh x0 al]) simp
    then have "list_all2 (w_ok im) log1
          (map (isa_run im a) [next_w (core_view c) n ..< next_w (core_view c) n + length log1]) \<and>
        core_regs (co_rf c') = a_regs (isa_run im a (next_w (core_view c) n + length log1)) \<and>
        (if co_halted c' then log1 \<noteq> [] \<and> live im a (next_w (core_view c) n + length log1 - 1) \<and>
           \<not> live im a (next_w (core_view c) n + length log1)
         else quiet c' \<and> mem_bytes (co_imem c') = im \<and>
           pipe_inv im a nb (next_w (core_view c) n + length log1) (core_view c'))"
      using s Suc.prems(4) by (intro Suc.IH [OF r _ False]) simp_all
    moreover have "log1 \<noteq> [] \<Longrightarrow> log \<noteq> []" by (simp add: log)
    ultimately show ?thesis unfolding len [symmetric] using upt len by (auto split: if_splits)
  qed
qed

lemma log_commits:
  "list_all2 (w_ok im) log (map f [n ..< m]) \<Longrightarrow> map commit_of log = map (\<lambda>j. isa_commit im (f j)) [n ..< m]"
  by (auto simp: list_all2_conv_all_nth commit_ok intro!: nth_equalityI)

text \<open>The hypothesis on word-aligned addresses, and what a fresh run has.\<close>

definition aligned_run :: "core \<Rightarrow> bool" where
  "aligned_run c \<longleftrightarrow>
     (\<forall>j. live (mem_bytes (co_imem c)) (core_arch c) j \<longrightarrow>
       co_bpred c = None \<or> take_bit 2 (a_pc (isa_run (mem_bytes (co_imem c)) (core_arch c) j)) = 0)"

lemma fresh_ticks:
  assumes "fresh c" and "core_ticks k c = Inr (log, c')" and "aligned_run c"
  defines "im \<equiv> mem_bytes (co_imem c)" and "a \<equiv> core_arch c"
  shows "list_all2 (w_ok im) log (map (isa_run im a) [0 ..< length log]) \<and>
    core_regs (co_rf c') = a_regs (isa_run im a (length log)) \<and>
    (if co_halted c' then log \<noteq> [] \<and> live im a (length log - 1) \<and> \<not> live im a (length log)
     else mem_bytes (co_imem c') = im \<and> pipe_inv im a (co_bpred c = None) (length log) (core_view c'))"
proof -
  have q: "quiet c" "\<not> co_halted c" using assms(1) by (simp_all add: fresh_def)
  have x0: "a_regs (core_arch c) 0 = 0" using q(1) by (simp add: core_arch_def quiet_def core_regs_x0)
  have al: "\<forall>j. live (mem_bytes (co_imem c)) (core_arch c) j \<longrightarrow>
      ok_pc (co_bpred c = None) (a_pc (isa_run (mem_bytes (co_imem c)) (core_arch c) j))"
    using assms(3) by (simp add: ok_pc_def aligned_run_def)
  from core_ticks_log [OF assms(2) q refl fresh_inv [OF assms(1)] x0 al] show ?thesis
    unfolding im_def a_def by (auto split: if_splits)
qed

lemma halted_length:
  assumes "fresh c" and "aligned_run c" and "core_ticks k c = Inr (log, c')" and "co_halted c'"
    and "live (mem_bytes (co_imem c)) (core_arch c) n"
    and "\<not> live (mem_bytes (co_imem c)) (core_arch c) (Suc n)"
  shows "length log = Suc n"
proof -
  have l: "log \<noteq> []" "live (mem_bytes (co_imem c)) (core_arch c) (length log - 1)"
    "\<not> live (mem_bytes (co_imem c)) (core_arch c) (length log)" using fresh_ticks [OF assms(1,3,2)] assms(4) by auto
  have "\<not> length log \<le> n" "\<not> Suc n \<le> length log - 1"
    using l(3) live_mono [OF assms(5)] assms(6) live_mono [OF l(2)] by blast+
  then show ?thesis by simp
qed

text \<open>
  C1: the pipeline implements the instruction set. Start a core with an empty pipeline (as
  constructed, with any caches, latencies, prefetcher and predictor), and let any number of
  cycles complete without an abort. The instructions that retired are, in order, the first
  ones of the reference machine's run from the same PC, registers and memory, with the same
  register writes and memory accesses; the register file is the machine's after that many
  instructions; if the core has halted, the last of them is the first \<open>EBREAK\<close> or illegal
  instruction of the run, and otherwise none of them is one. With a predictor, the addresses
  the machine executes must be word-aligned.
\<close>

theorem commit_log_correct:
  assumes "fresh c" and "aligned_run c" and "core_ticks k c = Inr (log, c')"
  shows "map commit_of log =
      map (\<lambda>j. isa_commit (mem_bytes (co_imem c)) (isa_run (mem_bytes (co_imem c)) (core_arch c) j))
        [0 ..< length log] \<and>
    core_regs (co_rf c') = a_regs (isa_run (mem_bytes (co_imem c)) (core_arch c) (length log)) \<and>
    (if co_halted c'
     then log \<noteq> [] \<and> isa_halting (cm_op (commit_of (last log))) \<and>
       live (mem_bytes (co_imem c)) (core_arch c) (length log - 1)
     else live (mem_bytes (co_imem c)) (core_arch c) (length log))"
proof -
  let ?im = "mem_bytes (co_imem c)" and ?a = "core_arch c"
  note L = fresh_ticks [OF assms(1,3,2)]
  have cm: "map commit_of log = map (\<lambda>j. isa_commit ?im (isa_run ?im ?a j)) [0 ..< length log]"
    using log_commits [OF conjunct1 [OF L]] .
  have "isa_halting (cm_op (commit_of (last log)))" if h: "co_halted c'"
  proof -
    have ne: "log \<noteq> []" and lv: "live ?im ?a (length log - 1)" "\<not> live ?im ?a (length log)"
      using L h by auto
    then obtain m where m: "length log = Suc m" by (cases log) auto
    have "commit_of (last log) = map commit_of log ! m"
      using ne m by (simp add: last_conv_nth)
    also have "\<dots> = isa_commit ?im (isa_run ?im ?a m)" using cm m by (simp del: upt_Suc)
    finally show ?thesis using lv m by (simp add: live_Suc isa_commit_def Let_def)
  qed
  then show ?thesis using L cm pipe_invD(1) by (auto split: if_splits)
qed

section \<open>Witnesses and consequences\<close>

lemma demo_fresh: "fresh demo_core"
  by (simp add: fresh_def quiet_def demo_core_def fetch_init_def decode_init_def)

lemma demo_aligned: "aligned_run demo_core"
  by (simp add: aligned_run_def demo_core_def)

theorem commit_log_correct_witness:
  "\<exists>log c'. core_ticks 7 demo_core = Inr (log, c') \<and> co_halted c' \<and> length log = 3 \<and>
    map commit_of log =
      map (\<lambda>j. isa_commit (mem_bytes (co_imem demo_core))
             (isa_run (mem_bytes (co_imem demo_core)) (core_arch demo_core) j)) [0 ..< 3] \<and>
    core_regs (co_rf c') = a_regs (isa_run (mem_bytes (co_imem demo_core)) (core_arch demo_core) 3)"
proof -
  obtain log c' where r: "core_ticks 7 demo_core = Inr (log, c')" "co_halted c'"
      "map mwb_op log = [Op_ADDI, Op_ADDI, Op_EBREAK]"
    using demo_run by (elim exE conjE)
  from arg_cong [OF r(3), of length] have "length log = 3" by simp
  then show ?thesis using commit_log_correct [OF demo_fresh demo_aligned r(1)] r by auto
qed

lemma fresh_lines:
  assumes "fresh c" and "core_ticks k c = Inr (log, c')" and "aligned_run c" and "\<forall>w \<in> set log. mwb_op w \<noteq> Op_ILLEGAL"
  defines "im \<equiv> mem_bytes (co_imem c)" and "a \<equiv> core_arch c"
  shows "map commit_line log = map (\<lambda>j. isa_line (isa_commit im (isa_run im a j))) [0 ..< length log]"
proof -
  have w: "w_ok im (log ! j) (isa_run im a j)" if "j < length log" for j
    using fresh_ticks [OF assms(1-3)] that by (auto simp: list_all2_conv_all_nth im_def a_def)
  have "commit_line (log ! j) = isa_line (isa_commit im (isa_run im a j))" if "j < length log" for j
    using w [OF that] assms(4) that by (intro commit_line_ok) (auto simp: w_ok_def Let_def)
  then show ?thesis by (intro nth_equalityI) simp_all
qed

text \<open>
  C3: the commit trace is the reference machine's. With a tracer in \<open>Commit\<close> format, a run that
  retires no illegal instruction prints, line by line, what the reference machine's run would
  print: this is the comparison with Spike's log, for every program and configuration.
\<close>

theorem commit_trace_correct:
  assumes "fresh c" and "aligned_run c" and "core_ticks k c = Inr (log, c')"
    and "co_tracer c = Some t" and "tr_fmt t = Fmt_Commit"
    and "\<forall>w \<in> set log. mwb_op w \<noteq> Op_ILLEGAL"
  shows "co_tracer c' = Some (t\<lparr>tr_out := tr_out t @
    map (\<lambda>j. isa_line (isa_commit (mem_bytes (co_imem c)) (isa_run (mem_bytes (co_imem c)) (core_arch c) j)))
      [0 ..< length log]\<rparr>)"
  using core_ticks_trace [OF assms(3-5)] fresh_lines [OF assms(1,3,2,6)] by simp

theorem commit_trace_correct_witness:
  "\<exists>log c. core_ticks 7 demo_core = Inr (log, c) \<and>
     co_tracer c = Some (demo_tracer\<lparr>tr_out :=
       map (\<lambda>j. isa_line (isa_commit (mem_bytes (co_imem demo_core))
         (isa_run (mem_bytes (co_imem demo_core)) (core_arch demo_core) j))) [0 ..< 3]\<rparr>)"
proof -
  obtain log c where r: "core_ticks 7 demo_core = Inr (log, c)"
      "map mwb_op log = [Op_ADDI, Op_ADDI, Op_EBREAK]"
    using demo_run by (elim exE conjE)
  from arg_cong [OF r(2), of length] have n: "length log = 3" by simp
  have "Op_ILLEGAL \<notin> set (map mwb_op log)" unfolding r(2) by simp
  then have op: "\<forall>w \<in> set log. mwb_op w \<noteq> Op_ILLEGAL" by force
  have "co_tracer demo_core = Some demo_tracer" "tr_fmt demo_tracer = Fmt_Commit" "tr_out demo_tracer = []"
    by (simp_all add: demo_core_def demo_tracer_def)
  then show ?thesis using commit_trace_correct [OF demo_fresh demo_aligned r(1) _ _ op] r(1) n by auto
qed

text \<open>
  C2: the microarchitecture is invisible. Two cores that start with the same program, PC,
  registers and data, but may differ in caches, latencies, prefetcher and predictor, and that
  both run to a halt, retire the same instructions with the same effects and end with the
  same registers.
\<close>

theorem configuration_independent:
  assumes "fresh c" "aligned_run c" "core_ticks k c = Inr (log, c')" "co_halted c'"
    and "fresh d" "aligned_run d" "core_ticks l d = Inr (log', d')" "co_halted d'"
    and "mem_bytes (co_imem c) = mem_bytes (co_imem d)" "core_arch c = core_arch d"
  shows "map commit_of log = map commit_of log' \<and> core_regs (co_rf c') = core_regs (co_rf d')"
proof -
  let ?im = "mem_bytes (co_imem d)" and ?a = "core_arch d"
  note C = fresh_ticks [OF assms(1,3,2), unfolded assms(9,10)] and D = fresh_ticks [OF assms(5,7,6)]
  have c: "log \<noteq> []" "live ?im ?a (length log - 1)" "\<not> live ?im ?a (length log)"
    and d: "log' \<noteq> []" "live ?im ?a (length log' - 1)" "\<not> live ?im ?a (length log')"
    using C D assms(4,8) by auto
  have "\<not> length log \<le> length log' - 1" "\<not> length log' \<le> length log - 1"
    using live_mono [OF c(2)] live_mono [OF d(2)] c(3) d(3) by blast+
  then have "length log = length log'" using c(1) d(1) by (cases log; cases log') auto
  then show ?thesis using C D log_commits by metis
qed

theorem configuration_independent_witness:
  "\<exists>log c log' d. core_ticks 7 demo_core = Inr (log, c) \<and> core_ticks 12 demo_slow = Inr (log', d) \<and>
     map commit_of log = map commit_of log' \<and> core_regs (co_rf c) = core_regs (co_rf d)"
proof -
  obtain log c log' d where r: "core_ticks 7 demo_core = Inr (log, c)" "co_halted c"
      "core_ticks 12 demo_slow = Inr (log', d)" "co_halted d"
    using demo_run demo_slow_run by blast
  have f: "fresh demo_slow" using demo_fresh by (simp add: demo_slow_def)
  have im: "mem_bytes (co_imem demo_core) = mem_bytes (co_imem demo_slow)"
    by (rule ext) (simp add: demo_slow_def demo_core_def flat_bytes_def)
  have a: "core_arch demo_core = core_arch demo_slow" "aligned_run demo_slow"
    by (simp_all add: demo_slow_def core_arch_def aligned_run_def demo_core_def)
  from configuration_independent [OF demo_fresh demo_aligned r(1,2) f a(2) r(3,4) im a(1)] r
  show ?thesis by blast
qed

text \<open>
  C4: the data memory agrees too. While the core has not halted, and unless the instruction
  about to retire is the one that will halt it, the bytes of the data memory are the reference
  machine's after the retired instructions and the one in WB.
\<close>

theorem data_memory_agrees:
  assumes "fresh c" and "aligned_run c" and "core_ticks k c = Inr (log, c')" and "\<not> co_halted c'"
    and "\<not> (mwb_valid (latch_read (co_mem_wb c')) \<and> isa_halting (mwb_op (latch_read (co_mem_wb c'))))"
  shows "mem_bytes (co_dmem c') = a_mem (isa_run (mem_bytes (co_imem c)) (core_arch c)
    (length log + of_bool (mwb_valid (latch_read (co_mem_wb c')))))"
proof -
  let ?im = "mem_bytes (co_imem c)" and ?a = "core_arch c" and ?v = "core_view c'" and ?n = "length log"
  have inv: "pipe_inv ?im ?a (co_bpred c = None) ?n ?v"
    using fresh_ticks [OF assms(1,3,2)] assms(4) by simp
  have w: "v_w ?v = latch_read (co_mem_wb c')" by (simp add: core_view_def)
  have nw: "next_w ?v ?n = ?n + of_bool (mwb_valid (latch_read (co_mem_wb c')))" by (simp add: next_w_def w)
  have "live ?im ?a (next_w ?v ?n)"
    using pipe_invD(1,4) [OF inv] assms(5) by (auto simp: next_w_def w live_Suc w_ok_def Let_def)
  then have "v_dm ?v = a_mem (isa_run ?im ?a (next_w ?v ?n))" by (rule pipe_invD(5) [OF inv])
  then show ?thesis unfolding nw by (simp only: core_view_def pview.simps)
qed

theorem data_memory_agrees_witness:
  "\<exists>log c. core_ticks 5 demo_core = Inr (log, c) \<and>
     mem_bytes (co_dmem c) = a_mem (isa_run (mem_bytes (co_imem demo_core)) (core_arch demo_core) 2)"
proof -
  obtain log c where r: "core_ticks 5 demo_core = Inr (log, c)" "\<not> co_halted c" "length log = 1"
      "mwb_valid (latch_read (co_mem_wb c))" "mwb_op (latch_read (co_mem_wb c)) = Op_ADDI"
    using demo_midway by blast
  then have "\<not> isa_halting (mwb_op (latch_read (co_mem_wb c)))" by (simp add: isa_halting_def)
  with data_memory_agrees [OF demo_fresh demo_aligned r(1,2)] r show ?thesis
    by (simp add: numeral_2_eq_2)
qed

end
