(* ===== verification/Core_Safety.thy ===== *)
theory Core_Safety
  imports Commit_Log
begin

unbundle bit_operations_syntax

text \<open>
  When can a cycle abort? The code asserts on register indices, and the memories assert on
  addresses. The register assertions never fail: the indices come from five-bit fields. So
  an abort is a fetch outside the instruction memory or a data access outside the data
  memory, and nothing else.
\<close>

section \<open>Register indices\<close>

lemma ucast_field_less: "unat (x :: u32) < 32 \<Longrightarrow> unat (ucast x :: u8) < 32"
  by (simp add: unsigned_ucast_eq le_less_trans [OF take_bit_nat_less_eq_self])

lemma decode_rd: "in_rd (decode raw pc) \<in> {0, ucast (enc_rd raw)}"
  by (simp add: decode_def Let_def)

lemma decode_fields_less:
  "unat (in_rd (decode w pc)) < 32" "unat (in_rs1 (decode w pc)) < 32" "unat (in_rs2 (decode w pc)) < 32"
  using decode_rd [of w pc] decode_sources [of w pc] enc_fields_less [of w] ucast_field_less by auto

text \<open>The destination fields in flight.\<close>

definition rd_ok :: "core \<Rightarrow> bool" where
  "rd_ok c \<longleftrightarrow> unat (idex_rd (latch_read (co_id_ex c))) < 32 \<and> unat (exm_rd (latch_read (co_ex_mem c))) < 32 \<and>
     unat (mwb_rd (latch_read (co_mem_wb c))) < 32"

lemma bubble_rd [simp]: "idex_rd id_ex_bubble = 0" "exm_rd ex_mem_bubble = 0" "mwb_rd mem_wb_bubble = 0"
  by (simp_all add: id_ex_bubble_def ex_mem_bubble_def mem_wb_bubble_def)

lemma v_access_rd: "v_access x dm = Some (w, dm') \<Longrightarrow> mwb_rd w \<in> {0, exm_rd x}"
  by (auto simp: v_access_def Let_def split: if_splits)

lemma pipe_step_rd:
  assumes "pipe_step im v v'" and "unat (idex_rd (v_d v)) < 32" and "unat (exm_rd (v_x v)) < 32"
  shows "unat (idex_rd (v_d v')) < 32 \<and> unat (exm_rd (v_x v')) < 32 \<and> unat (mwb_rd (v_w v')) < 32"
  using assms
proof (cases rule: pipe_step.cases)
  case stall
  then show ?thesis using assms by (simp add: v_capture_def)
next
  case (advance w' dm' f' pc')
  then show ?thesis
    using assms v_access_rd [OF advance(2)] decode_fields_less(1)
    by (auto simp: v_exec_def v_decode_def Let_def)
qed

section \<open>Aborts\<close>

lemma mem_load_None: "mem_load_word m a = Inl e \<Longrightarrow> load_le (mem_bytes m) a 4 = None"
  using mem_load_bytes(1) [of m a] by simp

lemma fetch_evaluate_abort:
  assumes "fetch_evaluate bp fs im out = Inl e"
  shows "load_le (mem_bytes (fst im)) (fs_pc fs) 4 = None"
  using assms mem_ready_bytes [of "fs_pc fs" False im]
  by (auto simp: fetch_evaluate_def Let_def case_prod_beta res_bind_def dest!: mem_load_None
      split: if_splits sum.splits)

lemma decode_evaluate_total: "\<exists>out'. decode_evaluate rf f out = Inr out'"
  using decode_fields_less [of "ifid_raw f" "ifid_pc f"]
  by (simp add: decode_evaluate_def Let_def regfile_read_reg_val)

lemma mem_load_aborts:
  "mem_load_word m a = Inl e \<Longrightarrow> load_le (mem_bytes m) a 4 = None"
  "mem_load_half m a = Inl e \<Longrightarrow> load_le (mem_bytes m) a 2 = None"
  "mem_load_byte m a = Inl e \<Longrightarrow> load_le (mem_bytes m) a 1 = None"
  using mem_load_bytes [of m a] by simp_all

lemma store_le_None: "store_le m a n v = None \<longleftrightarrow> \<not> mapped m (unat a) n"
  by (simp add: store_le_def)

lemma mem_store_aborts:
  "mem_store_word m a v = Inl e \<Longrightarrow> \<not> mapped (mem_bytes m) (unat a) 4"
  "mem_store_half m a h = Inl e \<Longrightarrow> \<not> mapped (mem_bytes m) (unat a) 2"
  "mem_store_byte m a b = Inl e \<Longrightarrow> \<not> mapped (mem_bytes m) (unat a) 1"
proof -
  show "\<not> mapped (mem_bytes m) (unat a) 4" if "mem_store_word m a v = Inl e"
    using mem_store_bytes(1) [of m a v] that store_le_None [of "mem_bytes m" a 4 v] by simp
  show "\<not> mapped (mem_bytes m) (unat a) 2" if "mem_store_half m a h = Inl e"
    using mem_store_bytes(2) [of m a h] that store_le_None [of "mem_bytes m" a 2 "ucast h"] by simp
  show "\<not> mapped (mem_bytes m) (unat a) 1" if "mem_store_byte m a b = Inl e"
    using mem_store_bytes(3) [of m a b] that store_le_None [of "mem_bytes m" a 1 "ucast b"] by simp
qed

lemma mem_access_abort:
  assumes "mem_access p a v wb m = Inl e"
  shows "is_mem_op p \<and> isa_load p (mem_bytes m) a = None \<and> isa_store p (mem_bytes m) a v = None"
proof -
  have r: "res_bind r (\<lambda>x. Inr (g x)) = Inl e \<Longrightarrow> r = Inl e" for r :: "'x res" and g :: "'x \<Rightarrow> mem_wb \<times> memsys"
    by (cases r) simp_all
  show ?thesis
    using assms
    by (cases p) (auto simp: is_mem_op_def is_store_def store_le_None dest!: r mem_load_aborts mem_store_aborts)
qed

lemma mem_evaluate_abort:
  assumes "mem_evaluate x ms dm out = Inl e"
  shows "exm_valid x \<and> is_mem_op (exm_op x) \<and> v_access x (mem_bytes (fst dm)) = None"
proof -
  obtain r d1 where r: "(if is_mem_op (exm_op x) then mem_ready (exm_alu_out x) (is_store (exm_op x)) dm
      else (True, dm)) = (r, d1)" by (metis surj_pair)
  have b: "mem_bytes (fst d1) = mem_bytes (fst dm)"
    using mem_ready_bytes [of "exm_alu_out x" "is_store (exm_op x)" dm] r by (auto split: if_splits)
  have v: "exm_valid x" using assms by (cases "exm_valid x") (simp_all add: mem_evaluate_def)
  obtain wb where "mem_access (exm_op x) (exm_alu_out x) (exm_rs2_val x) wb (fst d1) = Inl e"
    using assms v r by (auto simp: mem_evaluate_def Let_def res_bind_def split: if_splits sum.splits)
  from mem_access_abort [OF this] v b show ?thesis
    by (auto simp: v_access_def Let_def op_classes(2))
qed

lemma wb_latch_total:
  assumes "unat (mwb_rd w) < 32"
  shows "\<exists>r. wb_latch (wb_evaluate w ws) rf = Inr r"
  using assms by (simp add: wb_latch_def wb_evaluate_def regfile_write_def kNumRegs_def)

lemma execute_evaluate_reg:
  "latch_read (snd (execute_evaluate h fw x w d es out)) = latch_read out"
  by (simp add: execute_evaluate_def Let_def)

lemma core_evaluate_abort:
  assumes "core_evaluate c = Inl e"
  shows "load_le (mem_bytes (co_imem c)) (fs_pc (co_fetch c)) 4 = None \<or>
    (let x = latch_read (co_ex_mem c) in
     exm_valid x \<and> is_mem_op (exm_op x) \<and> v_access x (mem_bytes (co_dmem c)) = None)"
proof (cases "fetch_evaluate (co_bpred c) (co_fetch c) (co_imem c, co_stats c) (co_if_id c)")
  case (Inl f)
  from fetch_evaluate_abort [OF this] show ?thesis by simp
next
  case (Inr r)
  obtain fs im st1 fi where r: "r = (fs, (im, st1), fi)" by (metis surj_pair)
  obtain di where d: "decode_evaluate (co_rf c) (latch_read fi) (co_id_ex c) = Inr di"
    using decode_evaluate_total by blast
  let ?ex = "execute_evaluate (co_bpred c \<noteq> None) (forward_evaluate (latch_read (co_mem_wb c)) (co_fwd c))
    (latch_read (co_ex_mem c)) (latch_read (co_mem_wb c)) (latch_read di) (co_ex c) (co_ex_mem c)"
  have "mem_evaluate (latch_read (snd ?ex)) (co_mem c) (co_dmem c, st1) (co_mem_wb c) = Inl e"
  proof (cases "mem_evaluate (latch_read (snd ?ex)) (co_mem c) (co_dmem c, st1) (co_mem_wb c)")
    case (Inl f)
    then show ?thesis using assms Inr r d by (simp add: core_evaluate_def Let_def case_prod_beta)
  next
    case (Inr t)
    then show ?thesis using assms \<open>fetch_evaluate _ _ _ _ = _\<close> r d
      by (simp add: core_evaluate_def Let_def case_prod_beta)
  qed
  from mem_evaluate_abort [OF this] show ?thesis by (simp add: execute_evaluate_reg Let_def)
qed

lemma core_tick_abort:
  assumes "quiet c" and "rd_ok c" and "core_tick c = Inl e"
  shows "load_le (mem_bytes (co_imem c)) (fs_pc (co_fetch c)) 4 = None \<or>
    (let x = latch_read (co_ex_mem c) in
     exm_valid x \<and> is_mem_op (exm_op x) \<and> v_access x (mem_bytes (co_dmem c)) = None)"
proof (cases "core_evaluate c")
  case (Inl f)
  from core_evaluate_abort [OF this] show ?thesis .
next
  case (Inr c1)
  have h: "\<not> co_halted c" using assms(3) by (auto simp: core_tick_def)
  obtain ws where ws: "co_wb c1 = wb_evaluate (latch_read (co_mem_wb c)) ws"
    using core_evaluate_ok(1) [OF Inr assms(1)] by (auto simp: core_view_def)
  obtain ws' rf' where wl: "wb_latch (co_wb c1) rf = Inr (ws', rf')" if "rf = co_rf c1" for rf
    using wb_latch_total [of "latch_read (co_mem_wb c)" ws] assms(2) ws by (metis rd_ok_def surj_pair)
  have "\<exists>c'. core_latch_wb k = Inr c'" if "co_wb k = co_wb c1" "co_rf k = co_rf c1" for k
    using wl [of "co_rf k"] that by (simp add: core_latch_wb_def)
  then have "\<exists>c'. core_latch_stalled (core_observe c1) = Inr c'" "\<exists>c'. core_latch_all (core_observe c1) = Inr c'"
    by (force simp: core_latch_stalled_def core_latch_all_def res_bind_Inr_iff capture_ex_operands_def Let_def
        core_observe_frame)+
  then show ?thesis using Inr assms(3) h by (auto simp: core_tick_def Let_def split: if_splits)
qed

lemma core_tick_rd_ok:
  assumes "core_tick c = Inr (b, c')" and "\<not> co_halted c" and "quiet c" and "rd_ok c"
  shows "rd_ok c'"
proof -
  have "pipe_step (mem_bytes (co_imem c)) (core_view c) (core_view c')"
    using core_tick_step [OF assms(1-3)] by blast
  with pipe_step_rd [of "mem_bytes (co_imem c)" "core_view c" "core_view c'"] assms(4)
  show ?thesis by (simp add: rd_ok_def core_view_def)
qed

text \<open>
  C12: the only aborts are memory accesses outside the RAM. From any state between cycles in
  which the destination fields in flight are register numbers (true of a new core, and kept by
  every cycle), a cycle either completes, or the PC is not the address of four bytes of the
  instruction memory, or the instruction in MEM is a load or store whose bytes are not all in
  the data memory. In particular no register-index assertion ever fails.
\<close>

theorem tick_aborts_only_on_memory:
  assumes "quiet c" and "rd_ok c"
  shows "case core_tick c of
      Inr (b, c') \<Rightarrow> co_halted c \<or> rd_ok c' \<and> quiet c'
    | Inl e \<Rightarrow>
        load_le (mem_bytes (co_imem c)) (fs_pc (co_fetch c)) 4 = None \<or>
        (let x = latch_read (co_ex_mem c) in
         exm_valid x \<and> is_mem_op (exm_op x) \<and> v_access x (mem_bytes (co_dmem c)) = None)"
proof (cases "core_tick c")
  case (Inr r)
  obtain b c' where bc: "r = (b, c')" by (cases r)
  have "rd_ok c' \<and> quiet c'" if "\<not> co_halted c"
    using core_tick_step [OF Inr [unfolded bc] that assms(1)] core_tick_rd_ok [OF Inr [unfolded bc] that assms] by blast
  then show ?thesis by (auto simp: Inr bc)
next
  case (Inl e)
  from core_tick_abort [OF assms this] show ?thesis by (simp add: Inl)
qed

lemma demo_quiet: "quiet demo_core \<and> rd_ok demo_core"
  using demo_fresh by (simp add: fresh_def rd_ok_def demo_core_def)

lemma demo_tick: "\<exists>c. core_tick demo_core = Inr (True, c)"
  supply [cong] = res_bind_weak_cong Let_weak_cong
  by (simp add: demo_init tick_eval)

theorem tick_aborts_only_on_memory_witness:
  "\<exists>b c. core_tick demo_core = Inr (b, c) \<and> rd_ok c \<and> quiet c"
proof -
  obtain c where t: "core_tick demo_core = Inr (True, c)" using demo_tick by (elim exE)
  have "\<not> co_halted demo_core" by (simp add: demo_core_def)
  with tick_aborts_only_on_memory [OF conjunct1 [OF demo_quiet] conjunct2 [OF demo_quiet]] t
  show ?thesis by auto
qed

end
