(* ===== verification/Mem_Timing.thy ===== *)
theory Mem_Timing
  imports Memsys
begin

text \<open>
  How long a client waits for a memory hierarchy. \<open>mem_rank\<close> bounds the cycles until the
  current (or the next) request is served, for any stack of caches, prefetching or not, over a
  flat memory; \<open>mem_bound\<close> is its maximum. A cycle in which the memory is queried and not ready
  decreases the rank, so every request is served.
\<close>

section \<open>The contract\<close>

text \<open>
  A client queries, and then ticks. It may query without a tick (a frozen stage) and tick
  without a query. \<open>timed\<close> is the invariant, \<open>rank\<close> the waiting time that is left.
\<close>

locale bounded_service =
  fixes query :: "u32 \<Rightarrow> bool \<Rightarrow> 'm \<Rightarrow> bool \<times> 'm"
    and clock :: "'m \<Rightarrow> 'm"
    and timed :: "'m \<Rightarrow> bool"
    and rank :: "'m \<Rightarrow> nat"
    and bound :: "'m \<Rightarrow> nat"
  assumes query_timed: "timed m \<Longrightarrow> timed (snd (query a w m))"
    and clock_timed: "timed m \<Longrightarrow> timed (clock m)"
    and query_bound: "timed m \<Longrightarrow> bound (snd (query a w m)) = bound m"
    and clock_bound: "timed m \<Longrightarrow> bound (clock m) = bound m"
    and rank_bound: "timed m \<Longrightarrow> rank m \<le> bound m"
    and wait_less: "timed m \<Longrightarrow> \<not> fst (query a w m) \<Longrightarrow> rank (clock (snd (query a w m))) < rank m"
begin

lemma served_by_rank: "timed m \<Longrightarrow> rank m \<le> n \<Longrightarrow> \<exists>k \<le> n. \<exists>m'. served query clock a w k m m'"
proof (induction n arbitrary: m)
  case 0
  then have "fst (query a w m)" using wait_less [of m a w] by auto
  then have "served query clock a w 0 m (snd (query a w m))" by (simp add: served_0 prod_eq_iff)
  then show ?case by blast
next
  case (Suc n)
  show ?case
  proof (cases "fst (query a w m)")
    case True
    then have "served query clock a w 0 m (snd (query a w m))" by (simp add: served_0 prod_eq_iff)
    then show ?thesis by blast
  next
    case False
    from wait_less [OF Suc.prems(1) False] Suc.prems(2) have "rank (clock (snd (query a w m))) \<le> n" by simp
    with Suc.IH [of "clock (snd (query a w m))"] Suc.prems(1) query_timed clock_timed
    obtain k m' where k: "k \<le> n" "served query clock a w k (clock (snd (query a w m))) m'" by blast
    then have "served query clock a w (Suc k) m m'" using False by (simp add: served_Suc prod_eq_iff)
    then show ?thesis using k(1) by blast
  qed
qed

lemma served_within_bound: "timed m \<Longrightarrow> \<exists>k \<le> bound m. \<exists>m'. served query clock a w k m m'"
  using served_by_rank rank_bound by blast

end

section \<open>Ranks of a hierarchy\<close>

definition hit_wait :: "cache \<Rightarrow> nat" where
  "hit_wait c = nat (sint (c_hit_latency c)) - 1"

primrec mem_bound :: "memsys \<Rightarrow> nat" where
  "mem_bound (Flat f) = nat (sint (fm_latency f)) - 1"
| "mem_bound (Cached c b) = 2 + 2 * mem_bound b + hit_wait c"

primrec mem_timed :: "memsys \<Rightarrow> bool" where
  "mem_timed (Flat f) \<longleftrightarrow> 0 < sint (fm_latency f) \<and>
     (fm_serving f \<longrightarrow> 0 \<le> fm_remaining f \<and> fm_remaining f < sint (fm_latency f))"
| "mem_timed (Cached c b) \<longleftrightarrow> 0 < sint (c_hit_latency c) \<and> mem_timed b \<and>
     (c_phase c = Ph_HitWait \<longrightarrow> 0 \<le> c_hit_remaining c \<and> c_hit_remaining c < sint (c_hit_latency c))"

primrec mem_rank :: "memsys \<Rightarrow> nat" where
  "mem_rank (Flat f) = (if fm_serving f then nat (fm_remaining f) else nat (sint (fm_latency f)) - 1)"
| "mem_rank (Cached c b) =
     (case c_phase c of
        Ph_Idle \<Rightarrow> 2 + 2 * mem_bound b + hit_wait c
      | Ph_HitWait \<Rightarrow> nat (c_hit_remaining c)
      | Ph_WriteBack \<Rightarrow> 2 + mem_rank b + mem_bound b + hit_wait c
      | Ph_MissFetch \<Rightarrow> 1 + mem_rank b + hit_wait c
      | Ph_PrefetchWait \<Rightarrow> 1 + mem_rank b + hit_wait c)"

text \<open>A request is outstanding and not served in this cycle.\<close>

fun mem_waiting :: "memsys \<Rightarrow> bool" where
  "mem_waiting (Flat f) \<longleftrightarrow> fm_serving f \<and> fm_remaining f \<noteq> 0"
| "mem_waiting (Cached c b) \<longleftrightarrow> c_phase c \<noteq> Ph_Idle \<and> \<not> (c_phase c = Ph_HitWait \<and> c_hit_remaining c = 0)"

lemma mem_rank_bound: "mem_timed m \<Longrightarrow> mem_rank m \<le> mem_bound m"
  by (induction m) (auto simp: hit_wait_def split: phase.split)

text \<open>What the tag operations leave of the timing state.\<close>

definition timing_of :: "cache \<Rightarrow> phase \<times> int \<times> u32" where
  "timing_of c = (c_phase c, c_hit_remaining c, c_hit_latency c)"

lemma timing_frame [simp]:
  "timing_of (touch_way c s w) = timing_of c" "timing_of (set_line c s w l) = timing_of c"
  "timing_of (maybe_start_prefetch a c) = timing_of c" "timing_of (chain_prefetch c) = timing_of c"
  "timing_of (fst (install_line s w a iw fp c st)) = timing_of c"
  by (simp_all add: timing_of_def touch_way_def set_line_def maybe_start_prefetch_def chain_prefetch_def
      install_line_def Let_def split: option.split)

lemma timing_ofD:
  "timing_of c = timing_of d \<Longrightarrow> c_phase c = c_phase d \<and> c_hit_remaining c = c_hit_remaining d \<and>
     c_hit_latency c = c_hit_latency d \<and> hit_wait c = hit_wait d"
  by (simp add: timing_of_def hit_wait_def)

lemma timing_upd [simp]:
  "timing_of (c\<lparr>c_cur_addr := a\<rparr>) = timing_of c" "timing_of (c\<lparr>c_cur_is_write := w\<rparr>) = timing_of c"
  "timing_of (c\<lparr>c_last_hit := h\<rparr>) = timing_of c" "timing_of (c\<lparr>c_pf_active := h\<rparr>) = timing_of c"
  "timing_of (c\<lparr>c_victim_way := v\<rparr>) = timing_of c" "timing_of (c\<lparr>c_wb_addr := a\<rparr>) = timing_of c"
  by (simp_all add: timing_of_def)

section \<open>Queries\<close>

lemma start_hit_timing:
  "timing_of (fst (start_hit s w iw c st)) = (Ph_HitWait, sint (c_hit_latency c) - 1, c_hit_latency c)"
  using timing_frame(1,2) by (simp add: start_hit_def Let_def timing_of_def touch_way_def set_line_def)

lemma start_miss_timing:
  "\<exists>p \<in> {Ph_WriteBack, Ph_MissFetch, Ph_PrefetchWait}.
     timing_of (start_miss s a c) = (p, c_hit_remaining c, c_hit_latency c)"
  by (auto simp: start_miss_def Let_def timing_of_def)

lemma cache_ready_timing:
  assumes "cache_ready a w c st = (r, c', st')"
  shows "if c_phase c = Ph_Idle
    then c_hit_latency c' = c_hit_latency c \<and> c_phase c' \<noteq> Ph_Idle \<and>
      (c_phase c' = Ph_HitWait \<longrightarrow> c_hit_remaining c' = sint (c_hit_latency c) - 1)
    else c' = c"
  and "r \<longleftrightarrow> c_phase c' = Ph_HitWait \<and> c_hit_remaining c' = 0"
proof -
  show "r \<longleftrightarrow> c_phase c' = Ph_HitWait \<and> c_hit_remaining c' = 0"
    using assms by (auto simp: cache_ready_def case_prod_beta split: if_splits)
  define k where "k = maybe_start_prefetch a (c\<lparr>c_cur_addr := a, c_cur_is_write := w,
    c_last_hit := (find_way (c\<lparr>c_cur_addr := a, c_cur_is_write := w\<rparr>) a \<noteq> None)\<rparr>)"
  have k: "c_hit_latency k = c_hit_latency c"
    using timing_ofD [OF timing_frame(3)] by (simp add: k_def)
  have "\<exists>s wy st0. fst (cache_start a w c st) = fst (start_hit s wy w k st0) \<or>
      fst (cache_start a w c st) = start_miss s a k"
    by (auto simp: cache_start_def Let_def k_def split: option.split)
  then have "timing_of (fst (cache_start a w c st)) = (Ph_HitWait, sint (c_hit_latency c) - 1, c_hit_latency c) \<or>
      (\<exists>p \<in> {Ph_WriteBack, Ph_MissFetch, Ph_PrefetchWait}. \<exists>h.
        timing_of (fst (cache_start a w c st)) = (p, h, c_hit_latency c))"
    using start_hit_timing start_miss_timing k by metis
  then show "if c_phase c = Ph_Idle
    then c_hit_latency c' = c_hit_latency c \<and> c_phase c' \<noteq> Ph_Idle \<and>
      (c_phase c' = Ph_HitWait \<longrightarrow> c_hit_remaining c' = sint (c_hit_latency c) - 1)
    else c' = c"
    using assms by (auto simp: cache_ready_def timing_of_def case_prod_beta split: if_splits)
qed

lemma mem_ready_timing:
  assumes "mem_ready a w (m, st) = (r, m', st')" and "mem_timed m"
  shows "mem_timed m' \<and> mem_bound m' = mem_bound m \<and> mem_rank m' \<le> mem_rank m \<and> (\<not> r \<longrightarrow> mem_waiting m')"
proof (cases m)
  case (Flat f)
  then show ?thesis using assms by (auto simp: flat_ready_def Let_def split: if_splits)
next
  case (Cached c b)
  obtain c' where c: "cache_ready a w c st = (r, c', st')" "m' = Cached c' b"
    using assms(1) Cached by (auto split: prod.splits)
  note t = cache_ready_timing [OF c(1)]
  have b: "mem_rank b \<le> mem_bound b" using assms(2) Cached mem_rank_bound by simp
  show ?thesis
  proof (cases "c_phase c = Ph_Idle")
    case True
    then show ?thesis using t assms(2) b Cached c(2)
      by (cases "c_phase c'") (auto simp: hit_wait_def)
  next
    case False
    then show ?thesis using t assms(2) Cached c(2) by auto
  qed
qed

section \<open>Ticks\<close>

text \<open>What the tick of a cache does to its timing state, by phase. \<open>bk\<close> is the query of the backing.\<close>

lemma service_prefetch_timing:
  assumes "service_prefetch c b = (t, c', b')"
  shows "timing_of c' = timing_of c \<and> (b' = b \<or> fst b' = fst (snd (mem_ready (c_pf_addr c) False b)))"
  using assms
  by (auto simp: service_prefetch_def case_prod_beta Let_def split: if_splits)

lemma finish_miss_timing:
  "timing_of (fst (finish_miss c st)) = (Ph_HitWait, sint (c_hit_latency c) - 1, c_hit_latency c)"
proof -
  have "c_hit_latency (fst (install_line s w a iw fp c st)) = c_hit_latency c" for s w a iw fp
    using timing_ofD [OF timing_frame(5)] by blast
  then show ?thesis by (simp add: finish_miss_def case_prod_beta Let_def timing_of_def)
qed

lemma finish_miss_upd:
  "timing_of ((fst (finish_miss c st))\<lparr>c_pf_active := h\<rparr>) = (Ph_HitWait, sint (c_hit_latency c) - 1, c_hit_latency c)"
  using finish_miss_timing [of c st] by simp

lemma cache_drive_timing:
  assumes "cache_drive c b = (t, c', b')"
  obtains (idle) "c_phase c = Ph_Idle" "timing_of c' = timing_of c"
      "b' = b \<or> (\<exists>a. fst b' = fst (snd (mem_ready a False b)))"
  | (hit) "c_phase c = Ph_HitWait" "c_hit_remaining c > 0"
      "timing_of c' = (Ph_HitWait, c_hit_remaining c - 1, c_hit_latency c)"
      "b' = b \<or> (\<exists>a. fst b' = fst (snd (mem_ready a False b)))"
  | (release) "c_phase c = Ph_HitWait" "\<not> c_hit_remaining c > 0"
      "timing_of c' = (Ph_Idle, c_hit_remaining c, c_hit_latency c)"
      "b' = b \<or> (\<exists>a. fst b' = fst (snd (mem_ready a False b)))"
  | (flush) r where "c_phase c = Ph_WriteBack" t "mem_ready (c_wb_addr c) True b = (r, b')"
      "timing_of c' = (if r then Ph_MissFetch else Ph_WriteBack, c_hit_remaining c, c_hit_latency c)"
  | (fill) r st where "c_phase c = Ph_MissFetch \<or> c_phase c = Ph_PrefetchWait" t
      "mem_ready (c_cur_addr c) False b = (r, fst b', st)"
      "timing_of c' = (if r then (Ph_HitWait, sint (c_hit_latency c) - 1, c_hit_latency c) else timing_of c)"
proof (cases "c_phase c")
  case Ph_Idle
  then show ?thesis using assms idle service_prefetch_timing [of c b t c' b'] by (auto simp: cache_drive_def)
next
  case Ph_HitWait
  show ?thesis
  proof (cases "c_hit_remaining c > 0")
    case True
    then show ?thesis
      using assms Ph_HitWait hit service_prefetch_timing [of "c\<lparr>c_hit_remaining := c_hit_remaining c - 1\<rparr>" b t c' b']
      by (auto simp: cache_drive_def timing_of_def)
  next
    case False
    then show ?thesis
      using assms Ph_HitWait release service_prefetch_timing [of "c\<lparr>c_phase := Ph_Idle\<rparr>" b t c' b']
      by (auto simp: cache_drive_def timing_of_def)
  qed
next
  case Ph_WriteBack
  then show ?thesis
    using assms by (intro flush [of "fst (mem_ready (c_wb_addr c) True b)"])
      (auto simp: cache_drive_def timing_of_def case_prod_beta prod_eq_iff)
next
  case Ph_MissFetch
  then show ?thesis
    using assms finish_miss_timing
    by (intro fill [of "fst (mem_ready (c_cur_addr c) False b)" "snd (snd (mem_ready (c_cur_addr c) False b))"])
      (auto simp: cache_drive_def case_prod_beta prod_eq_iff Let_def split: if_splits)
next
  case Ph_PrefetchWait
  then show ?thesis
    using assms finish_miss_upd
    by (intro fill [of "fst (mem_ready (c_cur_addr c) False b)" "snd (snd (mem_ready (c_cur_addr c) False b))"])
      (auto simp: cache_drive_def case_prod_beta prod_eq_iff Let_def split: if_splits)
qed

lemma mem_ready_backing:
  assumes "mem_timed (fst b)" and "b' = b \<or> (\<exists>a. fst b' = fst (snd (mem_ready a w b)))"
  shows "mem_timed (fst b') \<and> mem_bound (fst b') = mem_bound (fst b)"
proof -
  have "mem_timed (fst (snd (mem_ready a w b))) \<and> mem_bound (fst (snd (mem_ready a w b))) = mem_bound (fst b)" for a
    using mem_ready_timing [of a w "fst b" "snd b" "fst (mem_ready a w b)" "fst (snd (mem_ready a w b))"
        "snd (snd (mem_ready a w b))"] assms(1) by simp
  then show ?thesis using assms by auto
qed

lemma cache_drive_timed:
  assumes "cache_drive c b = (t, c', b')" and "mem_timed (Cached c (fst b))"
  shows "mem_timed (Cached c' (fst b')) \<and> mem_bound (fst b') = mem_bound (fst b) \<and> c_hit_latency c' = c_hit_latency c"
  using assms(1)
proof (cases rule: cache_drive_timing)
  case (flush r)
  then show ?thesis
    using assms(2) mem_ready_timing [of "c_wb_addr c" True "fst b" "snd b" r "fst b'" "snd b'"]
    by (auto simp: timing_of_def split: if_splits)
next
  case (fill r st)
  then show ?thesis
    using assms(2) mem_ready_timing [of "c_cur_addr c" False "fst b" "snd b" r "fst b'" st]
    by (auto simp: timing_of_def split: if_splits)
qed (use assms(2) mem_ready_backing [of b b' False] in \<open>auto simp: timing_of_def\<close>)

lemma mem_tick_timed:
  "mem_timed (fst b) \<Longrightarrow> mem_timed (fst (mem_tick b)) \<and> mem_bound (fst (mem_tick b)) = mem_bound (fst b)"
proof (induction b rule: mem_tick.induct)
  case (1 f st)
  then show ?case by (auto simp: flat_tick_def split: if_splits)
next
  case (2 c b st)
  obtain t c' b' st' where d: "cache_drive c (b, st) = (t, c', b', st')" by (cases "cache_drive c (b, st)")
  have D: "mem_timed (Cached c' b')" "mem_bound b' = mem_bound b" "c_hit_latency c' = c_hit_latency c"
    using cache_drive_timed [OF d] "2.prems" by auto
  from "2.IH" [of "(t, c', b', st')" t "(c', b', st')" c' "(b', st')" b' st'] D show ?case
    by (simp add: d case_prod_beta hit_wait_def)
qed

text \<open>A tick of a memory that is waiting brings the answer closer.\<close>

lemma mem_tick_rank:
  "mem_timed (fst b) \<Longrightarrow> mem_waiting (fst b) \<Longrightarrow> mem_rank (fst (mem_tick b)) < mem_rank (fst b)"
proof (induction b rule: mem_tick.induct)
  case (1 f st)
  then show ?case by (auto simp: flat_tick_def)
next
  case (2 c b st)
  obtain t c' b' st' where d: "cache_drive c (b, st) = (t, c', b', st')" by (cases "cache_drive c (b, st)")
  define b2 where "b2 = (if t then fst (mem_tick (b', st')) else b')"
  have tick: "fst (mem_tick (Cached c b, st)) = Cached c' b2" by (simp add: d case_prod_beta b2_def)
  have D: "mem_timed b'" "mem_bound b' = mem_bound b" "c_hit_latency c' = c_hit_latency c"
    using cache_drive_timed [OF d] "2.prems" by auto
  have B: "mem_rank b2 \<le> mem_bound b" "mem_bound b2 = mem_bound b"
    using D mem_tick_timed [of "(b', st')"] mem_rank_bound [of b2] by (auto simp: b2_def)
  have IH: "t \<Longrightarrow> mem_waiting b' \<Longrightarrow> mem_rank b2 < mem_rank b'"
    using "2.IH" [of "(t, c', b', st')" t "(c', b', st')" c' "(b', st')" b' st'] D(1) d by (simp add: b2_def)
  have hw: "hit_wait c' = hit_wait c" using D(3) by (simp add: hit_wait_def)
  from d show ?case
  proof (cases rule: cache_drive_timing)
    case (flush r)
    have R: "mem_rank b' \<le> mem_rank b" "\<not> r \<longrightarrow> mem_waiting b'"
      using mem_ready_timing [OF flush(3)] "2.prems" by simp_all
    then show ?thesis using flush IH B hw tick by (cases r) (auto simp: timing_of_def)
  next
    case (fill r st0)
    have R: "mem_rank b' \<le> mem_rank b" "\<not> r \<longrightarrow> mem_waiting b'"
      using mem_ready_timing [of "c_cur_addr c" False b st r b' st0] fill(3) "2.prems" by simp_all
    then show ?thesis using fill IH B hw tick by (cases r) (auto simp: timing_of_def hit_wait_def)
  qed (use "2.prems" tick in \<open>auto simp: timing_of_def\<close>)
qed

section \<open>The contract holds\<close>

interpretation timely: bounded_service mem_ready mem_tick "\<lambda>b. mem_timed (fst b)" "\<lambda>b. mem_rank (fst b)"
  "\<lambda>b. mem_bound (fst b)"
proof unfold_locales
  fix b :: mem_state and a :: u32 and w :: bool
  assume t: "mem_timed (fst b)"
  have q: "mem_timed (fst (snd (mem_ready a w b))) \<and> mem_bound (fst (snd (mem_ready a w b))) = mem_bound (fst b) \<and>
      mem_rank (fst (snd (mem_ready a w b))) \<le> mem_rank (fst b) \<and>
      (\<not> fst (mem_ready a w b) \<longrightarrow> mem_waiting (fst (snd (mem_ready a w b))))"
    using mem_ready_timing [of a w "fst b" "snd b" "fst (mem_ready a w b)" "fst (snd (mem_ready a w b))"
        "snd (snd (mem_ready a w b))"] t by simp
  then show "mem_timed (fst (snd (mem_ready a w b)))" "mem_bound (fst (snd (mem_ready a w b))) = mem_bound (fst b)"
    by simp_all
  show "mem_timed (fst (mem_tick b))" "mem_bound (fst (mem_tick b)) = mem_bound (fst b)"
    using mem_tick_timed [OF t] by simp_all
  show "mem_rank (fst b) \<le> mem_bound (fst b)" using t by (rule mem_rank_bound)
  show "mem_rank (fst (mem_tick (snd (mem_ready a w b)))) < mem_rank (fst b)" if "\<not> fst (mem_ready a w b)"
    using mem_tick_rank [of "snd (mem_ready a w b)"] q that by (meson less_le_trans)
qed

text \<open>
  C22: every request is served. In any hierarchy of caches, prefetching or not, over a flat
  memory, with latencies below \<open>2 ^ 31\<close> and in any timing state, a client that queries and ticks
  once per cycle gets its answer within \<open>mem_bound\<close> cycles: \<open>L - 1\<close> for a flat memory of latency
  \<open>L\<close>, and \<open>2 B + H + 1\<close> for a cache of hit latency \<open>H\<close> over a memory of bound \<open>B\<close>.
\<close>

theorem hierarchy_serves:
  assumes "mem_timed m"
  shows "\<exists>k \<le> mem_bound m. \<exists>b'. served mem_ready mem_tick a w k (m, st) b'"
  using timely.served_within_bound [of "(m, st)" a w] assms by simp

theorem hierarchy_serves_witness:
  "\<exists>c. cache_init 4 2 1 2 True 1 True = Inr c \<and>
     (\<exists>k \<le> 4. \<exists>b'. served mem_ready mem_tick 8 True k (Cached c (Flat (flat_init 0 16 2)), stats_init) b')"
proof -
  obtain c where c: "cache_init 4 2 1 2 True 1 True = Inr c" "c_hit_latency c = 1" "c_phase c = Ph_Idle"
    by (auto simp: cache_init_def log2_exact_def pow2_ok_def plru_init_def)
  then have "mem_timed (Cached c (Flat (flat_init 0 16 2)))"
    and b: "mem_bound (Cached c (Flat (flat_init 0 16 2))) = 4"
    by (simp_all add: flat_init_def hit_wait_def)
  from hierarchy_serves [OF this(1), of 8 True stats_init] c(1) b show ?thesis by auto
qed

end
