(* ===== verification/Elf_Loader.thy ===== *)
theory Elf_Loader
  imports Core_Run
begin

unbundle bit_operations_syntax

text \<open>
  The ELF loader (\<open>include/cpusim/sim/elf_loader.h\<close>, \<open>src/sim/elf_loader.cpp\<close>) and
  \<open>Core::load_elf\<close>. The file is a parameter: the bytes it holds, or \<open>None\<close> when it cannot be
  opened. The structs are read as the bytes lie in the file, which on a little-endian host is
  their layout without padding (52 and 32 bytes).

  An input stream is its data, its position and its failure state. A failed stream ignores
  \<open>seekg\<close> and \<open>read\<close>; a read past the end fails the stream; a read of no bytes never does.
\<close>

section \<open>The file\<close>

record ifstream =
  is_data :: "u8 list"
  is_pos :: nat
  is_fail :: bool

definition seekg :: "nat \<Rightarrow> ifstream \<Rightarrow> ifstream" where
  "seekg p f = (if is_fail f then f else f\<lparr>is_pos := p\<rparr>)"

definition stream_read :: "nat \<Rightarrow> ifstream \<Rightarrow> u8 list \<times> ifstream" where
  "stream_read n f =
     (if is_fail f then ([], f)
      else if n = 0 \<or> is_pos f + n \<le> length (is_data f)
      then (take n (drop (is_pos f) (is_data f)), f\<lparr>is_pos := is_pos f + n\<rparr>)
      else (drop (is_pos f) (is_data f), f\<lparr>is_pos := length (is_data f), is_fail := True\<rparr>))"

definition le16 :: "u8 list \<Rightarrow> nat \<Rightarrow> u16" where
  "le16 bs i = ucast (bs ! i) OR push_bit 8 (ucast (bs ! (i + 1)))"

definition le32 :: "u8 list \<Rightarrow> nat \<Rightarrow> u32" where
  "le32 bs i = ucast (bs ! i) OR push_bit 8 (ucast (bs ! (i + 1))) OR
     push_bit 16 (ucast (bs ! (i + 2))) OR push_bit 24 (ucast (bs ! (i + 3)))"

record elf32_ehdr =
  e_ident :: "u8 list"
  e_type :: u16
  e_machine :: u16
  e_version :: u32
  e_entry :: u32
  e_phoff :: u32
  e_shoff :: u32
  e_flags :: u32
  e_ehsize :: u16
  e_phentsize :: u16
  e_phnum :: u16
  e_shentsize :: u16
  e_shnum :: u16
  e_shstrndx :: u16

definition ehdr_of :: "u8 list \<Rightarrow> elf32_ehdr" where
  "ehdr_of bs =
     \<lparr>e_ident = take 16 bs, e_type = le16 bs 16, e_machine = le16 bs 18, e_version = le32 bs 20,
      e_entry = le32 bs 24, e_phoff = le32 bs 28, e_shoff = le32 bs 32, e_flags = le32 bs 36,
      e_ehsize = le16 bs 40, e_phentsize = le16 bs 42, e_phnum = le16 bs 44,
      e_shentsize = le16 bs 46, e_shnum = le16 bs 48, e_shstrndx = le16 bs 50\<rparr>"

record elf32_phdr =
  p_type :: u32
  p_offset :: u32
  p_vaddr :: u32
  p_paddr :: u32
  p_filesz :: u32
  p_memsz :: u32
  p_flags :: u32
  p_align :: u32

definition phdr_of :: "u8 list \<Rightarrow> elf32_phdr" where
  "phdr_of bs =
     \<lparr>p_type = le32 bs 0, p_offset = le32 bs 4, p_vaddr = le32 bs 8, p_paddr = le32 bs 12,
      p_filesz = le32 bs 16, p_memsz = le32 bs 20, p_flags = le32 bs 24, p_align = le32 bs 28\<rparr>"

definition PT_LOAD :: u32 where "PT_LOAD = 1"
definition EM_RISCV :: u16 where "EM_RISCV = 0xF3"

section \<open>The loader\<close>

text \<open>The exceptions, with an abort of a memory access as one more outcome.\<close>

datatype elf_error =
    Elf_Cannot_Open
  | Elf_Short_Header
  | Elf_Not_Elf
  | Elf_Not_Elf32
  | Elf_Not_Little_Endian
  | Elf_Not_Riscv
  | Elf_Short_Segment nat
  | Elf_Entry u32 u32
  | Elf_Abort fault

type_synonym 'a elf_res = "elf_error + 'a"

definition elf_mem :: "'a res \<Rightarrow> 'a elf_res" where
  "elf_mem r = map_sum Elf_Abort id r"

text \<open>The two loops over a segment: the file bytes into both memories, then zeros into \<open>dmem\<close>.\<close>

fun elf_copy :: "u32 \<Rightarrow> u8 list \<Rightarrow> memsys \<times> memsys \<Rightarrow> (memsys \<times> memsys) res" where
  "elf_copy addr [] m = Inr m"
| "elf_copy addr (x # xs) m =
     res_bind (mem_store_byte (fst m) addr x) (\<lambda>im.
     res_bind (mem_store_byte (snd m) addr x) (\<lambda>dm. elf_copy (addr + 1) xs (im, dm)))"

fun elf_zero :: "u32 \<Rightarrow> nat \<Rightarrow> memsys \<Rightarrow> memsys res" where
  "elf_zero addr 0 dm = Inr dm"
| "elf_zero addr (Suc n) dm = res_bind (mem_store_byte dm addr 0) (elf_zero (addr + 1) n)"

definition elf_segment :: "elf32_phdr \<Rightarrow> u8 list \<Rightarrow> memsys \<times> memsys \<Rightarrow> (memsys \<times> memsys) res" where
  "elf_segment ph bytes m =
     res_bind (elf_copy (p_vaddr ph) bytes m) (\<lambda>m1.
     res_bind (elf_zero (p_vaddr ph + p_filesz ph) (unat (p_memsz ph) - unat (p_filesz ph)) (snd m1))
       (\<lambda>dm. Inr (fst m1, dm)))"

text \<open>The loop over the program headers; \<open>is\<close> are the indices still to do.\<close>

fun elf_phdrs ::
    "elf32_ehdr \<Rightarrow> nat list \<Rightarrow> ifstream \<Rightarrow> memsys \<times> memsys \<Rightarrow> (memsys \<times> memsys) elf_res" where
  "elf_phdrs eh [] f m = Inr m"
| "elf_phdrs eh (i # is) f m =
     (let (pb, f1) = stream_read 32 (seekg (unat (e_phoff eh) + i * unat (e_phentsize eh)) f);
          ph = phdr_of pb
      in if is_fail f1 \<or> p_type ph \<noteq> PT_LOAD then elf_phdrs eh is f1 m
         else
           let (bytes, f2) = stream_read (unat (p_filesz ph)) (seekg (unat (p_offset ph)) f1)
           in if is_fail f2 then Inl (Elf_Short_Segment i)
              else res_bind (elf_mem (elf_segment ph bytes m)) (elf_phdrs eh is f2))"

definition elf_check_ident :: "elf32_ehdr \<Rightarrow> unit elf_res" where
  "elf_check_ident eh =
     (if e_ident eh ! 0 \<noteq> 0x7f \<or> e_ident eh ! 1 \<noteq> 0x45 \<or> e_ident eh ! 2 \<noteq> 0x4c \<or> e_ident eh ! 3 \<noteq> 0x46
      then Inl Elf_Not_Elf
      else if e_ident eh ! 4 \<noteq> 1 then Inl Elf_Not_Elf32
      else if e_ident eh ! 5 \<noteq> 1 then Inl Elf_Not_Little_Endian
      else if e_machine eh \<noteq> EM_RISCV then Inl Elf_Not_Riscv
      else Inr ())"

definition load_elf :: "u8 list option \<Rightarrow> memsys \<times> memsys \<Rightarrow> (u32 \<times> memsys \<times> memsys) elf_res" where
  "load_elf file m =
     (case file of
        None \<Rightarrow> Inl Elf_Cannot_Open
      | Some bs \<Rightarrow>
          let (hb, f) = stream_read 52 \<lparr>is_data = bs, is_pos = 0, is_fail = False\<rparr>;
              eh = ehdr_of hb
          in if is_fail f then Inl Elf_Short_Header
             else res_bind (elf_check_ident eh) (\<lambda>_.
                  res_bind (elf_phdrs eh [0 ..< unat (e_phnum eh)] f m) (\<lambda>m'.
                    Inr (e_entry eh, m'))))"

text \<open>\<open>Core::load_elf\<close>; the entry point must be the base of the RAM.\<close>

definition core_load_elf :: "u8 list option \<Rightarrow> core \<Rightarrow> core elf_res" where
  "core_load_elf file c =
     res_bind (load_elf file (co_imem c, co_dmem c)) (\<lambda>(entry, im, dm).
       if entry \<noteq> co_base c then Inl (Elf_Entry entry (co_base c))
       else Inr (c\<lparr>co_imem := im, co_dmem := dm\<rparr>))"

section \<open>The image of a file\<close>

text \<open>
  What the loader is to do, without streams and loops: the program headers are read off the
  file, and each \<open>PT_LOAD\<close> segment overlays the memory, a later one over an earlier one. The
  offset of an address in a segment is the difference modulo \<open>2 ^ 32\<close>, so that the address
  arithmetic of the code, which wraps, is exact here.
\<close>

definition elf_phdr_pos :: "u8 list \<Rightarrow> nat \<Rightarrow> nat" where
  "elf_phdr_pos bs i = unat (e_phoff (ehdr_of bs)) + i * unat (e_phentsize (ehdr_of bs))"

definition elf_phdr_at :: "u8 list \<Rightarrow> nat \<Rightarrow> elf32_phdr" where
  "elf_phdr_at bs i = phdr_of (drop (elf_phdr_pos bs i) bs)"

definition elf_loads :: "u8 list \<Rightarrow> nat list \<Rightarrow> elf32_phdr list" where
  "elf_loads bs is = filter (\<lambda>ph. p_type ph = PT_LOAD) (map (elf_phdr_at bs) is)"

definition elf_text :: "u8 list \<Rightarrow> elf32_phdr \<Rightarrow> u32 \<Rightarrow> u8 option" where
  "elf_text bs ph a =
     (let b = unat (a - p_vaddr ph) in
      if b < unat (p_filesz ph) then Some (bs ! (unat (p_offset ph) + b)) else None)"

definition elf_data :: "u8 list \<Rightarrow> elf32_phdr \<Rightarrow> u32 \<Rightarrow> u8 option" where
  "elf_data bs ph a =
     (let b = unat (a - p_vaddr ph) in
      if b < unat (p_filesz ph) then Some (bs ! (unat (p_offset ph) + b))
      else if b < unat (p_memsz ph) then Some 0 else None)"

definition overlay :: "(u32 \<Rightarrow> u8 option) \<Rightarrow> byte_map \<Rightarrow> byte_map" where
  "overlay g m n = (if n < 2 ^ 32 then case g (of_nat n) of None \<Rightarrow> m n | Some v \<Rightarrow> Some v else m n)"

definition elf_image :: "(elf32_phdr \<Rightarrow> u32 \<Rightarrow> u8 option) \<Rightarrow> elf32_phdr list \<Rightarrow> byte_map \<Rightarrow> byte_map" where
  "elf_image g phs m = fold (\<lambda>ph. overlay (g ph)) phs m"

lemma unat_less_32: "unat (a :: u32) < 2 ^ 32"
  by (rule less_le_trans [OF unsigned_less]) simp

lemma ucast_u8_back: "ucast (ucast (v :: u8) :: u32) = v"
  by (rule bit_word_eqI) (auto simp: bit_simps)

lemma overlay_unat: "overlay g m (unat (a :: u32)) = (case g a of None \<Rightarrow> m (unat a) | Some v \<Rightarrow> Some v)"
  using unat_less_32 [of a] by (simp add: overlay_def)

lemma overlayI:
  assumes "\<And>a :: u32. m' (unat a) = (case g a of None \<Rightarrow> m (unat a) | Some v \<Rightarrow> Some v)"
    and "\<And>n. 2 ^ 32 \<le> n \<Longrightarrow> m' n = m n"
  shows "m' = overlay g m"
proof
  fix n
  show "m' n = overlay g m n"
  proof (cases "n < 2 ^ 32")
    case True
    then have "n = unat (of_nat n :: u32)" by (simp add: unat_of_nat take_bit_nat_eq_self)
    then show ?thesis using assms(1) [of "of_nat n"] overlay_unat [of g m "of_nat n"] by simp
  qed (use assms(2) in \<open>simp add: overlay_def\<close>)
qed

lemma mem_store_byte_bytes:
  "mem_store_byte m a v = Inr m' \<Longrightarrow> mem_bytes m' = (mem_bytes m)(unat a \<mapsto> v)"
  using mem_store_bytes(3) [of m a v] by (auto simp: store_le_def ucast_u8_back split: if_splits)

text \<open>Offsets from the next address.\<close>

lemma offset_next:
  fixes a addr :: u32
  shows "unat (a - addr) = (if a = addr then 0 else Suc (unat (a - (addr + 1))))"
proof (cases "a = addr")
  case False
  then have "a - addr \<noteq> 0" by simp
  then have "unat (a - addr - 1) = unat (a - addr) - 1" "unat (a - addr) > 0"
    by (simp_all add: unat_minus_one unat_gt_0)
  then show ?thesis using False by (simp add: diff_diff_eq)
qed simp

lemma offset_wrap: "unat ((addr :: u32) - (addr + 1)) = 2 ^ 32 - 1"
  by (simp add: unsigned_minus_1_eq_mask mask_eq_exp_minus_1)

text \<open>A run of bytes written from \<open>addr\<close> on.\<close>

definition run_at :: "u32 \<Rightarrow> u8 list \<Rightarrow> u32 \<Rightarrow> u8 option" where
  "run_at addr bs a = (let b = unat (a - addr) in if b < length bs then Some (bs ! b) else None)"

lemma overlay_run_Cons:
  assumes "length (x # xs) \<le> 2 ^ 32"
  shows "overlay (run_at (addr + 1) xs) (m(unat addr \<mapsto> x)) = overlay (run_at addr (x # xs)) m"
proof (rule overlayI)
  fix a :: u32
  show "overlay (run_at (addr + 1) xs) (m(unat addr \<mapsto> x)) (unat a) =
      (case run_at addr (x # xs) a of None \<Rightarrow> m (unat a) | Some v \<Rightarrow> Some v)"
    using assms offset_next [of a addr] offset_wrap [of addr]
    by (simp add: overlay_unat run_at_def Let_def word_unat_eq_iff [symmetric])
next
  fix n :: nat
  assume "2 ^ 32 \<le> n"
  with unat_less_32 [of addr] show "overlay (run_at (addr + 1) xs) (m(unat addr \<mapsto> x)) n = m n"
    by (simp add: overlay_def)
qed

lemma overlay_run_Nil: "overlay (run_at addr []) m = m"
  by (rule overlayI [symmetric]) (simp_all add: run_at_def)

lemma elf_copy_bytes:
  assumes "elf_copy addr bs m = Inr m'" and "length bs \<le> 2 ^ 32"
  shows "mem_bytes (fst m') = overlay (run_at addr bs) (mem_bytes (fst m)) \<and>
    mem_bytes (snd m') = overlay (run_at addr bs) (mem_bytes (snd m))"
  using assms
proof (induction addr bs m rule: elf_copy.induct)
  case (2 addr x xs m)
  then obtain im dm where s: "mem_store_byte (fst m) addr x = Inr im" "mem_store_byte (snd m) addr x = Inr dm"
    and r: "elf_copy (addr + 1) xs (im, dm) = Inr m'" by (auto simp: res_bind_Inr_iff)
  have l: "length (x # xs) \<le> 2 ^ 32" "length xs \<le> 2 ^ 32" using "2.prems"(2) by simp_all
  show ?case
    using "2.IH" [OF s r l(2)] unfolding fst_conv snd_conv s [THEN mem_store_byte_bytes] overlay_run_Cons [OF l(1)] .
qed (simp add: overlay_run_Nil)

lemma elf_zero_bytes:
  assumes "elf_zero addr n dm = Inr dm'" and "n \<le> 2 ^ 32"
  shows "mem_bytes dm' = overlay (run_at addr (replicate n 0)) (mem_bytes dm)"
  using assms
proof (induction addr n dm rule: elf_zero.induct)
  case (2 addr n dm)
  then obtain d where s: "mem_store_byte dm addr 0 = Inr d" and r: "elf_zero (addr + 1) n d = Inr dm'"
    by (auto simp: res_bind_Inr_iff)
  have l: "length (0 # replicate n 0) \<le> 2 ^ 32" "n \<le> 2 ^ 32" using "2.prems"(2) by simp_all
  show ?case
    using "2.IH" [OF s r l(2)] unfolding mem_store_byte_bytes [OF s] overlay_run_Cons [OF l(1)] replicate_Suc .
qed (simp add: overlay_run_Nil)

text \<open>One segment.\<close>

lemma overlay_cong: "(\<And>a. g a = h a) \<Longrightarrow> overlay g m = overlay h m"
  by (simp add: overlay_def fun_eq_iff)

lemma run_at_text:
  assumes "bytes = take (unat (p_filesz ph)) (drop (unat (p_offset ph)) bs)"
    and "unat (p_filesz ph) = 0 \<or> unat (p_offset ph) + unat (p_filesz ph) \<le> length bs"
  shows "length bytes = unat (p_filesz ph)" and "run_at (p_vaddr ph) bytes = elf_text bs ph"
proof -
  show l: "length bytes = unat (p_filesz ph)" using assms by auto
  show "run_at (p_vaddr ph) bytes = elf_text bs ph"
    using assms l by (intro ext) (auto simp: run_at_def elf_text_def Let_def)
qed

lemma offset_add:
  fixes a v z :: u32
  shows "unat (a - (v + z)) =
    (if unat z \<le> unat (a - v) then unat (a - v) - unat z else 2 ^ 32 + unat (a - v) - unat z)"
proof -
  have "size (a - v) = 32" by (simp add: word_size)
  then have "unat (a - v - z) =
      (if unat z \<le> unat (a - v) then unat (a - v) - unat z else unat (a - v) + 2 ^ 32 - unat z)"
    using unat_sub_if_size [of "a - v" z] by simp
  then show ?thesis unfolding diff_diff_eq by (simp add: add.commute)
qed

lemma overlay_bss:
  "overlay (run_at (p_vaddr ph + p_filesz ph) (replicate (unat (p_memsz ph) - unat (p_filesz ph)) 0))
     (overlay (elf_text bs ph) m) = overlay (elf_data bs ph) m"
proof (rule overlayI)
  fix a :: u32
  show "overlay (run_at (p_vaddr ph + p_filesz ph) (replicate (unat (p_memsz ph) - unat (p_filesz ph)) 0))
      (overlay (elf_text bs ph) m) (unat a) =
    (case elf_data bs ph a of None \<Rightarrow> m (unat a) | Some v \<Rightarrow> Some v)"
    using offset_add [of a "p_vaddr ph" "p_filesz ph"] unat_less_32 [of "p_memsz ph"] unat_less_32 [of "a - p_vaddr ph"]
    by (auto simp: overlay_unat run_at_def elf_text_def elf_data_def Let_def)
qed (simp add: overlay_def)

lemma elf_segment_bytes:
  assumes "elf_segment ph bytes m = Inr m'"
    and "bytes = take (unat (p_filesz ph)) (drop (unat (p_offset ph)) bs)"
    and "unat (p_filesz ph) = 0 \<or> unat (p_offset ph) + unat (p_filesz ph) \<le> length bs"
  shows "mem_bytes (fst m') = overlay (elf_text bs ph) (mem_bytes (fst m)) \<and>
    mem_bytes (snd m') = overlay (elf_data bs ph) (mem_bytes (snd m))"
proof -
  obtain m1 dm where c: "elf_copy (p_vaddr ph) bytes m = Inr m1"
    and z: "elf_zero (p_vaddr ph + p_filesz ph) (unat (p_memsz ph) - unat (p_filesz ph)) (snd m1) = Inr dm"
    and m': "m' = (fst m1, dm)"
    using assms(1) by (auto simp: elf_segment_def res_bind_Inr_iff)
  note t = run_at_text [OF assms(2,3)]
  have "length bytes \<le> 2 ^ 32" "unat (p_memsz ph) - unat (p_filesz ph) \<le> 2 ^ 32"
    using t(1) unat_less_32 [of "p_filesz ph"] unat_less_32 [of "p_memsz ph"] by simp_all
  with elf_copy_bytes [OF c] elf_zero_bytes [OF z] show ?thesis
    unfolding m' fst_conv snd_conv t(2) by (simp only: overlay_bss)
qed

section \<open>The loop over the headers\<close>

lemma stream_read_ok:
  assumes "stream_read n f = (bs, f')" and "\<not> is_fail f'"
  shows "\<not> is_fail f \<and> (n = 0 \<or> is_pos f + n \<le> length (is_data f)) \<and>
    bs = take n (drop (is_pos f) (is_data f)) \<and> is_data f' = is_data f"
  using assms by (auto simp: stream_read_def split: if_splits)

lemma seekg_ok [simp]:
  "is_fail (seekg p f) = is_fail f" "is_data (seekg p f) = is_data f"
  "\<not> is_fail f \<Longrightarrow> is_pos (seekg p f) = p"
  by (simp_all add: seekg_def)

lemma stream_read_fails: "is_fail (snd (stream_read n f)) \<longleftrightarrow>
    is_fail f \<or> n \<noteq> 0 \<and> length (is_data f) < is_pos f + n"
  by (auto simp: stream_read_def)

lemma le32_take: "i + 4 \<le> n \<Longrightarrow> le32 (take n bs) i = le32 bs i"
  by (simp add: le32_def)

lemma le16_take: "i + 2 \<le> n \<Longrightarrow> le16 (take n bs) i = le16 bs i"
  by (simp add: le16_def)

lemma ehdr_of_take: "ehdr_of (take 52 bs) = ehdr_of bs"
  by (simp add: ehdr_of_def le32_take le16_take)

lemma phdr_of_take: "phdr_of (take 32 bs) = phdr_of bs"
  by (simp add: phdr_of_def le32_take)

text \<open>While the stream is good, the loop overlays the segments in order.\<close>

lemma elf_phdrs_image:
  assumes "elf_phdrs (ehdr_of bs) is f m = Inr m'" and "\<not> is_fail f" and "is_data f = bs"
    and "\<forall>i \<in> set is. elf_phdr_pos bs i + 32 \<le> length bs"
  shows "mem_bytes (fst m') = elf_image (elf_text bs) (elf_loads bs is) (mem_bytes (fst m)) \<and>
    mem_bytes (snd m') = elf_image (elf_data bs) (elf_loads bs is) (mem_bytes (snd m))"
  using assms
proof (induction "is" arbitrary: f m)
  case Nil
  then show ?case by (simp add: elf_image_def elf_loads_def)
next
  case (Cons i "is")
  define f0 where "f0 = seekg (elf_phdr_pos bs i) f"
  obtain pb f1 where r: "stream_read 32 f0 = (pb, f1)" by (cases "stream_read 32 f0")
  have f0: "\<not> is_fail f0" "is_data f0 = bs" "is_pos f0 = elf_phdr_pos bs i"
    using Cons.prems by (simp_all add: f0_def)
  have g: "\<not> is_fail f1" using stream_read_fails [of 32 f0] r f0 Cons.prems(4) by simp
  have ph: "phdr_of pb = elf_phdr_at bs i" "is_data f1 = bs"
    using stream_read_ok [OF r g] f0 by (simp_all add: elf_phdr_at_def phdr_of_take)
  have step: "elf_phdrs (ehdr_of bs) (i # is) f m =
      (if p_type (elf_phdr_at bs i) \<noteq> PT_LOAD then elf_phdrs (ehdr_of bs) is f1 m
       else let (bytes, f2) = stream_read (unat (p_filesz (elf_phdr_at bs i)))
              (seekg (unat (p_offset (elf_phdr_at bs i))) f1)
            in if is_fail f2 then Inl (Elf_Short_Segment i)
               else res_bind (elf_mem (elf_segment (elf_phdr_at bs i) bytes m)) (elf_phdrs (ehdr_of bs) is f2))"
    using r g ph by (simp add: f0_def elf_phdr_pos_def Let_def case_prod_beta)
  show ?case
  proof (cases "p_type (elf_phdr_at bs i) = PT_LOAD")
    case False
    then show ?thesis
      using Cons.IH [of f1 m] Cons.prems step g ph(2) by (simp add: elf_loads_def)
  next
    case True
    let ?ph = "elf_phdr_at bs i"
    obtain bytes f2 where r2: "stream_read (unat (p_filesz ?ph)) (seekg (unat (p_offset ?ph)) f1) = (bytes, f2)"
      by (metis surj_pair)
    from Cons.prems(1) step True r2 have g2: "\<not> is_fail f2" by (auto split: if_splits)
    then obtain m1 where sg: "elf_segment ?ph bytes m = Inr m1" and rest: "elf_phdrs (ehdr_of bs) is f2 m1 = Inr m'"
      using Cons.prems(1) step True r2 by (cases "elf_segment ?ph bytes m") (auto simp: elf_mem_def)
    note rd = stream_read_ok [OF r2 g2]
    have b: "bytes = take (unat (p_filesz ?ph)) (drop (unat (p_offset ?ph)) bs)"
      "unat (p_filesz ?ph) = 0 \<or> unat (p_offset ?ph) + unat (p_filesz ?ph) \<le> length bs" "is_data f2 = bs"
      using rd g ph(2) by auto
    from Cons.IH [OF rest g2 b(3)] Cons.prems(4) elf_segment_bytes [OF sg b(1,2)] True show ?thesis
      by (simp add: elf_loads_def elf_image_def)
  qed
qed

section \<open>What loading a file does\<close>

text \<open>The conditions on the header that the loader enforces.\<close>

definition elf_header_ok :: "u8 list \<Rightarrow> bool" where
  "elf_header_ok bs \<longleftrightarrow> 52 \<le> length bs \<and> take 4 bs = [0x7f, 0x45, 0x4c, 0x46] \<and> bs ! 4 = 1 \<and> bs ! 5 = 1 \<and>
     e_machine (ehdr_of bs) = EM_RISCV"

lemma take4_eq: "52 \<le> length bs \<Longrightarrow>
    take 4 bs = [a, b, c, d] \<longleftrightarrow> bs ! 0 = a \<and> bs ! 1 = b \<and> bs ! 2 = c \<and> bs ! 3 = d"
  by (subst list_eq_iff_nth_eq) (auto simp: less_Suc_eq numeral_eq_Suc)

lemma elf_check_ident_eq:
  assumes "52 \<le> length bs"
  shows "elf_check_ident (ehdr_of bs) =
    (if take 4 bs \<noteq> [0x7f, 0x45, 0x4c, 0x46] then Inl Elf_Not_Elf
     else if bs ! 4 \<noteq> 1 then Inl Elf_Not_Elf32
     else if bs ! 5 \<noteq> 1 then Inl Elf_Not_Little_Endian
     else if e_machine (ehdr_of bs) \<noteq> EM_RISCV then Inl Elf_Not_Riscv else Inr ())"
  unfolding take4_eq [OF assms] elf_check_ident_def by (simp add: ehdr_of_def)

text \<open>The stream after the header.\<close>

definition after_header :: "u8 list \<Rightarrow> ifstream" where
  "after_header bs = \<lparr>is_data = bs, is_pos = 52, is_fail = False\<rparr>"

lemma load_elf_long:
  assumes "52 \<le> length bs"
  shows "load_elf (Some bs) m =
    res_bind (elf_check_ident (ehdr_of bs)) (\<lambda>_.
    res_bind (elf_phdrs (ehdr_of bs) [0 ..< unat (e_phnum (ehdr_of bs))] (after_header bs) m)
      (\<lambda>m'. Inr (e_entry (ehdr_of bs), m')))"
  using assms by (simp add: load_elf_def stream_read_def ehdr_of_take after_header_def Let_def)

lemma load_elf_short: "length bs < 52 \<Longrightarrow> load_elf (Some bs) m = Inl Elf_Short_Header"
  by (simp add: load_elf_def stream_read_def)

lemma elf_load_bytes:
  assumes "load_elf (Some bs) m = Inr (entry, m')"
    and "\<forall>i < unat (e_phnum (ehdr_of bs)). elf_phdr_pos bs i + 32 \<le> length bs"
  shows "elf_header_ok bs \<and> entry = e_entry (ehdr_of bs) \<and>
    mem_bytes (fst m') =
      elf_image (elf_text bs) (elf_loads bs [0 ..< unat (e_phnum (ehdr_of bs))]) (mem_bytes (fst m)) \<and>
    mem_bytes (snd m') =
      elf_image (elf_data bs) (elf_loads bs [0 ..< unat (e_phnum (ehdr_of bs))]) (mem_bytes (snd m))"
proof -
  have l: "52 \<le> length bs" using assms(1) load_elf_short [of bs m] by (cases "length bs < 52") auto
  have h: "elf_header_ok bs" and e: "entry = e_entry (ehdr_of bs)"
    and r: "elf_phdrs (ehdr_of bs) [0 ..< unat (e_phnum (ehdr_of bs))] (after_header bs) m = Inr m'"
    using assms(1) l
    by (auto simp: load_elf_long elf_check_ident_eq elf_header_ok_def res_bind_Inr_iff split: if_splits)
  from elf_phdrs_image [OF r] h e assms(2) show ?thesis by (simp add: after_header_def)
qed

text \<open>A failed stream stays failed: the loop skips every header.\<close>

lemma elf_phdrs_failed: "is_fail f \<Longrightarrow> elf_phdrs eh is f m = Inr m"
  by (induction "is") (simp_all add: seekg_def stream_read_def)



text \<open>
  C23: a successful load puts the image of the file into the memories. When all program headers
  lie inside the file, the instruction memory then holds the file bytes of every \<open>PT_LOAD\<close>
  segment at its addresses, the data memory holds the same and zeros up to \<open>p_memsz\<close>, later
  segments override earlier ones, every other byte is unchanged, and the result is the entry
  point of a valid header.
\<close>

theorem elf_load_image:
  assumes "load_elf (Some bs) m = Inr (entry, m')"
    and "\<forall>i < unat (e_phnum (ehdr_of bs)). elf_phdr_pos bs i + 32 \<le> length bs"
  shows "elf_header_ok bs \<and> entry = e_entry (ehdr_of bs) \<and>
    mem_bytes (fst m') =
      elf_image (elf_text bs) (elf_loads bs [0 ..< unat (e_phnum (ehdr_of bs))]) (mem_bytes (fst m)) \<and>
    mem_bytes (snd m') =
      elf_image (elf_data bs) (elf_loads bs [0 ..< unat (e_phnum (ehdr_of bs))]) (mem_bytes (snd m))"
  using elf_load_bytes [OF assms] .

text \<open>
  C37: a header table that starts past the end of the file is not an error. The failed read of
  the first program header leaves the stream failed, every later header is skipped in the same
  way, and the loader reports success with both memories unchanged (the interface promises an
  exception on I/O and parse errors).
\<close>

theorem elf_truncated_table_ignored:
  assumes "elf_header_ok bs" and "length bs < elf_phdr_pos bs 0 + 32"
  shows "load_elf (Some bs) m = Inr (e_entry (ehdr_of bs), m)"
proof (cases "unat (e_phnum (ehdr_of bs))")
  case 0
  then show ?thesis
    using assms(1) by (simp add: elf_header_ok_def load_elf_long elf_check_ident_eq)
next
  case (Suc n)
  have "elf_phdrs (ehdr_of bs) [0 ..< Suc n] (after_header bs) m = Inr m"
    using assms(2) by (simp add: upt_conv_Cons after_header_def elf_phdrs_failed elf_phdr_pos_def
        stream_read_def seekg_def del: upt_Suc)
  then show ?thesis
    using assms(1) by (simp add: elf_header_ok_def load_elf_long elf_check_ident_eq Suc del: upt_Suc)
qed

end
