(* ===== verification/Store_Frame.thy ===== *)
theory Store_Frame
  imports Elf_Loader
begin

text \<open>
  What a store leaves alone. Stores go through the caches to the RAM at the bottom of the
  hierarchy, so whatever does not look at the bytes (the timing of the devices, the invariants
  of the caches) is the same afterwards. The locale carries such a view through every operation
  that is made of stores: the access of MEM, \<open>load_program\<close> and the ELF loader.
\<close>

locale store_frame =
  fixes view :: "memsys \<Rightarrow> 'v"
  assumes frame_word: "mem_store_word m a v = Inr m' \<Longrightarrow> view m' = view m"
    and frame_half: "mem_store_half m a h = Inr m' \<Longrightarrow> view m' = view m"
    and frame_byte: "mem_store_byte m a b = Inr m' \<Longrightarrow> view m' = view m"
begin

lemma frame_access: "mem_access p a v wb m = Inr (wb', m') \<Longrightarrow> view m' = view m"
  by (cases p) (auto simp: res_bind_Inr_iff dest: frame_word frame_half frame_byte)

lemma frame_program: "store_program a ws m = Inr m' \<Longrightarrow> view m' = view m"
  by (induction ws arbitrary: a m) (fastforce simp: res_bind_Inr_iff dest: frame_word)+

lemma frame_copy: "elf_copy base bs m = Inr m' \<Longrightarrow> map_prod view view m' = map_prod view view m"
  by (induction bs arbitrary: base m) (fastforce simp: res_bind_Inr_iff prod_eq_iff dest: frame_byte)+

lemma frame_zero: "elf_zero a n d = Inr d' \<Longrightarrow> view d' = view d"
  by (induction n arbitrary: a d) (fastforce simp: res_bind_Inr_iff dest: frame_byte)+

lemma frame_segment: "elf_segment ph bs m = Inr m' \<Longrightarrow> map_prod view view m' = map_prod view view m"
  by (auto simp: elf_segment_def res_bind_Inr_iff prod_eq_iff dest!: frame_copy frame_zero)

lemma frame_phdrs: "elf_phdrs eh is f m = Inr m' \<Longrightarrow> map_prod view view m' = map_prod view view m"
proof (induction "is" arbitrary: f m)
  case (Cons i "is")
  have e: "elf_mem r = Inr x \<Longrightarrow> r = Inr x" for r :: "'x res" and x by (cases r) (simp_all add: elf_mem_def)
  obtain f' m1 where "elf_phdrs eh is f' m1 = Inr m'" "m1 = m \<or> (\<exists>ph bs. elf_segment ph bs m = Inr m1)"
    using Cons.prems by (auto simp: Let_def case_prod_beta res_bind_Inr_iff split: if_splits dest!: e) blast
  then show ?case using Cons.IH frame_segment by metis
qed simp

lemma frame_load_elf:
  assumes "core_load_elf f c = Inr c'"
  shows "view (co_imem c') = view (co_imem c) \<and> view (co_dmem c') = view (co_dmem c)"
  using assms
  by (auto simp: core_load_elf_def load_elf_def res_bind_Inr_iff Let_def case_prod_beta
      split: if_splits option.splits dest!: frame_phdrs)

lemma frame_load_program: "load_program ws c = Inr c' \<Longrightarrow> view (co_imem c') = view (co_imem c) \<and> co_dmem c' = co_dmem c"
  by (auto simp: load_program_def res_bind_Inr_iff dest: frame_program)

end

text \<open>Every view that a cache inherits from the memory behind it, and that does not look at the bytes, is one.\<close>

lemma store_frame_stack:
  fixes view :: "memsys \<Rightarrow> 'v"
  assumes flat: "\<And>f bs. view (Flat (f\<lparr>fm_mem := bs\<rparr>)) = view (Flat f)"
    and cached: "\<And>c m m'. view m' = view m \<Longrightarrow> view (Cached c m') = view (Cached c m)"
  shows "store_frame view"
proof
  have c: "map_sum id g r = Inr y \<Longrightarrow> \<exists>x. r = Inr x \<and> y = g x" for g :: "'x \<Rightarrow> 'y" and r :: "'x res" and y
    by (cases r) auto
  show "mem_store_word m a v = Inr m' \<Longrightarrow> view m' = view m" for m a v m'
    by (induction m arbitrary: m') (auto simp: flat_store_word_def res_bind_Inr_iff flat intro: cached dest!: c)
  show "mem_store_half m a h = Inr m' \<Longrightarrow> view m' = view m" for m a h m'
    by (induction m arbitrary: m') (auto simp: flat_store_half_def res_bind_Inr_iff flat intro: cached dest!: c)
  show "mem_store_byte m a b = Inr m' \<Longrightarrow> view m' = view m" for m a b m'
    by (induction m arbitrary: m') (auto simp: flat_store_byte_def res_bind_Inr_iff flat intro: cached dest!: c)
qed

end
