(* ===== verification/Core_Progress.thy ===== *)
theory Core_Progress
  imports Core_Safety Mem_Timing Store_Frame
begin

text \<open>
  The core makes progress. The next instruction to retire is in WB, MEM, EX or ID, or still
  to be fetched; the stages ahead of it are empty, so nothing but a memory can hold it, and a
  memory holds it for a bounded time. Every cycle therefore brings it closer to WB.
\<close>

section \<open>The memories of a cycle\<close>

text \<open>What stores leave alone: the timing of the devices, and the invariants of the caches.\<close>

definition mem_view :: "memsys \<Rightarrow> bool \<times> nat \<times> bool" where
  "mem_view m = (mem_timed m, mem_bound m, mem_wf m)"

interpretation devices: store_frame mem_view
  by (rule store_frame_stack) (simp_all add: mem_view_def)

lemma mem_access_view:
  "mem_access p a v wb m = Inr (wb', m') \<Longrightarrow>
     mem_timed m' = mem_timed m \<and> mem_bound m' = mem_bound m \<and> mem_wf m' = mem_wf m"
  using devices.frame_access [of p a v wb m wb' m'] by (simp add: mem_view_def)

lemma fetch_evaluate_memory:
  assumes "fetch_evaluate bp fs im out = Inr (fs', im', out')"
  shows "im' = snd (mem_ready (fs_pc fs) False im) \<and> fs_fetch_stall fs' = (\<not> fst (mem_ready (fs_pc fs) False im)) \<and>
    ifid_valid (la_shadow out') = fst (mem_ready (fs_pc fs) False im)"
  using assms by (auto simp: fetch_evaluate_def Let_def case_prod_beta res_bind_Inr_iff split: if_splits)

lemma mem_evaluate_memory:
  assumes "mem_evaluate x ms dm out = Inr (ms', dm', out')"
  shows "if exm_valid x \<and> is_mem_op (exm_op x)
    then let q = mem_ready (exm_alu_out x) (is_store (exm_op x)) dm in
      ms_stalling ms' = (\<not> fst q) \<and> (\<not> fst q \<longrightarrow> dm' = snd q) \<and>
      mem_timed (fst dm') = mem_timed (fst (snd q)) \<and> mem_bound (fst dm') = mem_bound (fst (snd q)) \<and>
      mem_wf (fst dm') = mem_wf (fst (snd q))
    else \<not> ms_stalling ms' \<and> fst dm' = fst dm"
proof (cases "exm_valid x \<and> is_mem_op (exm_op x)")
  case True
  then show ?thesis
    using assms mem_access_view
    by (auto simp: mem_evaluate_def Let_def case_prod_beta res_bind_Inr_iff split: if_splits)
next
  case False
  then show ?thesis
    using assms mem_access_other [of "exm_op x"]
    by (cases "exm_valid x") (auto simp: mem_evaluate_def Let_def case_prod_beta res_bind_Inr_iff)
qed

lemma core_evaluate_memories:
  assumes "core_evaluate c = Inr c1"
  defines "x \<equiv> latch_read (co_ex_mem c)" and "qf \<equiv> mem_ready (fs_pc (co_fetch c)) False (co_imem c, co_stats c)"
  shows "co_imem c1 = fst (snd qf) \<and> fs_fetch_stall (co_fetch c1) = (\<not> fst qf) \<and>
    ifid_valid (la_shadow (co_if_id c1)) = fst qf \<and>
    (\<exists>st. if exm_valid x \<and> is_mem_op (exm_op x)
      then let q = mem_ready (exm_alu_out x) (is_store (exm_op x)) (co_dmem c, st) in
        ms_stalling (co_mem c1) = (\<not> fst q) \<and> (\<not> fst q \<longrightarrow> co_dmem c1 = fst (snd q)) \<and>
        mem_timed (co_dmem c1) = mem_timed (fst (snd q)) \<and> mem_bound (co_dmem c1) = mem_bound (fst (snd q)) \<and>
        mem_wf (co_dmem c1) = mem_wf (fst (snd q))
      else \<not> ms_stalling (co_mem c1) \<and> co_dmem c1 = co_dmem c)"
proof -
  obtain fs im st1 fi where F: "fetch_evaluate (co_bpred c) (co_fetch c) (co_imem c, co_stats c) (co_if_id c)
      = Inr (fs, (im, st1), fi)" using assms(1) by (auto simp: core_evaluate_def res_bind_Inr_iff)
  obtain di where D: "decode_evaluate (co_rf c) (latch_read fi) (co_id_ex c) = Inr di"
    using assms(1) F by (auto simp: core_evaluate_def res_bind_Inr_iff)
  let ?ex = "execute_evaluate (co_bpred c \<noteq> None) (forward_evaluate (latch_read (co_mem_wb c)) (co_fwd c))
    (latch_read (co_ex_mem c)) (latch_read (co_mem_wb c)) (latch_read di) (co_ex c) (co_ex_mem c)"
  obtain ms dm st2 mw where M: "mem_evaluate (latch_read (snd ?ex)) (co_mem c) (co_dmem c, st1) (co_mem_wb c)
      = Inr (ms, (dm, st2), mw)"
    using assms(1) F D by (auto simp: core_evaluate_def res_bind_Inr_iff Let_def case_prod_beta)
  have c1: "co_imem c1 = im" "co_if_id c1 = fi" "co_fetch c1 = fs" "co_mem c1 = ms" "co_dmem c1 = dm"
    using assms(1) F D M by (auto simp: core_evaluate_def Let_def case_prod_beta)
  show ?thesis
    using fetch_evaluate_memory [OF F] mem_evaluate_memory [OF M, unfolded execute_evaluate_reg]
    unfolding c1 x_def qf_def by (auto simp: Let_def prod_eq_iff split: if_splits)
qed

lemma core_latch_stalled_memories:
  assumes "core_latch_stalled c = Inr c'"
  shows "co_imem c' = co_imem c \<and> (\<exists>st. co_dmem c' = fst (mem_tick (co_dmem c, st)))"
  using assms
  by (auto simp: core_latch_stalled_def core_latch_wb_def res_bind_Inr_iff core_count_cycle_def core_latch_mem_def
      mem_latch_def case_prod_beta capture_ex_operands_def Let_def split: if_splits)

lemma core_latch_all_memories:
  assumes "core_latch_all c = Inr c'"
  shows "(\<exists>st. co_imem c' = fst (mem_tick (co_imem c, st))) \<and> (\<exists>st. co_dmem c' = fst (mem_tick (co_dmem c, st)))"
  using assms
  by (auto simp: core_latch_all_def core_latch_wb_def res_bind_Inr_iff core_count_cycle_def core_latch_mem_def
      core_latch_ex_def core_latch_hazard_def core_latch_decode_def core_latch_fetch_def
      fetch_latch_def mem_latch_def case_prod_beta Let_def)

section \<open>The distance of the next instruction from WB\<close>

definition core_timed :: "core \<Rightarrow> bool" where
  "core_timed c \<longleftrightarrow> mem_timed (co_imem c) \<and> mem_timed (co_dmem c)"

definition core_dist :: "core \<Rightarrow> nat" where
  "core_dist c =
     (let x = latch_read (co_ex_mem c) in
      if mwb_valid (latch_read (co_mem_wb c)) then 0
      else if exm_valid x then 1 + (if is_mem_op (exm_op x) then mem_rank (co_dmem c) else 0)
      else if idex_valid (latch_read (co_id_ex c)) then 2 + mem_bound (co_dmem c)
      else if ifid_valid (latch_read (co_if_id c)) then 3 + mem_bound (co_dmem c)
      else 4 + mem_bound (co_dmem c) + mem_rank (co_imem c))"

definition core_latency :: "core \<Rightarrow> nat" where
  "core_latency c = 4 + mem_bound (co_imem c) + mem_bound (co_dmem c)"

lemma core_dist_le: "core_timed c \<Longrightarrow> core_dist c \<le> core_latency c"
  using mem_rank_bound [of "co_imem c"] mem_rank_bound [of "co_dmem c"]
  by (simp add: core_timed_def core_dist_def core_latency_def Let_def)

text \<open>A cycle, split as the code splits it; \<open>c1\<close> is the core after the evaluate phase.\<close>

lemma core_tick_split:
  assumes "core_tick c = Inr (b, c')" and "\<not> co_halted c"
  obtains c1 where "core_evaluate c = Inr c1"
    and "if ms_stalling (co_mem c1) then core_latch_stalled (core_observe c1) = Inr c'
         else core_latch_all (core_observe c1) = Inr c'"
proof -
  obtain c1 where e: "core_evaluate c = Inr c1" using assms by (auto simp: core_tick_def res_bind_Inr_iff)
  have "(if ms_stalling (co_mem c1) then core_latch_stalled (core_observe c1)
      else core_latch_all (core_observe c1)) = Inr c'"
    using assms e by (auto simp: core_tick_def res_bind_Inr_iff Let_def core_observe_frame)
  then show thesis by (intro that [OF e]) (auto split: if_splits)
qed

lemma core_tick_timed:
  assumes "core_tick c = Inr (b, c')" and "\<not> co_halted c" and "core_timed c"
  shows "core_timed c' \<and> mem_bound (co_imem c') = mem_bound (co_imem c) \<and> mem_bound (co_dmem c') = mem_bound (co_dmem c)"
proof -
  obtain c1 where e: "core_evaluate c = Inr c1"
    and l: "if ms_stalling (co_mem c1) then core_latch_stalled (core_observe c1) = Inr c'
         else core_latch_all (core_observe c1) = Inr c'" by (rule core_tick_split [OF assms(1,2)])
  note m = core_evaluate_memories [OF e]
  have i: "mem_timed (co_imem c1) \<and> mem_bound (co_imem c1) = mem_bound (co_imem c)"
    using m assms(3) timely.query_timed [of "(co_imem c, co_stats c)"] timely.query_bound [of "(co_imem c, co_stats c)"]
    by (simp add: core_timed_def)
  have d: "mem_timed (co_dmem c1) \<and> mem_bound (co_dmem c1) = mem_bound (co_dmem c)"
    using m assms(3) timely.query_timed [of "(co_dmem c, st)" for st] timely.query_bound [of "(co_dmem c, st)" for st]
    by (auto simp: core_timed_def Let_def split: if_splits)
  have t: "mem_timed (fst (mem_tick (k, st))) \<and> mem_bound (fst (mem_tick (k, st))) = mem_bound k" if "mem_timed k" for k st
    using mem_tick_timed [of "(k, st)"] that by simp
  show ?thesis
    using l i d t core_latch_stalled_memories [of "core_observe c1" c'] core_latch_all_memories [of "core_observe c1" c']
    by (auto simp: core_timed_def core_observe_frame split: if_splits)
qed

text \<open>The cycle of a stall: the data memory comes closer to its answer.\<close>

lemma core_dist_stall:
  assumes "core_evaluate c = Inr c1" and "core_latch_stalled (core_observe c1) = Inr c'"
    and "ms_stalling (co_mem c1)" and "quiet c" and "core_timed c" and "\<not> mwb_valid (latch_read (co_mem_wb c))"
  shows "core_dist c' < core_dist c"
proof -
  let ?x = "latch_read (co_ex_mem c)"
  note ev = core_evaluate_ok [OF assms(1,4)] and ob = core_observe_frame [of c1]
  have x: "exm_valid ?x" "is_mem_op (exm_op ?x)" using ev(5) assms(3) by (auto simp: core_view_def)
  obtain st where q: "\<not> fst (mem_ready (exm_alu_out ?x) (is_store (exm_op ?x)) (co_dmem c, st))"
      "co_dmem c1 = fst (snd (mem_ready (exm_alu_out ?x) (is_store (exm_op ?x)) (co_dmem c, st)))"
    using core_evaluate_memories [OF assms(1)] x assms(3) by (auto simp: Let_def)
  obtain st' where t: "co_dmem c' = fst (mem_tick (co_dmem c1, st'))"
    using core_latch_stalled_memories [OF assms(2)] ob by auto
  have "mem_waiting (co_dmem c1)" "mem_timed (co_dmem c1)" "mem_rank (co_dmem c1) \<le> mem_rank (co_dmem c)"
    using mem_ready_timing [of "exm_alu_out ?x" "is_store (exm_op ?x)" "co_dmem c" st False "co_dmem c1"
        "snd (snd (mem_ready (exm_alu_out ?x) (is_store (exm_op ?x)) (co_dmem c, st)))"] q assms(5)
    by (auto simp: core_timed_def prod_eq_iff)
  with mem_tick_rank [of "(co_dmem c1, st')"] t have r: "mem_rank (co_dmem c') < mem_rank (co_dmem c)" by simp
  obtain ws where "co_wb (core_observe c1) = wb_evaluate (latch_read (co_mem_wb (core_observe c1))) ws"
    using ev(1) ob by (auto simp: core_view_def)
  from core_latch_stalled_ok [OF assms(2) this] ev(1,5) assms(3,4) ob
  have "core_view c' = (core_view c)\<lparr>v_regs := wb_regs (v_w (core_view c)) (v_regs (core_view c)), v_w := mem_wb_bubble,
      v_p := v_w (core_view c), v_d := v_capture (core_view c)\<rparr>"
    by (simp add: core_view_def quiet_def)
  then have "latch_read (co_ex_mem c') = ?x" "\<not> mwb_valid (latch_read (co_mem_wb c'))"
    by (simp_all add: core_view_def)
  then show ?thesis using x r assms(6) by (simp add: core_dist_def Let_def)
qed

text \<open>The cycle of an advance: every stage hands on what it holds.\<close>

lemma v_access_valid: "v_access x dm = Some (w, dm') \<Longrightarrow> mwb_valid w = exm_valid x"
  by (auto simp: v_access_def Let_def split: if_splits)

lemma v_exec_valid: "exm_valid (v_exec v) = idex_valid (v_d v)"
  by (simp add: v_exec_def Let_def)

lemma v_decode_valid: "idex_valid (v_decode v) = ifid_valid (v_f v)"
  by (simp add: v_decode_def Let_def)

lemma bubble_in_EX: "\<not> idex_valid (v_d v) \<Longrightarrow> \<not> v_redirect v \<and> \<not> v_hazard v"
  by (simp add: v_redirect_def v_hazard_def hazard_evaluate_def)

lemma core_dist_advance:
  assumes "core_evaluate c = Inr c1" and "core_latch_all (core_observe c1) = Inr c'"
    and "\<not> ms_stalling (co_mem c1)" and "quiet c" and "core_timed c" and "\<not> mwb_valid (latch_read (co_mem_wb c))"
    and "core_timed c'" and bd: "mem_bound (co_dmem c') = mem_bound (co_dmem c)"
  shows "core_dist c' < core_dist c"
proof -
  let ?v = "core_view c" and ?q = "mem_ready (fs_pc (co_fetch c)) False (co_imem c, co_stats c)"
  note ev = core_evaluate_ok [OF assms(1,4)] and ob = core_observe_frame [of c1]
  have v: "v_x ?v = latch_read (co_ex_mem c)" "v_d ?v = latch_read (co_id_ex c)" "v_f ?v = latch_read (co_if_id c)"
    by (simp_all add: core_view_def)
  obtain ws where wb: "co_wb (core_observe c1) = wb_evaluate (latch_read (co_mem_wb (core_observe c1))) ws"
    using ev(1) ob by (auto simp: core_view_def)
  have L: "latch_read (co_mem_wb c') = la_shadow (co_mem_wb c1)" "latch_read (co_ex_mem c') = v_exec ?v"
    "latch_read (co_id_ex c') = (if v_redirect ?v \<or> v_hazard ?v then id_ex_bubble else v_decode ?v)"
    "\<not> v_redirect ?v \<Longrightarrow> \<not> v_hazard ?v \<Longrightarrow> latch_read (co_if_id c') = la_shadow (co_if_id c1)"
    using core_latch_all_ok [OF assms(2) wb] ev(1-4) ob assms(4) by (simp_all add: core_view_def quiet_def)
  have w': "mwb_valid (latch_read (co_mem_wb c')) = exm_valid (latch_read (co_ex_mem c))"
    using v_access_valid ev(5) assms(3) L(1) v(1) by auto
  have x': "exm_valid (latch_read (co_ex_mem c')) = idex_valid (latch_read (co_id_ex c))"
    using L(2) v_exec_valid [of ?v] v(2) by simp
  have rank': "mem_rank (co_dmem c') \<le> mem_bound (co_dmem c)"
    using assms(7) bd mem_rank_bound [of "co_dmem c'"] by (simp add: core_timed_def)
  show ?thesis
  proof (cases "exm_valid (latch_read (co_ex_mem c)) \<or> idex_valid (latch_read (co_id_ex c))")
    case True
    then show ?thesis using w' x' rank' assms(6) by (auto simp: core_dist_def Let_def)
  next
    case False
    then have nb: "\<not> v_redirect ?v" "\<not> v_hazard ?v" using bubble_in_EX [of ?v] v(2) by auto
    have d': "idex_valid (latch_read (co_id_ex c')) = ifid_valid (latch_read (co_if_id c))"
      using L(3) nb v_decode_valid [of ?v] v(3) by simp
    note m = core_evaluate_memories [OF assms(1)]
    have f': "ifid_valid (latch_read (co_if_id c')) = fst ?q" using L(4) nb m by simp
    have i': "mem_rank (co_imem c') < mem_rank (co_imem c)" if "\<not> fst ?q"
    proof -
      obtain st where "co_imem c' = fst (mem_tick (co_imem c1, st))"
        using core_latch_all_memories [OF assms(2)] ob by auto
      moreover have "mem_waiting (co_imem c1)" "mem_timed (co_imem c1)" "mem_rank (co_imem c1) \<le> mem_rank (co_imem c)"
        using mem_ready_timing [of "fs_pc (co_fetch c)" False "co_imem c" "co_stats c" False "co_imem c1" "snd (snd ?q)"]
          m that assms(5) by (auto simp: core_timed_def prod_eq_iff)
      ultimately show ?thesis using mem_tick_rank [of "(co_imem c1, st)"] by simp
    qed
    show ?thesis using False w' x' d' f' i' bd assms(6) by (auto simp: core_dist_def Let_def)
  qed
qed

lemma core_dist_tick:
  assumes "core_tick c = Inr (b, c')" and "\<not> co_halted c" and "quiet c" and "core_timed c"
    and "\<not> mwb_valid (latch_read (co_mem_wb c))"
  shows "core_dist c' < core_dist c"
proof -
  obtain c1 where e: "core_evaluate c = Inr c1"
    and l: "if ms_stalling (co_mem c1) then core_latch_stalled (core_observe c1) = Inr c'
         else core_latch_all (core_observe c1) = Inr c'" by (rule core_tick_split [OF assms(1,2)])
  show ?thesis
  proof (cases "ms_stalling (co_mem c1)")
    case True
    then show ?thesis using core_dist_stall [OF e _ True assms(3-5)] l by simp
  next
    case False
    then show ?thesis
      using core_dist_advance [OF e _ False assms(3-5)] l core_tick_timed [OF assms(1,2,4)] by simp
  qed
qed

section \<open>Progress of a run\<close>

lemma core_ticks_progress:
  assumes "core_ticks k c = Inr (log, c')" and "quiet c" and "core_timed c" and "\<not> co_halted c'"
  shows "k + core_dist c' \<le> core_dist c + (core_latency c + 1) * length log"
  using assms(1-3)
proof (induction k arbitrary: c log)
  case (Suc k)
  have h: "\<not> co_halted c" using Suc.prems(1) assms(4) by auto
  obtain b c1 log1 where t: "core_tick c = Inr (b, c1)" and r: "core_ticks k c1 = Inr (log1, c')"
    and l: "log = (if mwb_valid (latch_read (co_mem_wb c)) then [latch_read (co_mem_wb c)] else []) @ log1"
    by (rule core_ticks_SucE [OF Suc.prems(1) h])
  have q: "quiet c1" using core_tick_step [OF t h Suc.prems(2)] by simp
  have T: "core_timed c1" "core_latency c1 = core_latency c"
    using core_tick_timed [OF t h Suc.prems(3)] by (simp_all add: core_latency_def)
  have IH: "k + core_dist c' \<le> core_dist c1 + (core_latency c + 1) * length log1"
    using Suc.IH [OF r q T(1)] T(2) by simp
  show ?case
  proof (cases "mwb_valid (latch_read (co_mem_wb c))")
    case True
    then have "core_dist c = 0" by (simp add: core_dist_def)
    then show ?thesis using IH core_dist_le [OF T(1)] T(2) True by (simp add: l)
  next
    case False
    then show ?thesis using IH core_dist_tick [OF t h Suc.prems(2,3) False] by (simp add: l)
  qed
qed simp


text \<open>A run that is long enough has halted, when the machine halts.\<close>

lemma core_ticks_halts:
  assumes "fresh c" and "aligned_run c" and "core_timed c" and "core_ticks k c = Inr (log, c')"
    and "\<not> live (mem_bytes (co_imem c)) (core_arch c) (Suc n)" and "(core_latency c + 1) * (n + 1) \<le> k"
  shows "co_halted c'"
proof (rule ccontr)
  assume h: "\<not> co_halted c'"
  have q: "quiet c" using assms(1) by (simp add: fresh_def)
  have "live (mem_bytes (co_imem c)) (core_arch c) (length log)"
    using fresh_ticks [OF assms(1,4,2)] h pipe_invD(1) by auto
  then have "length log \<le> n" using assms(5) live_mono by (meson not_less_eq_eq)
  then have "(core_latency c + 1) * length log \<le> (core_latency c + 1) * n" by (rule mult_le_mono2)
  with core_ticks_progress [OF assms(4) q assms(3) h] core_dist_le [OF assms(3)] assms(6) show False by simp
qed

lemma run_halts:
  assumes "fresh c" and "aligned_run c" and "core_timed c" and "st_cycles (co_stats c) = 0"
    and "\<not> live (mem_bytes (co_imem c)) (core_arch c) (Suc n)"
    and "(core_latency c + 1) * (n + 1) \<le> unat m" and "core_run m c = Inr c'"
  shows "co_halted c'"
proof (rule ccontr)
  assume h: "\<not> co_halted c'"
  obtain k log where t: "core_ticks k c = Inr (log, c')" and m: "m \<le> st_cycles (co_stats c')"
    using core_run_ticks [OF assms(7)] h by blast
  have "st_cycles (co_stats c') = of_nat k" using core_ticks_cycles [OF t h] assms(4) by simp
  with m have "unat m \<le> unat (of_nat k :: u64)" by (simp add: word_le_nat_alt)
  also have "\<dots> \<le> k" by (simp add: unat_of_nat take_bit_nat_less_eq_self)
  finally show False using core_ticks_halts [OF assms(1-3) t assms(5)] assms(6) h by simp
qed

text \<open>
  \<open>run\<close> reaches the halt. If the reference machine halts at its instruction \<open>n\<close> and \<open>max_cycles\<close>
  is at least \<open>(core_latency c + 1) * (n + 1)\<close>, then \<open>run\<close> on a new core returns a halted core,
  unless a memory access aborts.
\<close>

theorem run_reaches_halt:
  assumes "fresh c" and "aligned_run c" and "core_timed c" and "st_cycles (co_stats c) = 0"
    and "\<not> live (mem_bytes (co_imem c)) (core_arch c) (Suc n)"
    and "(core_latency c + 1) * (n + 1) \<le> unat m" and "core_run m c = Inr c'"
  shows "co_halted c'"
  using run_halts [OF assms] .

section \<open>New cores are timed\<close>

lemma latency_or_one: "0 \<le> sint (l :: u32) \<Longrightarrow> 0 < sint (if l \<noteq> 0 then l else 1)"
  using signed_word_eqI [of l 0] by (cases "l = 0") (auto simp: order.strict_iff_order)

lemma cache_init_timed:
  assumes "cache_init lb ss h ws pe pd so = Inr c" and "0 \<le> sint h"
  shows "0 < sint (c_hit_latency c) \<and> c_phase c = Ph_Idle"
  using assms latency_or_one [of h] by (auto simp: cache_init_def res_bind_Inr_iff)

lemma flat_init_timed: "0 \<le> sint l \<Longrightarrow> mem_timed (Flat (flat_init b n l))"
  using latency_or_one [of l] by (simp add: flat_init_def)

text \<open>What the configuration must satisfy: no latency of \<open>2 ^ 31\<close> or more.\<close>

definition latencies_ok :: "sim_config \<Rightarrow> bool" where
  "latencies_ok cfg \<longleftrightarrow> 0 \<le> sint (dmem_latency_cycles cfg) \<and> 0 \<le> sint (imem_latency_cycles cfg) \<and>
     0 \<le> sint (dcache_hit_latency_cycles cfg) \<and> 0 \<le> sint (icache_hit_latency_cycles cfg)"

lemma core_init_timed:
  assumes "core_init cfg = Inr c" and "latencies_ok cfg"
  shows "core_timed c \<and> st_cycles (co_stats c) = 0"
  using assms cache_init_timed flat_init_timed
  by (auto simp: core_init_def core_imem_def core_dmem_def core_timed_def latencies_ok_def res_bind_Inr_iff Let_def
      stats_init_def split: if_splits)

section \<open>Instances\<close>

lemma demo_timed: "core_timed demo_core" "core_latency demo_core = 4" "st_cycles (co_stats demo_core) = 0"
  by (simp_all add: core_timed_def core_latency_def demo_core_def demo_imem_def demo_dmem_def flat_init_def
      stats_init_def)


lemma demo_run_20: "\<exists>c. core_run 20 demo_core = Inr c"
  supply [cong] = res_bind_weak_cong Let_weak_cong
  by (simp add: demo_init tick_eval core_run.simps)

theorem run_reaches_halt_witness:
  "\<exists>c. core_run 20 demo_core = Inr c \<and> co_halted c"
proof -
  obtain c where c: "core_run 20 demo_core = Inr c" using demo_run_20 by (elim exE)
  obtain log d where r: "core_ticks 7 demo_core = Inr (log, d)" "co_halted d"
      "map mwb_op log = [Op_ADDI, Op_ADDI, Op_EBREAK]"
    using demo_run by (elim exE conjE)
  from arg_cong [OF r(3), of length] have "length log = Suc 2" by simp
  with fresh_ticks [OF demo_fresh r(1) demo_aligned] r(2)
  have "\<not> live (mem_bytes (co_imem demo_core)) (core_arch demo_core) (Suc 2)" by simp
  from run_reaches_halt [OF demo_fresh demo_aligned demo_timed(1,3) this _ c] c show ?thesis
    by (simp add: demo_timed(2))
qed

end
