(* ===== verification/Core_Total.thy ===== *)
theory Core_Total
  imports Pipe_Safety Core_Progress
begin

text \<open>
  Total correctness of a run. \<open>Core_Safety\<close> names the two ways in which a cycle can abort, and
  \<open>Pipe_Safety\<close> a condition on the program that excludes both; with the progress measure of
  \<open>Core_Progress\<close> a run on such a program returns, halted, with the reference machine's
  registers, and within a number of cycles that the configuration determines.
\<close>

section \<open>No cycle aborts\<close>

definition safe_core :: "core \<Rightarrow> bool" where
  "safe_core c \<longleftrightarrow> program_safe (co_bpred c = None) (mem_bytes (co_imem c)) (core_arch c)"

lemma safe_core_aligned: "safe_core c \<Longrightarrow> aligned_run c"
  using safe_aligned by (fastforce simp: safe_core_def aligned_run_def ok_pc_def)

lemma safe_tick:
  assumes "safe_inv (mem_bytes (co_imem c)) a nb n (core_view c)" and "program_safe nb (mem_bytes (co_imem c)) a"
    and "quiet c" and "rd_ok c"
  obtains b c' where "core_tick c = Inr (b, c')"
proof (cases "core_tick c")
  case (Inl e)
  from core_tick_abort [OF assms(3,4) Inl] safe_progress [OF assms(1,2)] show thesis
    by (auto simp: core_view_def Let_def)
next
  case (Inr r)
  then show thesis using that by (cases r) simp
qed

lemma safe_ticks:
  assumes "safe_inv im a nb n (core_view c)" and "program_safe nb im a" and "a_regs a 0 = 0"
    and "quiet c" and "rd_ok c" and "mem_bytes (co_imem c) = im"
  shows "\<exists>log c'. core_ticks k c = Inr (log, c')"
  using assms(1,4-6)
proof (induction k arbitrary: c n)
  case (Suc k)
  show ?case
  proof (cases "co_halted c")
    case False
    obtain b c1 where t: "core_tick c = Inr (b, c1)"
      using safe_tick [of c a nb n] Suc.prems assms(2) by auto
    note s = core_tick_step [OF t False Suc.prems(2), unfolded Suc.prems(4)]
    have "\<exists>log c'. core_ticks k c1 = Inr (log, c')"
    proof (cases "co_halted c1")
      case True
      then show ?thesis by (simp add: core_ticks_halted)
    next
      case nh: False
      have "safe_inv im a nb (next_w (core_view c) n) (core_view c1)"
        using s nh by (intro safe_step [OF _ Suc.prems(1) assms(2) _ assms(3)]) blast+
      moreover have "rd_ok c1" by (rule core_tick_rd_ok [OF t False Suc.prems(2,3)])
      ultimately show ?thesis using s Suc.IH by blast
    qed
    then show ?thesis using False t by (auto simp: Let_def)
  qed simp
qed simp

lemma fresh_safe_inv:
  assumes "fresh c"
  shows "safe_inv (mem_bytes (co_imem c)) (core_arch c) (co_bpred c = None) 0 (core_view c)"
  using fresh_inv [OF assms] assms by (simp add: safe_inv_def fresh_def next_w_def next_x_def core_view_def)

lemma fresh_safe_ticks:
  assumes "fresh c" and "rd_ok c" and "safe_core c"
  shows "\<exists>log c'. core_ticks k c = Inr (log, c')"
proof -
  have "quiet c" using assms(1) by (simp add: fresh_def)
  moreover from this have "a_regs (core_arch c) 0 = 0" by (simp add: core_arch_def quiet_def core_regs_x0)
  ultimately show ?thesis
    using safe_ticks [OF fresh_safe_inv [OF assms(1)] assms(3) [unfolded safe_core_def] _ _ assms(2) refl] by blast
qed

text \<open>
  C9: a safe program never aborts the simulator. If the reference machine, started where the
  core starts, stays inside the memories with the look-ahead that \<open>program_safe\<close> asks for, then
  any number of cycles of a new core completes, whatever its caches, latencies, prefetcher and
  predictor: no fetch down a wrong path, and no instruction behind the halting one, trips an
  assertion.
\<close>

theorem safe_program_never_aborts:
  assumes "fresh c" and "rd_ok c" and "safe_core c"
  shows "\<exists>log c'. core_ticks k c = Inr (log, c')"
  using fresh_safe_ticks [OF assms] .

section \<open>A run returns\<close>

lemma core_run_abort: "core_run m c = Inl e \<Longrightarrow> \<exists>k. core_ticks k c = Inl e"
proof (induction m c rule: core_run.induct)
  case (1 m c)
  then have h: "\<not> co_halted c \<and> st_cycles (co_stats c) < m" using core_run_stop [of c m] by force
  show ?case
  proof (cases "core_tick c")
    case (Inl f)
    then have "core_ticks (Suc 0) c = Inl e" using h "1.prems" by (simp add: core_run_step)
    then show ?thesis by blast
  next
    case (Inr r)
    then obtain k where "core_ticks k (snd r) = Inl e" using "1.IH" [OF h Inr] "1.prems" h by (auto simp: core_run_step)
    then have "core_ticks (Suc k) c = Inl e" using h Inr by (simp add: case_prod_beta)
    then show ?thesis by blast
  qed
qed

lemma safe_run:
  assumes "fresh c" and "rd_ok c" and "safe_core c" and "core_timed c" and "st_cycles (co_stats c) = 0"
    and "\<not> live (mem_bytes (co_imem c)) (core_arch c) (Suc n)"
    and "(core_latency c + 1) * (n + 1) \<le> unat m"
  obtains c' where "core_run m c = Inr c'" and "co_halted c'"
proof (cases "core_run m c")
  case (Inl e)
  then obtain k where "core_ticks k c = Inl e" using core_run_abort by blast
  then show thesis using fresh_safe_ticks [OF assms(1-3), of k] by simp
next
  case (Inr c')
  then show thesis using that run_halts [OF assms(1) safe_core_aligned [OF assms(3)] assms(4-7)] by blast
qed

text \<open>
  C8: total correctness of \<open>Core::run\<close>. On a new core with a safe program that halts at its
  instruction \<open>n\<close> (counted from 0), and with \<open>max_cycles\<close> at least \<open>(core_latency c + 1) * (n + 1)\<close>,
  \<open>run\<close> returns (it neither aborts nor gives up), with the core halted, the reference machine's
  registers, \<open>n + 1\<close> instructions counted, and after no more cycles than that bound.
\<close>

theorem run_total:
  fixes c :: core and n :: nat
  defines "im \<equiv> mem_bytes (co_imem c)" and "a \<equiv> core_arch c" and "bound \<equiv> (core_latency c + 1) * (n + 1)"
  assumes "fresh c" and "rd_ok c" and "safe_core c" and "core_timed c" and "co_stats c = stats_init"
    and "live im a n" and "isa_halting (in_op (isa_insn im (isa_run im a n)))" and "bound \<le> unat m"
  shows "\<exists>c'. core_run m c = Inr c' \<and> co_halted c' \<and> core_regs (co_rf c') = a_regs (isa_run im a (Suc n)) \<and>
    st_instructions (co_stats c') = of_nat (Suc n) \<and> unat (st_cycles (co_stats c')) \<le> bound"
proof -
  have z: "st_cycles (co_stats c) = 0" using assms(8) by (simp add: stats_init_def)
  have nl: "\<not> live im a (Suc n)" using assms(10) by (simp add: live_Suc)
  define m0 :: u64 where "m0 = of_nat bound"
  have b: "unat m0 = bound" using le_less_trans [OF assms(11) unsigned_less [of m]]
    by (simp add: m0_def unat_of_nat take_bit_nat_eq_self)
  obtain c' where r: "core_run m0 c = Inr c'" "co_halted c'"
    by (rule safe_run [OF assms(4-7) z nl [unfolded im_def a_def], of m0]) (simp_all add: b bound_def)
  have "core_run m c = core_run m c'"
    using core_run_split [of m0 m c] r(1) b assms(11) by (simp add: word_le_nat_alt)
  then have m: "core_run m c = Inr c'" using core_run_stop [of c' m] r(2) by simp
  obtain k log where t: "core_ticks k c = Inr (log, c')" using core_run_ticks [OF r(1)] by blast
  note al = safe_core_aligned [OF assms(6)]
  have l: "length log = Suc n"
    using halted_length [OF assms(4) al t r(2)] assms(9) nl by (simp add: im_def a_def)
  have "core_regs (co_rf c') = a_regs (isa_run im a (Suc n))"
    using fresh_ticks [OF assms(4) t al] l by (simp add: im_def a_def)
  moreover have "st_instructions (co_stats c') = of_nat (Suc n)"
    using core_ticks_instructions [OF t] l assms(8) by (simp add: stats_init_def)
  moreover have "st_cycles (co_stats c') \<le> m0" using core_run_limit [OF r(1)] z by simp
  ultimately show ?thesis using m r(2) b by (auto simp: word_le_nat_alt)
qed

section \<open>New cores have register numbers in flight\<close>

lemma core_init_rd_ok: "core_init cfg = Inr c \<Longrightarrow> rd_ok c"
  by (auto simp: core_init_def res_bind_Inr_iff rd_ok_def latch_defs)

end
