(* ===== verification/Program_Run.thy ===== *)
theory Program_Run
  imports Elf_Loader Commit_Log
begin

text \<open>
  From the file to the commit log: a core that is constructed from a configuration and loads an
  ELF file retires the instructions of that file, as the reference machine executes them from
  the entry point with zero registers and a memory that holds the image.
\<close>

section \<open>The memories of a new core\<close>

definition ram_bytes :: "sim_config \<Rightarrow> byte_map" where
  "ram_bytes cfg n =
     (if unat (ram_base_addr cfg) \<le> n \<and> n < unat (ram_base_addr cfg) + ram_size_bytes cfg then Some 0 else None)"

lemma flat_init_bytes: "flat_bytes (flat_init (ram_base_addr cfg) (ram_size_bytes cfg) l) = ram_bytes cfg"
  by (auto simp: flat_bytes_def flat_init_def ram_bytes_def fun_eq_iff)

lemma core_init_memories:
  assumes "core_init cfg = Inr c"
  shows "mem_bytes (co_imem c) = ram_bytes cfg \<and> mem_bytes (co_dmem c) = ram_bytes cfg \<and> co_rf c = regfile_init"
  using assms
  by (auto simp: core_init_def core_imem_def core_dmem_def res_bind_Inr_iff flat_init_bytes Let_def split: if_splits)

lemma core_regs_init: "core_regs regfile_init = (\<lambda>_. 0)"
  by (simp add: core_regs_def reg_val_def regfile_init_def kNumRegs_def fun_eq_iff)

lemma core_load_elfE:
  assumes "core_load_elf (Some bs) c = Inr c'"
  obtains im dm where "load_elf (Some bs) (co_imem c, co_dmem c) = Inr (co_base c, im, dm)"
    and "c' = c\<lparr>co_imem := im, co_dmem := dm\<rparr>"
  using assms by (auto simp: core_load_elf_def res_bind_Inr_iff split: if_splits)

text \<open>The state in which the reference machine starts.\<close>

definition elf_start :: "sim_config \<Rightarrow> u8 list \<Rightarrow> arch" where
  "elf_start cfg bs =
     \<lparr>a_pc = e_entry (ehdr_of bs), a_regs = (\<lambda>_. 0),
      a_mem = elf_image (elf_data bs) (elf_loads bs [0 ..< unat (e_phnum (ehdr_of bs))]) (ram_bytes cfg)\<rparr>"

definition elf_code :: "sim_config \<Rightarrow> u8 list \<Rightarrow> byte_map" where
  "elf_code cfg bs = elf_image (elf_text bs) (elf_loads bs [0 ..< unat (e_phnum (ehdr_of bs))]) (ram_bytes cfg)"

lemma core_load_elf_state:
  assumes "core_init cfg = Inr c0" and "bpred_enabled cfg \<Longrightarrow> bpred_bht_entries cfg \<noteq> 0"
    and "core_load_elf (Some bs) c0 = Inr c"
    and "\<forall>i < unat (e_phnum (ehdr_of bs)). elf_phdr_pos bs i + 32 \<le> length bs"
  shows "fresh c \<and> mem_bytes (co_imem c) = elf_code cfg bs \<and> core_arch c = elf_start cfg bs"
proof -
  obtain im dm where l: "load_elf (Some bs) (co_imem c0, co_dmem c0) = Inr (co_base c0, im, dm)"
    and c: "c = c0\<lparr>co_imem := im, co_dmem := dm\<rparr>" by (rule core_load_elfE [OF assms(3)])
  note f = core_init_fresh [OF assms(1,2)] and m = core_init_memories [OF assms(1)]
  from elf_load_bytes [OF l assms(4)] f m show ?thesis
    by (simp add: c core_arch_def elf_code_def elf_start_def core_regs_init)
qed

text \<open>
  C5: end to end. A core built from any configuration that loads an ELF file (whose program
  headers lie inside it) and then runs for any number of cycles retires the instructions that
  the reference machine executes from the file's entry point, with the image of the file in
  instruction and data memory and all registers zero, and its registers are that machine's.
\<close>

theorem elf_program_runs:
  assumes "core_init cfg = Inr c0" and "bpred_enabled cfg \<Longrightarrow> bpred_bht_entries cfg \<noteq> 0"
    and "core_load_elf (Some bs) c0 = Inr c"
    and "\<forall>i < unat (e_phnum (ehdr_of bs)). elf_phdr_pos bs i + 32 \<le> length bs"
    and "aligned_run c" and "core_ticks k c = Inr (log, c')"
  shows "map commit_of log =
      map (\<lambda>j. isa_commit (elf_code cfg bs) (isa_run (elf_code cfg bs) (elf_start cfg bs) j)) [0 ..< length log] \<and>
    core_regs (co_rf c') = a_regs (isa_run (elf_code cfg bs) (elf_start cfg bs) (length log))"
proof -
  note s = core_load_elf_state [OF assms(1-4)]
  then have "fresh c" by blast
  from fresh_ticks [OF this assms(6,5)] s show ?thesis by (auto dest: log_commits)
qed

section \<open>A concrete file\<close>

text \<open>One segment: the three instructions of \<open>demo_prog\<close> at \<open>0x80000000\<close>, and four bytes of zeros.\<close>

definition demo_elf :: "u8 list" where
  "demo_elf =
     [0x7f, 0x45, 0x4c, 0x46, 1, 1, 0, 0, 0, 0, 0, 0, 0, 0, 0, 0,
      2, 0, 0xf3, 0, 1, 0, 0, 0, 0, 0, 0, 0x80, 0x34, 0, 0, 0, 0, 0, 0, 0,
      0, 0, 0, 0, 0x34, 0, 0x20, 0, 1, 0, 0, 0, 0, 0, 0, 0,
      1, 0, 0, 0, 0x54, 0, 0, 0, 0, 0, 0, 0x80, 0, 0, 0, 0x80,
      0xc, 0, 0, 0, 0x10, 0, 0, 0, 5, 0, 0, 0, 4, 0, 0, 0,
      0x93, 0, 0x50, 0, 0x13, 0x81, 0x10, 0, 0x73, 0, 0x10, 0]"

lemma demo_elf_header:
  "length demo_elf = 96" "e_entry (ehdr_of demo_elf) = 0x80000000" "e_phoff (ehdr_of demo_elf) = 52"
  "e_phentsize (ehdr_of demo_elf) = 32" "e_phnum (ehdr_of demo_elf) = 1" "e_machine (ehdr_of demo_elf) = EM_RISCV"
  by (simp_all add: demo_elf_def ehdr_of_def le32_def le16_def EM_RISCV_def)

lemma demo_elf_phdr:
  "phdr_of (drop 52 demo_elf) = \<lparr>p_type = 1, p_offset = 84, p_vaddr = 0x80000000, p_paddr = 0x80000000,
     p_filesz = 12, p_memsz = 16, p_flags = 5, p_align = 4\<rparr>"
  by (simp add: demo_elf_def phdr_of_def le32_def)

lemma demo_elf_inside: "\<forall>i < unat (e_phnum (ehdr_of demo_elf)). elf_phdr_pos demo_elf i + 32 \<le> length demo_elf"
  by (simp add: elf_phdr_pos_def demo_elf_header)

lemmas elf_zero_numeral =
  elf_zero.simps(2) [where n = "pred_numeral k" for k, folded numeral_eq_Suc]

text \<open>The same memory with more room behind it.\<close>

definition roomy :: "u8 list \<Rightarrow> flat_mem \<Rightarrow> flat_mem" where
  "roomy zs m = m\<lparr>fm_mem := fm_mem m @ zs\<rparr>"

lemma demo_elf_load_roomy:
  "load_elf (Some demo_elf) (Flat (roomy zs demo_dmem), Flat (roomy zs demo_dmem)) =
     Inr (0x80000000, Flat (roomy zs demo_imem), Flat (roomy zs demo_imem))"
proof -
  have id: "elf_check_ident (ehdr_of demo_elf) = Inr ()"
    by (simp add: elf_check_ident_eq demo_elf_header) (simp add: demo_elf_def)
  have "take 12 (drop 84 demo_elf) = [0x93, 0, 0x50, 0, 0x13, 0x81, 0x10, 0, 0x73, 0, 0x10, 0]"
    by (simp add: demo_elf_def)
  then have "elf_phdrs (ehdr_of demo_elf) [0] (after_header demo_elf) (Flat (roomy zs demo_dmem), Flat (roomy zs demo_dmem)) =
      Inr (Flat (roomy zs demo_imem), Flat (roomy zs demo_imem))"
    supply [cong] = res_bind_weak_cong
    by (simp add: demo_elf_header after_header_def seekg_def stream_read_def demo_elf_phdr phdr_of_take
        PT_LOAD_def elf_segment_def elf_mem_def roomy_def demo_dmem_def demo_imem_def flat_init_def flat_store_byte_def
        flat_offset_def vec_set_def numeral_list elf_zero_numeral)
  then show ?thesis by (simp add: load_elf_long demo_elf_header id)
qed

lemma demo_elf_load:
  "load_elf (Some demo_elf) (Flat demo_dmem, Flat demo_dmem) = Inr (0x80000000, Flat demo_imem, Flat demo_imem)"
  using demo_elf_load_roomy [of "[]"] by (simp add: roomy_def)

theorem elf_load_image_witness:
  "elf_header_ok demo_elf \<and>
   mem_bytes (Flat demo_imem) =
     elf_image (elf_text demo_elf) (elf_loads demo_elf [0 ..< unat (e_phnum (ehdr_of demo_elf))]) (flat_bytes demo_dmem)"
  using elf_load_image [OF demo_elf_load demo_elf_inside] by simp

text \<open>A file whose header table lies past its end is accepted and loads nothing.\<close>

theorem elf_truncated_table_ignored_witness:
  "load_elf (Some (take 60 demo_elf)) (Flat demo_dmem, Flat demo_dmem) =
     Inr (0x80000000, Flat demo_dmem, Flat demo_dmem)"
proof -
  let ?t = "take 60 demo_elf"
  have "ehdr_of ?t = ehdr_of demo_elf" using ehdr_of_take [of ?t] ehdr_of_take [of demo_elf] by simp
  moreover have "take 4 ?t = [0x7f, 0x45, 0x4c, 0x46] \<and> ?t ! 4 = 1 \<and> ?t ! 5 = 1" by (simp add: demo_elf_def)
  ultimately have "elf_header_ok ?t" "length ?t < elf_phdr_pos ?t 0 + 32"
    by (simp_all add: elf_header_ok_def elf_phdr_pos_def demo_elf_header)
  from elf_truncated_table_ignored [OF this, of "(Flat demo_dmem, Flat demo_dmem)"]
    \<open>ehdr_of ?t = ehdr_of demo_elf\<close> show ?thesis by (simp add: demo_elf_header)
qed

text \<open>The file, loaded into a new core of the demonstration configuration and run for seven cycles.\<close>

definition demo_elf_core :: core where
  "demo_elf_core = demo_core\<lparr>co_dmem := Flat demo_imem, co_tracer := None\<rparr>"

lemma demo_elf_core_loads:
  "core_init demo_config = Inr (demo_core\<lparr>co_imem := Flat demo_dmem, co_tracer := None\<rparr>)"
  "core_load_elf (Some demo_elf) (demo_core\<lparr>co_imem := Flat demo_dmem, co_tracer := None\<rparr>) = Inr demo_elf_core"
proof -
  show "core_init demo_config = Inr (demo_core\<lparr>co_imem := Flat demo_dmem, co_tracer := None\<rparr>)"
    by (simp add: core_init_def core_imem_def core_dmem_def core_bpred_def demo_config_def default_config_def
        demo_core_def demo_dmem_def)
  show "core_load_elf (Some demo_elf) (demo_core\<lparr>co_imem := Flat demo_dmem, co_tracer := None\<rparr>) = Inr demo_elf_core"
    using demo_elf_load by (simp add: core_load_elf_def demo_core_def demo_elf_core_def)
qed

lemma demo_elf_core_run:
  "\<exists>log c. core_ticks 7 demo_elf_core = Inr (log, c) \<and> length log = 3"
  supply [cong] = res_bind_weak_cong Let_weak_cong
  by (simp add: demo_elf_core_def demo_init tick_eval core_ticks_numeral)

theorem elf_program_runs_witness:
  "\<exists>log c. core_ticks 7 demo_elf_core = Inr (log, c) \<and>
     map commit_of log =
       map (\<lambda>j. isa_commit (elf_code demo_config demo_elf)
              (isa_run (elf_code demo_config demo_elf) (elf_start demo_config demo_elf) j)) [0 ..< 3]"
proof -
  obtain log c where r: "core_ticks 7 demo_elf_core = Inr (log, c)" "length log = 3"
    using demo_elf_core_run by (elim exE conjE)
  have a: "aligned_run demo_elf_core" by (simp add: aligned_run_def demo_elf_core_def demo_core_def)
  have b: "\<not> bpred_enabled demo_config" by (simp add: demo_config_def default_config_def)
  from elf_program_runs [OF demo_elf_core_loads(1) _ demo_elf_core_loads(2) demo_elf_inside a r(1)] b r show ?thesis by auto
qed

end
