(* ===== verification/Bench_Run.thy ===== *)
theory Bench_Run
  imports Program_Run Core_Progress
begin

text \<open>
  The command-line driver (\<open>tools/bench_run.cpp\<close>). The host is a parameter: the files it can
  read and write, the elapsed time, and the conversion of a \<open>double\<close> by \<open>printf\<close>. The model
  gives the exit status, the lines on standard output and standard error, and the trace.
  \<open>unsigned long\<close> has 64 bits, as on the Linux hosts the build files target.
\<close>

section \<open>Options\<close>

record bench_opts =
  bo_trace :: "string option"
  bo_cycles :: "string option"
  bo_elf :: "string option"
  bo_max_cycles :: u64
  bo_mem_latency :: u32
  bo_dcache :: bool
  bo_dcache_ways :: u32
  bo_imem_latency :: u32
  bo_icache :: bool
  bo_icache_ways :: u32
  bo_iprefetch :: bool
  bo_iprefetch_degree :: u32
  bo_bpred :: bool

definition bench_defaults :: bench_opts where
  "bench_defaults =
     \<lparr>bo_trace = None, bo_cycles = None, bo_elf = None, bo_max_cycles = - 1, bo_mem_latency = 5,
      bo_dcache = False, bo_dcache_ways = 1, bo_imem_latency = 1, bo_icache = False,
      bo_icache_ways = 1, bo_iprefetch = False, bo_iprefetch_degree = 1, bo_bpred = False\<rparr>"

text \<open>\<open>strtoul\<close> and \<open>strtoull\<close> in base 10: white space, a sign, digits, saturation.\<close>

definition is_space :: "char \<Rightarrow> bool" where
  "is_space c \<longleftrightarrow> (of_char c :: nat) = 32 \<or> 9 \<le> (of_char c :: nat) \<and> (of_char c :: nat) \<le> 13"

definition is_digit :: "char \<Rightarrow> bool" where
  "is_digit c \<longleftrightarrow> 48 \<le> (of_char c :: nat) \<and> (of_char c :: nat) \<le> 57"

definition digits_val :: "string \<Rightarrow> nat" where
  "digits_val s = foldl (\<lambda>n c. 10 * n + (of_char c - 48)) 0 s"

definition strtoul :: "string \<Rightarrow> u64" where
  "strtoul s =
     (let s1 = dropWhile is_space s;
          neg = (s1 \<noteq> [] \<and> hd s1 = CHR ''-'');
          s2 = (if s1 \<noteq> [] \<and> (hd s1 = CHR ''-'' \<or> hd s1 = CHR ''+'') then tl s1 else s1);
          v = digits_val (takeWhile is_digit s2)
      in if v \<ge> 2 ^ 64 then - 1 else if neg then - of_nat v else of_nat v)"

definition starts_with :: "string \<Rightarrow> string \<Rightarrow> bool" where
  "starts_with p s \<longleftrightarrow> take (length p) s = p"

text \<open>\<open>static_cast<unsigned>(std::strtoul(argv[i] + n, nullptr, 10))\<close>\<close>

definition arg_unsigned :: "nat \<Rightarrow> string \<Rightarrow> u32" where
  "arg_unsigned n s = ucast (strtoul (drop n s))"

definition bench_arg :: "string \<Rightarrow> bench_opts \<Rightarrow> bench_opts" where
  "bench_arg s o' =
     (if starts_with ''--trace='' s then o'\<lparr>bo_trace := Some (drop 8 s)\<rparr>
      else if starts_with ''--cycles='' s then o'\<lparr>bo_cycles := Some (drop 9 s)\<rparr>
      else if starts_with ''--mem-latency='' s then o'\<lparr>bo_mem_latency := arg_unsigned 14 s\<rparr>
      else if s = ''--dcache'' then o'\<lparr>bo_dcache := True\<rparr>
      else if starts_with ''--dcache-ways='' s then o'\<lparr>bo_dcache_ways := arg_unsigned 14 s\<rparr>
      else if starts_with ''--imem-latency='' s then o'\<lparr>bo_imem_latency := arg_unsigned 15 s\<rparr>
      else if s = ''--icache'' then o'\<lparr>bo_icache := True\<rparr>
      else if starts_with ''--icache-ways='' s then o'\<lparr>bo_icache_ways := arg_unsigned 14 s\<rparr>
      else if s = ''--iprefetch'' then o'\<lparr>bo_iprefetch := True\<rparr>
      else if starts_with ''--iprefetch-degree='' s then o'\<lparr>bo_iprefetch_degree := arg_unsigned 19 s\<rparr>
      else if s = ''--bpred'' then o'\<lparr>bo_bpred := True\<rparr>
      else if bo_elf o' = None then o'\<lparr>bo_elf := Some s\<rparr>
      else o'\<lparr>bo_max_cycles := strtoul s\<rparr>)"

definition bench_parse :: "string list \<Rightarrow> bench_opts" where
  "bench_parse args = fold bench_arg args bench_defaults"

definition bench_config :: "bench_opts \<Rightarrow> sim_config" where
  "bench_config o' =
     default_config\<lparr>dmem_latency_cycles := bo_mem_latency o', dcache_enabled := bo_dcache o',
       dcache_ways := bo_dcache_ways o', imem_latency_cycles := bo_imem_latency o',
       icache_enabled := bo_icache o', icache_ways := bo_icache_ways o',
       icache_prefetch_enabled := bo_iprefetch o', icache_prefetch_degree := bo_iprefetch_degree o',
       bpred_enabled := bo_bpred o'\<rparr>"

section \<open>The host\<close>

text \<open>
  \<open>h_percent c t\<close> is \<open>100.0 * c / t\<close> printed with two decimals, \<open>h_ratio i c\<close> is \<open>i / c\<close> with
  three; the other two are the printed wall time and speed.
\<close>

record host =
  h_file :: "string \<Rightarrow> u8 list option"
  h_writable :: "string \<Rightarrow> bool"
  h_percent :: "u64 \<Rightarrow> u64 \<Rightarrow> string"
  h_ratio :: "u64 \<Rightarrow> u64 \<Rightarrow> string"
  h_wall :: string
  h_speed :: "u64 \<Rightarrow> string"

definition num :: "'a::len word \<Rightarrow> string" where
  "num v = digits 10 (unat v)"

text \<open>\<open>what()\<close> of the exceptions.\<close>

fun elf_what :: "string \<Rightarrow> elf_error \<Rightarrow> string" where
  "elf_what path Elf_Cannot_Open = ''elf_loader: cannot open '' @ [CHR 0x27] @ path @ [CHR 0x27]"
| "elf_what path Elf_Short_Header = ''elf_loader: failed to read ELF header''"
| "elf_what path Elf_Not_Elf = ''elf_loader: not an ELF file''"
| "elf_what path Elf_Not_Elf32 = ''elf_loader: not ELF32''"
| "elf_what path Elf_Not_Little_Endian = ''elf_loader: not little-endian ELF''"
| "elf_what path Elf_Not_Riscv = ''elf_loader: not a RISC-V ELF''"
| "elf_what path (Elf_Short_Segment i) = ''elf_loader: short read on segment '' @ digits 10 i"
| "elf_what path (Elf_Entry entry base) =
     buffer 80 (''load_elf: entry 0x'' @ hex 8 entry @ '' != base 0x'' @ hex 8 base)"
| "elf_what path (Elf_Abort f) = []"

section \<open>The report\<close>

definition on_off :: "bool \<Rightarrow> string" where
  "on_off b = (if b then ''on'' else ''off'')"

definition bench_settings :: "string \<Rightarrow> bench_opts \<Rightarrow> string list" where
  "bench_settings path o' =
     [''elf:       '' @ path,
      ''mem lat:   '' @ num (bo_mem_latency o') @ '' cycle(s)'' @ (if bo_dcache o' then '' (miss penalty)'' else []),
      ''dcache:    '' @ on_off (bo_dcache o') @
        (if bo_dcache o' then '' ('' @ num (bo_dcache_ways o') @ ''-way)'' else []),
      ''imem lat:  '' @ num (bo_imem_latency o') @ '' cycle(s)'' @ (if bo_icache o' then '' (miss penalty)'' else []),
      ''icache:    '' @ on_off (bo_icache o') @
        (if bo_icache o' then '' ('' @ num (bo_icache_ways o') @ ''-way)'' else []),
      ''iprefetch: '' @ on_off (bo_iprefetch o') @
        (if bo_iprefetch o' then '' (degree '' @ num (bo_iprefetch_degree o') @ '')'' else []),
      ''bpred:     '' @ on_off (bo_bpred o')]"

definition bench_halted_line :: "core \<Rightarrow> string" where
  "bench_halted_line c =
     (if co_halt_reason c = Halt_Illegal
      then ''halted:    ILLEGAL INSTRUCTION 0x'' @ hex 8 (co_halt_raw c) @ '' at pc 0x'' @ hex 8 (co_halt_pc c)
      else ''halted:    '' @ (if co_halted c then ''yes'' else ''no (cycle limit)''))"

definition bench_stats :: "host \<Rightarrow> bench_opts \<Rightarrow> core \<Rightarrow> string list" where
  "bench_stats h o' c =
     (let s = co_stats c;
          correct = st_branch_correct s; mispred = st_branch_mispredicts s; total = correct + mispred
      in [''branches:  '' @ num total, ''correct:   '' @ num correct, ''mispred:   '' @ num mispred] @
         (if bo_iprefetch o'
          then [''pf useful/useless: '' @ num (st_prefetch_useful s) @ ''/'' @ num (st_prefetch_useless s)] else []) @
         (if total \<noteq> 0 then [''accuracy:  '' @ h_percent h correct total @ ''%''] else []) @
         [bench_halted_line c, ''cycles:    '' @ num (st_cycles s), ''insts:     '' @ num (st_instructions s)] @
         (if st_cycles s \<noteq> 0 then [''IPC:       '' @ h_ratio h (st_instructions s) (st_cycles s)] else []) @
         [''wall time: '' @ h_wall h @ '' s'', ''sim speed: '' @ h_speed h (st_cycles s) @ '' Mcycles/s'', []])"

section \<open>The program\<close>

datatype bench_status = Exit int | Aborted fault

record bench_out =
  out_status :: bench_status
  out_stdout :: "string list"
  out_stderr :: "string list"
  out_trace :: "(string \<times> string list) option"

definition bench_fail :: "int \<Rightarrow> string \<Rightarrow> bench_out" where
  "bench_fail n msg = \<lparr>out_status = Exit n, out_stdout = [], out_stderr = [msg], out_trace = None\<rparr>"

definition bench_abort :: "fault \<Rightarrow> bench_out" where
  "bench_abort f = \<lparr>out_status = Aborted f, out_stdout = [], out_stderr = [], out_trace = None\<rparr>"

text \<open>\<open>--cycles\<close> takes priority; a file that cannot be opened only gives a warning.\<close>

definition bench_trace_path :: "bench_opts \<Rightarrow> (string \<times> trace_format) option" where
  "bench_trace_path o' =
     (case bo_cycles o' of
        Some p \<Rightarrow> Some (p, Fmt_Cycle)
      | None \<Rightarrow> map_option (\<lambda>p. (p, Fmt_Commit)) (bo_trace o'))"

definition bench_attach :: "host \<Rightarrow> bench_opts \<Rightarrow> core \<Rightarrow> core \<times> string list" where
  "bench_attach h o' c =
     (case bench_trace_path o' of
        None \<Rightarrow> (c, [])
      | Some (p, fmt) \<Rightarrow>
          if h_writable h p then (core_set_tracer (Some \<lparr>tr_out = [], tr_fmt = fmt\<rparr>) c, [])
          else (c, [''warn: cannot open trace file '' @ [CHR 0x27] @ p @ [CHR 0x27]]))"

definition bench_exit :: "core \<Rightarrow> int" where
  "bench_exit c = (if co_halt_reason c = Halt_Illegal then 3 else if co_halted c then 0 else 1)"

definition bench_finish :: "host \<Rightarrow> bench_opts \<Rightarrow> string \<Rightarrow> string list \<Rightarrow> core \<Rightarrow> bench_out" where
  "bench_finish h o' path warns c =
     (case core_read_regs c of
        Inl f \<Rightarrow> bench_abort f
      | Inr regs \<Rightarrow>
          \<lparr>out_status = Exit (bench_exit c),
           out_stdout = bench_settings path o' @ bench_stats h o' c @ regs, out_stderr = warns,
           out_trace = (case (bench_trace_path o', co_tracer c) of
              (Some (p, _), Some t) \<Rightarrow> Some (p, tr_out t) | _ \<Rightarrow> None)\<rparr>)"

definition bench_usage :: string where
  "bench_usage = ''usage: bench_run [--trace=<file>] [--cycles=<file>] [--mem-latency=<n>] [--dcache] '' @
     ''[--dcache-ways=<n>] [--imem-latency=<n>] [--icache] [--icache-ways=<n>] [--iprefetch] '' @
     ''[--iprefetch-degree=<n>] [--bpred] <elf> [max_cycles]''"

definition bench_main :: "host \<Rightarrow> string list \<Rightarrow> bench_out" where
  "bench_main h args =
     (if args = [] then bench_fail 1 bench_usage
      else
        let o' = bench_parse args in
        case bo_elf o' of
          None \<Rightarrow> bench_fail 1 ''error: no ELF path given''
        | Some path \<Rightarrow>
            (case core_init (bench_config o') of
               Inl f \<Rightarrow> bench_abort f
             | Inr c0 \<Rightarrow>
                 (case core_load_elf (h_file h path) c0 of
                    Inl (Elf_Abort f) \<Rightarrow> bench_abort f
                  | Inl e \<Rightarrow> bench_fail 2 (''error: '' @ elf_what path e)
                  | Inr c1 \<Rightarrow>
                      let (c2, warns) = bench_attach h o' c1 in
                      (case core_run (bo_max_cycles o') c2 of
                         Inl f \<Rightarrow> bench_abort f
                       | Inr c3 \<Rightarrow> bench_finish h o' path warns c3))))"

end
