(* ===== verification/Bench_Options.thy ===== *)
theory Bench_Options
  imports Bench_Run
begin

text \<open>
  The command line of \<open>bench_run\<close>: reading a number that was printed gives the number, and
  reading the options that were printed gives the options.
\<close>

section \<open>Numbers\<close>

lemma digit_char_val: "d < 10 \<Longrightarrow> is_digit (digit_char d) \<and> (of_char (digit_char d) :: nat) = 48 + d"
proof -
  assume "d < 10"
  then have "d \<in> {0, 1, 2, 3, 4, 5, 6, 7, 8, 9}" by auto
  then show ?thesis by (auto simp: digit_char_def is_digit_def)
qed

lemma digits_val_snoc: "digits_val (s @ [c]) = 10 * digits_val s + (of_char c - 48)"
  by (simp add: digits_val_def)

lemma digits_10: "list_all is_digit (digits 10 n) \<and> digits 10 n \<noteq> [] \<and> digits_val (digits 10 n) = n"
proof (induction n rule: less_induct)
  case (less n)
  show ?case
  proof (cases "n < 10")
    case True
    then show ?thesis using digit_char_val [of n] by (simp add: digits.simps [of 10 n] digits_val_def)
  next
    case False
    then have IH: "list_all is_digit (digits 10 (n div 10))" "digits_val (digits 10 (n div 10)) = n div 10"
      using less by simp_all
    have "n mod 10 < 16" by (rule less_trans [of _ 10]) simp_all
    then have "n mod 10 mod 16 = n mod 10" by simp
    then show ?thesis using False IH digit_char_val [of "n mod 10"] by (simp add: digits.simps [of 10 n] digits_val_snoc)
  qed
qed

lemma digit_not_sign: "is_digit c \<Longrightarrow> \<not> is_space c \<and> c \<noteq> CHR ''-'' \<and> c \<noteq> CHR ''+''"
  by (auto simp: is_digit_def is_space_def)

lemma strtoul_digits:
  assumes "n < 2 ^ 64"
  shows "strtoul (digits 10 n) = of_nat n"
proof -
  obtain c s where s: "digits 10 n = c # s" using digits_10 [of n] by (cases "digits 10 n") auto
  have d: "list_all is_digit (c # s)" "digits_val (c # s) = n" using digits_10 [of n] s by simp_all
  have t: "takeWhile is_digit s = s" using d(1) by (simp add: takeWhile_eq_all_conv list_all_iff)
  then show ?thesis using d assms digit_not_sign [of c] by (simp add: strtoul_def s Let_def t)
qed

lemma strtoul_num: "strtoul (num (v :: u64)) = v"
  using strtoul_digits [of "unat v"] unsigned_less [of v] by (simp add: num_def)

lemma strtoul_num32: "(ucast (strtoul (num (v :: u32))) :: u32) = v"
proof -
  have "unat v < 2 ^ 64" using unsigned_less [of v] by (rule less_le_trans) simp
  moreover have "(ucast (ucast v :: u64) :: u32) = v" by (rule bit_word_eqI) (auto simp: bit_simps)
  ultimately show ?thesis by (simp add: num_def strtoul_digits)
qed

section \<open>Options\<close>

text \<open>A command line that gives every option explicitly.\<close>

definition bench_args :: "bench_opts \<Rightarrow> string list" where
  "bench_args o' =
     (case bo_trace o' of None \<Rightarrow> [] | Some p \<Rightarrow> [''--trace='' @ p]) @
     (case bo_cycles o' of None \<Rightarrow> [] | Some p \<Rightarrow> [''--cycles='' @ p]) @
     [''--mem-latency='' @ num (bo_mem_latency o')] @ (if bo_dcache o' then [''--dcache''] else []) @
     [''--dcache-ways='' @ num (bo_dcache_ways o'), ''--imem-latency='' @ num (bo_imem_latency o')] @
     (if bo_icache o' then [''--icache''] else []) @ [''--icache-ways='' @ num (bo_icache_ways o')] @
     (if bo_iprefetch o' then [''--iprefetch''] else []) @
     [''--iprefetch-degree='' @ num (bo_iprefetch_degree o')] @ (if bo_bpred o' then [''--bpred''] else []) @
     (case bo_elf o' of None \<Rightarrow> [] | Some p \<Rightarrow> [p, num (bo_max_cycles o')])"

lemma starts_with_simps [simp]:
  "starts_with [] s" "\<not> starts_with (c # p) []" "starts_with (c # p) (d # s) \<longleftrightarrow> c = d \<and> starts_with p s"
  by (auto simp: starts_with_def)

lemma bench_arg_option:
  "bench_arg (''--trace='' @ p) o' = o'\<lparr>bo_trace := Some p\<rparr>"
  "bench_arg (''--cycles='' @ p) o' = o'\<lparr>bo_cycles := Some p\<rparr>"
  "bench_arg (''--mem-latency='' @ num l) o' = o'\<lparr>bo_mem_latency := l\<rparr>"
  "bench_arg ''--dcache'' o' = o'\<lparr>bo_dcache := True\<rparr>"
  "bench_arg (''--dcache-ways='' @ num l) o' = o'\<lparr>bo_dcache_ways := l\<rparr>"
  "bench_arg (''--imem-latency='' @ num l) o' = o'\<lparr>bo_imem_latency := l\<rparr>"
  "bench_arg ''--icache'' o' = o'\<lparr>bo_icache := True\<rparr>"
  "bench_arg (''--icache-ways='' @ num l) o' = o'\<lparr>bo_icache_ways := l\<rparr>"
  "bench_arg ''--iprefetch'' o' = o'\<lparr>bo_iprefetch := True\<rparr>"
  "bench_arg (''--iprefetch-degree='' @ num l) o' = o'\<lparr>bo_iprefetch_degree := l\<rparr>"
  "bench_arg ''--bpred'' o' = o'\<lparr>bo_bpred := True\<rparr>"
  by (simp_all add: bench_arg_def arg_unsigned_def strtoul_num32)

text \<open>A string without the two dashes is a positional argument.\<close>

lemma starts_with_iff: "starts_with p s \<longleftrightarrow> (\<exists>r. s = p @ r)"
  by (auto simp: starts_with_def) (metis append_take_drop_id)

lemma bench_arg_positional:
  assumes "\<not> starts_with ''--'' s"
  shows "bench_arg s o' =
    (if bo_elf o' = None then o'\<lparr>bo_elf := Some s\<rparr> else o'\<lparr>bo_max_cycles := strtoul s\<rparr>)"
proof -
  have "\<not> starts_with (''--'' @ q) s" "s \<noteq> ''--'' @ q" for q
    using assms by (auto simp: starts_with_iff)
  from this [of "''trace=''"] this [of "''cycles=''"] this [of "''mem-latency=''"] this [of "''dcache''"]
    this [of "''dcache-ways=''"] this [of "''imem-latency=''"] this [of "''icache''"] this [of "''icache-ways=''"]
    this [of "''iprefetch''"] this [of "''iprefetch-degree=''"] this [of "''bpred''"]
  show ?thesis by (simp add: bench_arg_def)
qed

lemma num_positional: "\<not> starts_with ''--'' (num v)"
proof -
  obtain c s where s: "digits 10 (unat v) = c # s" using digits_10 [of "unat v"] by (cases "digits 10 (unat v)") auto
  have "is_digit c" using digits_10 [of "unat v"] s by simp
  then show ?thesis using digit_not_sign [of c] by (auto simp: num_def s)
qed

text \<open>The arguments that may be left out.\<close>

lemma bench_arg_flag:
  "fold bench_arg (if b then [''--dcache''] else []) o' = o'\<lparr>bo_dcache := b \<or> bo_dcache o'\<rparr>"
  "fold bench_arg (if b then [''--icache''] else []) o' = o'\<lparr>bo_icache := b \<or> bo_icache o'\<rparr>"
  "fold bench_arg (if b then [''--iprefetch''] else []) o' = o'\<lparr>bo_iprefetch := b \<or> bo_iprefetch o'\<rparr>"
  "fold bench_arg (if b then [''--bpred''] else []) o' = o'\<lparr>bo_bpred := b \<or> bo_bpred o'\<rparr>"
  "fold bench_arg (case t of None \<Rightarrow> [] | Some p \<Rightarrow> [''--trace='' @ p]) o' =
     o'\<lparr>bo_trace := if t = None then bo_trace o' else t\<rparr>"
  "fold bench_arg (case t of None \<Rightarrow> [] | Some p \<Rightarrow> [''--cycles='' @ p]) o' =
     o'\<lparr>bo_cycles := if t = None then bo_cycles o' else t\<rparr>"
  by (simp_all add: bench_arg_option del: append_Cons append_Nil split: option.split)

text \<open>
  C31: the command line round trip. Parsing the arguments that spell out a set of options gives
  these options back, whatever the numbers (32-bit options, 64-bit cycle limit) and the flags,
  when the path of the ELF file does not look like an option. Without a path there is no place
  for a cycle limit, so it must be the default.
\<close>

theorem options_roundtrip:
  assumes "case bo_elf o' of Some p \<Rightarrow> \<not> starts_with ''--'' p | None \<Rightarrow> bo_max_cycles o' = bo_max_cycles bench_defaults"
  shows "bench_parse (bench_args o') = o'"
  using assms
  by (cases "bo_elf o'") (simp_all add: bench_parse_def bench_args_def bench_arg_option bench_arg_flag
      bench_arg_positional num_positional strtoul_num bench_defaults_def del: append_Cons append_Nil)

theorem options_roundtrip_witness:
  "bench_parse [''--mem-latency=7'', ''--dcache-ways=1'', ''--imem-latency=1'', ''--icache'', ''--icache-ways=2'',
     ''--iprefetch-degree=1'', ''a.elf'', ''100''] =
   bench_defaults\<lparr>bo_mem_latency := 7, bo_icache := True, bo_icache_ways := 2, bo_elf := Some ''a.elf'',
     bo_max_cycles := 100\<rparr>"
  using options_roundtrip [of "bench_defaults\<lparr>bo_mem_latency := 7, bo_icache := True, bo_icache_ways := 2,
      bo_elf := Some ''a.elf'', bo_max_cycles := 100\<rparr>"]
  by (simp add: bench_args_def bench_defaults_def num_def digits.simps digit_char_def)

end
