(* ===== verification/Bench_Correct.thy ===== *)
theory Bench_Correct
  imports Bench_Options
begin

text \<open>
  What \<open>bench_run\<close> tells its caller: the exit status, the report and the trace file are those of
  the reference machine's run of the ELF file.
\<close>

section \<open>The halt report of the core\<close>

definition halt_of :: "core \<Rightarrow> halt_reason \<times> u32 \<times> u32" where
  "halt_of c = (co_halt_reason c, co_halt_pc c, co_halt_raw c)"

definition halt_entry :: "mem_wb \<Rightarrow> halt_reason \<times> u32 \<times> u32" where
  "halt_entry w = (if mwb_op w = Op_EBREAK then Halt_Ebreak else Halt_Illegal, mwb_pc w, mwb_raw w)"

lemma core_evaluate_halt: "core_evaluate c = Inr c' \<Longrightarrow> halt_of c' = halt_of c"
  by (auto simp: core_evaluate_def Let_def case_prod_beta res_bind_Inr_iff halt_of_def)

lemma core_latch_parts_halt:
  "halt_of (core_latch_mem c) = halt_of c" "halt_of (core_latch_ex c) = halt_of c"
  "halt_of (core_latch_hazard c) = halt_of c" "halt_of (core_latch_decode c) = halt_of c"
  "halt_of (core_latch_fetch c) = halt_of c" "halt_of (core_count_cycle c) = halt_of c"
  "halt_of (capture_ex_operands c) = halt_of c"
  by (simp_all add: halt_of_def core_latch_mem_def core_latch_ex_def core_latch_hazard_def core_latch_decode_def
      core_latch_fetch_def core_count_cycle_def capture_ex_operands_def case_prod_beta Let_def)

lemma core_latch_wb_halt: "core_latch_wb c = Inr c' \<Longrightarrow> halt_of c' = halt_of c"
  by (auto simp: core_latch_wb_def res_bind_Inr_iff halt_of_def)

lemma core_latch_halt:
  assumes "(if s then core_latch_stalled c else core_latch_all c) = Inr c'"
  shows "halt_of c' = halt_of c"
  using assms
  by (auto simp: core_latch_stalled_def core_latch_all_def res_bind_Inr_iff core_latch_parts_halt
      dest!: core_latch_wb_halt split: if_splits)

lemma core_tick_halt:
  assumes "core_tick c = Inr (b, c')" and "\<not> co_halted c" and "quiet c"
  shows "halt_of c' = (if co_halted c' then halt_entry (latch_read (co_mem_wb c)) else halt_of c)"
proof -
  obtain c1 where e: "core_evaluate c = Inr c1"
    and l: "if ms_stalling (co_mem c1) then core_latch_stalled (core_observe c1) = Inr c'
         else core_latch_all (core_observe c1) = Inr c'" by (rule core_tick_split [OF assms(1,2)])
  have "halt_of c' = halt_of (core_observe c1)"
    using core_latch_halt [of "ms_stalling (co_mem c1)" "core_observe c1" c'] l by (simp split: if_splits)
  moreover have "co_halted c' \<longleftrightarrow> mwb_valid (latch_read (co_mem_wb c)) \<and> isa_halting (mwb_op (latch_read (co_mem_wb c)))"
    using core_tick_step [OF assms] by (simp add: core_view_def)
  ultimately show ?thesis
    using core_evaluate_halt [OF e] core_evaluate_clock [OF e]
    by (auto simp: core_observe_def Let_def halt_of_def halt_entry_def isa_halting_def)
qed

lemma core_ticks_halt:
  assumes "core_ticks k c = Inr (log, c')" and "\<not> co_halted c" and "quiet c"
  shows "if co_halted c' then log \<noteq> [] \<and> halt_of c' = halt_entry (last log) else halt_of c' = halt_of c"
  using assms
proof (induction k arbitrary: c log)
  case (Suc k)
  obtain b c1 log1 where t: "core_tick c = Inr (b, c1)" and r: "core_ticks k c1 = Inr (log1, c')"
    and l: "log = (if mwb_valid (latch_read (co_mem_wb c)) then [latch_read (co_mem_wb c)] else []) @ log1"
    by (rule core_ticks_SucE [OF Suc.prems(1,2)])
  note s = core_tick_step [OF t Suc.prems(2,3)] and h = core_tick_halt [OF t Suc.prems(2,3)]
  show ?case
  proof (cases "co_halted c1")
    case True
    then show ?thesis using r h s core_ticks_halted [of c1 k] by (simp add: l core_view_def)
  next
    case False
    with Suc.IH [OF r False] s h show ?thesis by (auto simp: l)
  qed
qed simp

section \<open>The register dump\<close>

definition reg_cell :: "(u8 \<Rightarrow> u32) \<Rightarrow> nat \<Rightarrow> string" where
  "reg_cell r i = ''x'' @ pad_right 2 (dec (int i)) @ '' '' @ pad_left (CHR '' '') 4 (abi_name i) @ '' = 0x'' @
     hex_upper 8 (r (of_nat i))"

definition reg_dump :: "(u8 \<Rightarrow> u32) \<Rightarrow> string list" where
  "reg_dump r = map (\<lambda>i. '' '' @ reg_cell r i @ ''    '' @ reg_cell r (i + 16)) [0 ..< 16]"

lemma core_reg_cell_ok: "i < 32 \<Longrightarrow> core_reg_cell c i = Inr (reg_cell (core_regs (co_rf c)) i)"
  using core_regs_read [of "co_rf c" "of_nat i"] regfile_read_reg_val [of "of_nat i" "co_rf c"]
  by (simp add: core_reg_cell_def reg_cell_def unat_of_nat take_bit_nat_eq_self)

lemma core_reg_lines_ok:
  "list_all (\<lambda>i. i < 16) is \<Longrightarrow> core_reg_lines c is =
     Inr (map (\<lambda>i. '' '' @ reg_cell (core_regs (co_rf c)) i @ ''    '' @ reg_cell (core_regs (co_rf c)) (i + 16)) is)"
  by (induction "is") (simp_all add: core_reg_cell_ok)

lemma core_read_regs_ok: "core_read_regs c = Inr (reg_dump (core_regs (co_rf c)))"
  unfolding core_read_regs_def reg_dump_def by (rule core_reg_lines_ok) (simp add: list_all_iff)

section \<open>The verdict of a run\<close>

text \<open>
  The exit status and the \<open>halted:\<close> line after \<open>m\<close> instructions of the reference machine: still
  running, stopped by \<open>EBREAK\<close>, or stopped by an illegal instruction.
\<close>

definition ref_verdict :: "byte_map \<Rightarrow> arch \<Rightarrow> nat \<Rightarrow> int \<times> string" where
  "ref_verdict im a m =
     (if live im a m then (1, ''halted:    no (cycle limit)'')
      else let s = isa_run im a (m - 1) in
        if in_op (isa_insn im s) = Op_EBREAK then (0, ''halted:    yes'')
        else (3, ''halted:    ILLEGAL INSTRUCTION 0x'' @ hex 8 (isa_fetch im (a_pc s)) @ '' at pc 0x'' @ hex 8 (a_pc s)))"

lemma run_verdict:
  assumes "fresh c" and "core_ticks k c = Inr (log, c')" and "aligned_run c" and "halt_of c = (Halt_None, 0, 0)"
  defines "im \<equiv> mem_bytes (co_imem c)" and "a \<equiv> core_arch c"
  shows "(bench_exit c', bench_halted_line c') = ref_verdict im a (length log)"
    and "length log = 0 \<or> live im a (length log - 1)"
    and "bench_exit c' \<noteq> 3 \<Longrightarrow> \<forall>w \<in> set log. mwb_op w \<noteq> Op_ILLEGAL"
proof -
  note F = fresh_ticks [OF assms(1-3), folded im_def a_def]
  have q: "\<not> co_halted c" "quiet c" using assms(1) by (simp_all add: fresh_def)
  note H = core_ticks_halt [OF assms(2) q]
  have ok: "w_ok im (log ! j) (isa_run im a j)" if "j < length log" for j
    using F that by (auto simp: list_all2_conv_all_nth)
  have op: "mwb_op (log ! j) = in_op (isa_insn im (isa_run im a j))" if "j < length log" for j
    using ok [OF that] by (simp add: w_ok_def Let_def)
  have "(bench_exit c', bench_halted_line c') = ref_verdict im a (length log) \<and>
      (length log = 0 \<or> live im a (length log - 1)) \<and> (bench_exit c' \<noteq> 3 \<longrightarrow> (\<forall>w \<in> set log. mwb_op w \<noteq> Op_ILLEGAL))"
  proof (cases "co_halted c'")
    case False
    then have l: "live im a (length log)" using F pipe_invD(1) by auto
    then have "\<forall>w \<in> set log. mwb_op w \<noteq> Op_ILLEGAL"
      using op by (auto simp: in_set_conv_nth live_def isa_halting_def)
    then show ?thesis
      using False H assms(4) l live_mono [OF l, of "length log - 1"]
      by (simp add: bench_exit_def bench_halted_line_def ref_verdict_def halt_of_def)
  next
    case True
    then have l: "live im a (length log - 1)" "\<not> live im a (length log)" and ne: "log \<noteq> []" using F by auto
    obtain m where m: "length log = Suc m" using ne by (cases log) auto
    have w: "last log = log ! m" using ne m by (simp add: last_conv_nth)
    have wk: "w_ok im (last log) (isa_run im a m)" using ok [of m] m w by simp
    have h: "halt_of c' = halt_entry (last log)" using H True by simp
    have other: "\<forall>j < m. mwb_op (log ! j) \<noteq> Op_ILLEGAL" using l(1) m op by (auto simp: live_def isa_halting_def)
    have "\<forall>w \<in> set log. mwb_op w \<noteq> Op_ILLEGAL" if "mwb_op (last log) = Op_EBREAK"
      using that other m w by (auto simp: in_set_conv_nth less_Suc_eq)
    moreover have "isa_halting (mwb_op (last log))"
      using l m op [of m] w by (simp add: live_Suc)
    ultimately show ?thesis
      using True h wk l m
      by (auto simp: bench_exit_def bench_halted_line_def ref_verdict_def halt_of_def halt_entry_def w_ok_def Let_def
          isa_halting_def)
  qed
  then show "(bench_exit c', bench_halted_line c') = ref_verdict im a (length log)"
    "length log = 0 \<or> live im a (length log - 1)"
    "bench_exit c' \<noteq> 3 \<Longrightarrow> \<forall>w \<in> set log. mwb_op w \<noteq> Op_ILLEGAL" by blast+
qed

section \<open>The phases of main\<close>

lemma bench_main_cases:
  assumes "bo_elf (bench_parse args) = Some path" and "out_status (bench_main h args) = Exit n"
  defines "o' \<equiv> bench_parse args"
  obtains (failed) c0 e where "core_init (bench_config o') = Inr c0" "core_load_elf (h_file h path) c0 = Inl e"
      "bench_main h args = bench_fail 2 (''error: '' @ elf_what path e)"
  | (ran) c0 c1 c3 where "core_init (bench_config o') = Inr c0" "core_load_elf (h_file h path) c0 = Inr c1"
      "core_run (bo_max_cycles o') (fst (bench_attach h o' c1)) = Inr c3"
      "bench_main h args = bench_finish h o' path (snd (bench_attach h o' c1)) c3"
proof -
  have ne: "args \<noteq> []" using assms(1) by (auto simp: bench_parse_def bench_defaults_def)
  obtain c0 where i: "core_init (bench_config o') = Inr c0"
    using assms(1,2) ne
    by (cases "core_init (bench_config o')") (auto simp: bench_main_def o'_def bench_abort_def Let_def)
  show thesis
  proof (cases "core_load_elf (h_file h path) c0")
    case (Inl e)
    then show thesis
      using assms(1,2) ne i failed [OF i Inl]
      by (cases e) (simp_all add: bench_main_def o'_def bench_abort_def Let_def)
  next
    case (Inr c1)
    show thesis
    proof (cases "core_run (bo_max_cycles o') (fst (bench_attach h o' c1))")
      case (Inl f)
      then show thesis using assms(1,2) ne i Inr by (simp add: bench_main_def o'_def bench_abort_def case_prod_beta)
    next
      case (Inr c3)
      then show thesis
        using assms(1,2) ne i \<open>core_load_elf _ _ = _\<close> by (intro ran [OF i]) (simp_all add: bench_main_def o'_def case_prod_beta Let_def)
    qed
  qed
qed

lemma core_init_new:
  assumes "core_init cfg = Inr c"
  shows "halt_of c = (Halt_None, 0, 0) \<and> co_stats c = stats_init \<and> co_tracer c = None \<and>
    (co_bpred c = None \<longleftrightarrow> \<not> bpred_enabled cfg)"
  using assms by (auto simp: core_init_def core_bpred_def res_bind_Inr_iff halt_of_def split: if_splits)

lemma core_load_elf_frame:
  assumes "core_load_elf f c = Inr c'"
  shows "halt_of c' = halt_of c \<and> co_stats c' = co_stats c \<and> co_tracer c' = co_tracer c \<and> co_bpred c' = co_bpred c"
  using assms by (auto simp: core_load_elf_def res_bind_Inr_iff halt_of_def split: if_splits)

lemma bench_attach_frame:
  "fresh (fst (bench_attach h o' c)) = fresh c \<and> core_arch (fst (bench_attach h o' c)) = core_arch c \<and>
   co_imem (fst (bench_attach h o' c)) = co_imem c \<and> halt_of (fst (bench_attach h o' c)) = halt_of c \<and>
   co_stats (fst (bench_attach h o' c)) = co_stats c \<and> co_bpred (fst (bench_attach h o' c)) = co_bpred c"
  by (simp add: bench_attach_def core_set_tracer_def core_arch_def halt_of_def split: option.split prod.split)

text \<open>With a predictor, the addresses the file's program executes must be word-aligned.\<close>

definition bench_aligned :: "bench_opts \<Rightarrow> u8 list \<Rightarrow> bool" where
  "bench_aligned o' bs \<longleftrightarrow>
     (bo_bpred o' \<longrightarrow>
       (\<forall>j. live (elf_code (bench_config o') bs) (elf_start (bench_config o') bs) j \<longrightarrow>
         take_bit 2 (a_pc (isa_run (elf_code (bench_config o') bs) (elf_start (bench_config o') bs) j)) = 0))"

text \<open>The core that is about to run.\<close>

lemma bench_core_ready:
  fixes h
  assumes "core_init (bench_config o') = Inr c0" and "core_load_elf (Some bs) c0 = Inr c1"
    and "\<forall>i < unat (e_phnum (ehdr_of bs)). elf_phdr_pos bs i + 32 \<le> length bs" and "bench_aligned o' bs"
  defines "c \<equiv> fst (bench_attach h o' c1)"
  shows "fresh c \<and> mem_bytes (co_imem c) = elf_code (bench_config o') bs \<and>
    core_arch c = elf_start (bench_config o') bs \<and> aligned_run c \<and> halt_of c = (Halt_None, 0, 0) \<and> co_stats c = stats_init"
proof -
  have "bpred_bht_entries (bench_config o') \<noteq> 0" by (simp add: bench_config_def default_config_def)
  then have s: "fresh c1" "mem_bytes (co_imem c1) = elf_code (bench_config o') bs"
    "core_arch c1 = elf_start (bench_config o') bs"
    using core_load_elf_state [OF assms(1) _ assms(2,3)] by simp_all
  have b: "bpred_enabled (bench_config o') = bo_bpred o'" by (simp add: bench_config_def)
  note f = bench_attach_frame [of h o' c1, folded c_def] and n = core_init_new [OF assms(1)]
    and l = core_load_elf_frame [OF assms(2)]
  from f s n l b assms(4) show ?thesis by (auto simp: aligned_run_def bench_aligned_def)
qed

text \<open>
  C6: what the exit status of \<open>bench_run\<close> means. Take a command line that names an ELF file whose
  program headers lie inside it, with any caches, prefetcher, predictor, latencies and cycle
  limit. If the process exits and the file was loaded (status other than 2), then for some
  number \<open>m\<close> of retired instructions the status and the \<open>halted:\<close> line are those of the
  reference machine after \<open>m\<close> instructions from the entry point: 0 when the last one is the
  first \<open>EBREAK\<close>, 3 when it is the first illegal instruction (which the report names), 1 when
  it has not halted. The report counts \<open>m\<close> instructions, the printed registers are the
  machine's, and a commit trace file holds the machine's trace.
\<close>

theorem bench_run_correct:
  fixes args h bs
  defines "o' \<equiv> bench_parse args" and "out \<equiv> bench_main h args"
  defines "im \<equiv> elf_code (bench_config o') bs" and "a \<equiv> elf_start (bench_config o') bs"
  assumes "bo_elf o' = Some path" and "h_file h path = Some bs"
    and "\<forall>i < unat (e_phnum (ehdr_of bs)). elf_phdr_pos bs i + 32 \<le> length bs" and "bench_aligned o' bs"
    and "out_status out = Exit n" and "n \<noteq> 2"
  shows "\<exists>m stats. out_stdout out = bench_settings path o' @ stats @ reg_dump (a_regs (isa_run im a m)) \<and>
    n = fst (ref_verdict im a m) \<and> snd (ref_verdict im a m) \<in> set stats \<and>
    (m = 0 \<or> live im a (m - 1)) \<and> ''insts:     '' @ num (of_nat m :: u64) \<in> set stats \<and>
    (\<forall>p. bench_trace_path o' = Some (p, Fmt_Commit) \<and> h_writable h p \<and> n \<noteq> 3 \<longrightarrow>
       out_trace out = Some (p, map (\<lambda>j. isa_line (isa_commit im (isa_run im a j))) [0 ..< m]))"
proof (cases rule: bench_main_cases [OF assms(5,9) [unfolded o'_def out_def]])
  case (1 c0 e)
  then show ?thesis using assms(9,10) by (simp add: bench_fail_def out_def)
next
  case (2 c0 c1 c3)
  note ran = 2 [folded o'_def out_def]
  let ?c = "fst (bench_attach h o' c1)"
  note R = bench_core_ready [OF ran(1) ran(2) [unfolded assms(6)] assms(7,8), of h, folded im_def a_def]
  obtain k log where t: "core_ticks k ?c = Inr (log, c3)" using core_run_ticks [OF ran(3)] by blast
  have v: "(bench_exit c3, bench_halted_line c3) = ref_verdict im a (length log)"
    "length log = 0 \<or> live im a (length log - 1)" "bench_exit c3 \<noteq> 3 \<Longrightarrow> \<forall>w \<in> set log. mwb_op w \<noteq> Op_ILLEGAL"
    using run_verdict [OF _ t] R by simp_all
  have regs: "core_regs (co_rf c3) = a_regs (isa_run im a (length log))" using fresh_ticks [OF _ t] R by simp
  have insts: "st_instructions (co_stats c3) = of_nat (length log)"
    using core_ticks_instructions [OF t] R by (simp add: stats_init_def)
  have out: "out_stdout out = bench_settings path o' @ bench_stats h o' c3 @ reg_dump (core_regs (co_rf c3))"
    "out_status out = Exit (bench_exit c3)"
    using ran(4) by (simp_all add: bench_finish_def core_read_regs_ok)
  have tr: "out_trace out = Some (p, map (\<lambda>j. isa_line (isa_commit im (isa_run im a j))) [0 ..< length log])"
    if p: "bench_trace_path o' = Some (p, Fmt_Commit)" "h_writable h p" "n \<noteq> 3" for p
  proof -
    have "co_tracer ?c = Some \<lparr>tr_out = [], tr_fmt = Fmt_Commit\<rparr>"
      using p by (simp add: bench_attach_def core_set_tracer_def)
    from core_ticks_trace [OF t this] have "co_tracer c3 = Some \<lparr>tr_out = map commit_line log, tr_fmt = Fmt_Commit\<rparr>"
      by simp
    moreover have "map commit_line log = map (\<lambda>j. isa_line (isa_commit im (isa_run im a j))) [0 ..< length log]"
      using fresh_lines [OF _ t] R v(3) out(2) assms(9) p(3) by simp
    ultimately show ?thesis using ran(4) p(1) by (simp add: bench_finish_def core_read_regs_ok)
  qed
  have "snd (ref_verdict im a (length log)) \<in> set (bench_stats h o' c3)"
    "''insts:     '' @ num (of_nat (length log) :: u64) \<in> set (bench_stats h o' c3)"
    by (simp_all add: v(1) [symmetric] bench_stats_def Let_def insts)
  with out v(1,2) assms(9) regs tr show ?thesis
    by (intro exI [of _ "length log"] exI [of _ "bench_stats h o' c3"]) (auto simp: prod_eq_iff)
qed


end
