(* ===== verification/Bench_Progress.thy ===== *)
theory Bench_Progress
  imports Bench_Correct
begin

text \<open>
  \<open>bench_run\<close> with a cycle limit that is large enough, computed from the configuration, reports
  how the program halts.
\<close>

section \<open>When the run is long enough\<close>

lemma bench_attach_timing:
  "core_timed (fst (bench_attach h o' c)) = core_timed c" "core_latency (fst (bench_attach h o' c)) = core_latency c"
  by (simp_all add: bench_attach_def core_set_tracer_def core_timed_def core_latency_def split: option.split prod.split)

text \<open>Loading stores bytes, which leaves the timing of the memories alone.\<close>

lemma core_load_elf_timing:
  "core_load_elf f c = Inr c' \<Longrightarrow> core_timed c' = core_timed c \<and> core_latency c' = core_latency c"
  using devices.frame_load_elf [of f c c'] by (simp add: mem_view_def core_timed_def core_latency_def)

text \<open>The latency of a core, from its configuration: the waiting bound of each port.\<close>

definition port_bound :: "bool \<Rightarrow> u32 \<Rightarrow> u32 \<Rightarrow> nat" where
  "port_bound cached hit lat =
     (let wait = (\<lambda>l. nat (sint (if l \<noteq> (0 :: u32) then l else 1)) - 1) in
      if cached then 2 + 2 * wait lat + wait hit else wait lat)"

definition config_latency :: "sim_config \<Rightarrow> nat" where
  "config_latency cfg =
     4 + port_bound (icache_enabled cfg) (icache_hit_latency_cycles cfg) (imem_latency_cycles cfg) +
     port_bound (dcache_enabled cfg) (dcache_hit_latency_cycles cfg) (dmem_latency_cycles cfg)"

lemma cache_init_hit_latency:
  "cache_init lb ss h ws pe pd so = Inr c \<Longrightarrow> c_hit_latency c = (if h \<noteq> 0 then h else 1)"
  by (auto simp: cache_init_def res_bind_Inr_iff)

lemma core_init_latency: "core_init cfg = Inr c \<Longrightarrow> core_latency c = config_latency cfg"
  by (auto simp: core_init_def core_imem_def core_dmem_def core_latency_def config_latency_def port_bound_def
      res_bind_Inr_iff Let_def flat_init_def hit_wait_def dest!: cache_init_hit_latency split: if_splits)

text \<open>The exit status of a run that is long enough.\<close>

lemma bench_halted_exit:
  fixes h :: host and bs :: "u8 list" and o' :: bench_opts
  defines "im \<equiv> elf_code (bench_config o') bs" and "a \<equiv> elf_start (bench_config o') bs"
  assumes "core_init (bench_config o') = Inr c0" and "core_load_elf (Some bs) c0 = Inr c1"
    and "\<forall>i < unat (e_phnum (ehdr_of bs)). elf_phdr_pos bs i + 32 \<le> length bs" and "bench_aligned o' bs"
    and "core_run m (fst (bench_attach h o' c1)) = Inr c3" and "co_halted c3"
    and "live im a n" and "isa_halting (in_op (isa_insn im (isa_run im a n)))"
  shows "bench_exit c3 = (if in_op (isa_insn im (isa_run im a n)) = Op_EBREAK then 0 else 3)"
proof -
  let ?c = "fst (bench_attach h o' c1)"
  note R = bench_core_ready [OF assms(3-6), of h, folded im_def a_def]
  have nl: "\<not> live im a (Suc n)" using assms(10) by (simp add: live_Suc)
  obtain k log where t: "core_ticks k ?c = Inr (log, c3)" using core_run_ticks [OF assms(7)] by blast
  have "length log = Suc n" using halted_length [OF _ _ t assms(8)] R assms(9) nl by simp
  moreover have "(bench_exit c3, bench_halted_line c3) = ref_verdict im a (length log)"
    using run_verdict(1) [OF _ t] R by simp
  ultimately have "bench_exit c3 = fst (ref_verdict im a (Suc n))" by (simp add: prod_eq_iff)
  then show ?thesis using nl by (simp add: ref_verdict_def Let_def)
qed

text \<open>The core that is about to run has the latencies of the configuration.\<close>

lemma bench_core_timed:
  assumes "core_init (bench_config o') = Inr c0" and "core_load_elf f c0 = Inr c1"
    and "0 \<le> sint (bo_mem_latency o')" and "0 \<le> sint (bo_imem_latency o')"
  shows "core_timed (fst (bench_attach h o' c1)) \<and>
    core_latency (fst (bench_attach h o' c1)) = config_latency (bench_config o')"
proof -
  have "latencies_ok (bench_config o')"
    using assms(3,4) by (simp add: latencies_ok_def bench_config_def default_config_def)
  then show ?thesis
    using core_init_timed [OF assms(1)] core_init_latency [OF assms(1)] core_load_elf_timing [OF assms(2)]
      bench_attach_timing by simp
qed

text \<open>
  \<open>bench_run\<close> does not give up too early. Let the reference machine halt at its instruction
  \<open>m\<close> (counted from 0), let the latencies be below \<open>2 ^ 31\<close>, and let the cycle limit be at
  least \<open>(config_latency + 1) * (m + 1)\<close>. If the process exits and the file was loaded, the status
  is 0 if that instruction is an \<open>EBREAK\<close> and 3 otherwise: never 1.
\<close>

theorem bench_run_finishes:
  fixes args h bs
  defines "o' \<equiv> bench_parse args"
  defines "im \<equiv> elf_code (bench_config o') bs" and "a \<equiv> elf_start (bench_config o') bs"
  assumes "bo_elf o' = Some path" and "h_file h path = Some bs"
    and "\<forall>i < unat (e_phnum (ehdr_of bs)). elf_phdr_pos bs i + 32 \<le> length bs" and "bench_aligned o' bs"
    and "out_status (bench_main h args) = Exit n" and "n \<noteq> 2"
    and "0 \<le> sint (bo_mem_latency o')" and "0 \<le> sint (bo_imem_latency o')"
    and "live im a m" and "isa_halting (in_op (isa_insn im (isa_run im a m)))"
    and "(config_latency (bench_config o') + 1) * (m + 1) \<le> unat (bo_max_cycles o')"
  shows "n = (if in_op (isa_insn im (isa_run im a m)) = Op_EBREAK then 0 else 3)"
proof (cases rule: bench_main_cases [OF assms(4,8) [unfolded o'_def]])
  case (1 c0 e)
  then show ?thesis using assms(8,9) by (simp add: bench_fail_def)
next
  case (2 c0 c1 c3)
  note ran = 2 [folded o'_def]
  let ?c = "fst (bench_attach h o' c1)"
  note R = bench_core_ready [OF ran(1) ran(2) [unfolded assms(5)] assms(6,7), of h, folded im_def a_def]
    and T = bench_core_timed [OF ran(1,2) assms(10,11), of h]
  have "\<not> live im a (Suc m)" using assms(13) by (simp add: live_Suc)
  then have h: "co_halted c3"
    using run_halts [OF _ _ _ _ _ _ ran(3), of m] R T assms(14) by (simp add: stats_init_def)
  have "n = bench_exit c3" using ran(4) assms(8) by (simp add: bench_finish_def core_read_regs_ok)
  with bench_halted_exit [OF ran(1) ran(2) [unfolded assms(5)] assms(6,7) ran(3) h, folded im_def a_def, OF assms(12,13)]
  show ?thesis by simp
qed

end
