(* ===== verification/Bench_Demo.thy ===== *)
theory Bench_Demo
  imports Bench_Progress
begin

text \<open>
  An invocation of \<open>bench_run\<close> on a concrete host and file, on which the statements about the
  driver are instantiated. The simplifier runs the whole program: command line, loader, core,
  report.
\<close>

section \<open>A concrete invocation\<close>

definition demo_host :: host where
  "demo_host = \<lparr>h_file = [''demo.elf'' \<mapsto> demo_elf], h_writable = (\<lambda>_. True), h_percent = (\<lambda>_ _. []),
     h_ratio = (\<lambda>_ _. []), h_wall = [], h_speed = (\<lambda>_. [])\<rparr>"

definition demo_args :: "string list" where
  "demo_args = [''--trace=log'', ''--mem-latency=1'', ''demo.elf'', ''20'']"

lemma demo_options:
  "bench_parse demo_args = bench_defaults\<lparr>bo_trace := Some ''log'', bo_mem_latency := 1, bo_elf := Some ''demo.elf'',
     bo_max_cycles := 20\<rparr>"
  by (simp add: bench_parse_def demo_args_def bench_arg_def arg_unsigned_def strtoul_def is_space_def is_digit_def
      digits_val_def bench_defaults_def Let_def)

lemma demo_headers:
  "bo_elf (bench_parse demo_args) = Some ''demo.elf''" "h_file demo_host ''demo.elf'' = Some demo_elf"
  "bench_aligned (bench_parse demo_args) demo_elf"
  by (simp_all add: demo_options demo_host_def bench_aligned_def bench_defaults_def)

text \<open>The core of this run: the RAM has its default size.\<close>

definition demo_big :: "u8 list \<Rightarrow> core" where
  "demo_big zs = demo_core\<lparr>co_imem := Flat (roomy zs demo_imem), co_dmem := Flat (roomy zs demo_imem)\<rparr>"

lemma demo_big_run: "\<exists>c. core_run 20 (demo_big zs) = Inr c \<and> bench_exit c = 0"
  supply [cong] = res_bind_weak_cong Let_weak_cong
  by (simp add: demo_big_def roomy_def demo_init tick_eval core_run.simps bench_exit_def)

lemma demo_ram: "flat_init 0x80000000 0x10000 1 = roomy (replicate 0xffe0 0) demo_dmem"
  by (simp add: roomy_def demo_dmem_def flat_init_def flip: replicate_add)

lemma demo_bench_core:
  "core_init (bench_config (bench_parse demo_args)) =
     Inr (demo_core\<lparr>co_imem := Flat (flat_init 0x80000000 0x10000 1), co_dmem := Flat (flat_init 0x80000000 0x10000 1),
       co_tracer := None\<rparr>)"
  by (simp add: core_init_def core_imem_def core_dmem_def core_bpred_def bench_config_def default_config_def
      demo_options bench_defaults_def demo_core_def)

lemma demo_bench_load:
  "core_load_elf (h_file demo_host ''demo.elf'') (demo_core\<lparr>co_imem := Flat (flat_init 0x80000000 0x10000 1),
     co_dmem := Flat (flat_init 0x80000000 0x10000 1), co_tracer := None\<rparr>) =
     Inr ((demo_big (replicate 0xffe0 0))\<lparr>co_tracer := None\<rparr>)"
  using demo_elf_load_roomy [of "replicate 0xffe0 0"]
  by (simp add: core_load_elf_def demo_headers(2) demo_ram demo_big_def) (simp add: demo_core_def)

lemma demo_bench_attach:
  "bench_attach demo_host (bench_parse demo_args) ((demo_big zs)\<lparr>co_tracer := None\<rparr>) = (demo_big zs, [])"
  by (simp add: bench_attach_def bench_trace_path_def demo_options demo_host_def core_set_tracer_def demo_big_def
      bench_defaults_def) (simp add: demo_core_def demo_tracer_def)

lemma demo_bench_exit: "out_status (bench_main demo_host demo_args) = Exit 0"
proof -
  obtain c where "core_run 20 (demo_big (replicate 0xffe0 0)) = Inr c" "bench_exit c = 0"
    using demo_big_run [of "replicate 0xffe0 0"] by (elim exE conjE)
  moreover have "bo_max_cycles (bench_parse demo_args) = 20" by (simp add: demo_options)
  moreover have "demo_args \<noteq> []" by (simp add: demo_args_def)
  ultimately show ?thesis
    using demo_headers(1) demo_bench_core demo_bench_load demo_bench_attach [of "replicate 0xffe0 0"]
    by (simp only: bench_main_def Let_def if_False option.case sum.case case_prod_conv bench_finish_def core_read_regs_ok)
      simp
qed

theorem bench_run_correct_witness:
  "\<exists>m. 0 = fst (ref_verdict (elf_code (bench_config (bench_parse demo_args)) demo_elf)
      (elf_start (bench_config (bench_parse demo_args)) demo_elf) m) \<and>
    out_trace (bench_main demo_host demo_args) = Some (''log'', map (\<lambda>j.
      isa_line (isa_commit (elf_code (bench_config (bench_parse demo_args)) demo_elf)
        (isa_run (elf_code (bench_config (bench_parse demo_args)) demo_elf)
          (elf_start (bench_config (bench_parse demo_args)) demo_elf) j))) [0 ..< m])"
proof -
  have t: "bench_trace_path (bench_parse demo_args) = Some (''log'', Fmt_Commit)" "h_writable demo_host ''log''"
    by (simp_all add: bench_trace_path_def demo_options bench_defaults_def demo_host_def)
  from bench_run_correct [OF demo_headers(1,2) demo_elf_inside demo_headers(3) demo_bench_exit] t
  show ?thesis by fastforce
qed

lemma demo_big_ticks: "\<exists>log c. core_ticks 7 (demo_big zs) = Inr (log, c) \<and> co_halted c \<and> length log = 3"
  supply [cong] = res_bind_weak_cong Let_weak_cong
  by (simp add: demo_big_def roomy_def demo_init tick_eval core_ticks_numeral)

text \<open>On the same file the reference machine halts at its third instruction.\<close>

lemma demo_reference_halts:
  defines "o' \<equiv> bench_parse demo_args"
  defines "im \<equiv> elf_code (bench_config o') demo_elf" and "a \<equiv> elf_start (bench_config o') demo_elf"
  shows "live im a 2 \<and> isa_halting (in_op (isa_insn im (isa_run im a 2)))"
proof -
  let ?c = "demo_big (replicate 0xffe0 0)"
  note R = bench_core_ready [OF demo_bench_core demo_bench_load [unfolded demo_headers(2)] demo_elf_inside demo_headers(3),
      of demo_host, unfolded demo_bench_attach, simplified, folded im_def [unfolded o'_def] a_def [unfolded o'_def]]
  obtain log c where t: "core_ticks 7 ?c = Inr (log, c)" "co_halted c" "length log = 3"
    using demo_big_ticks [of "replicate 0xffe0 0"] by (elim exE conjE)
  have "live im a 2" "\<not> live im a (Suc 2)" using fresh_ticks [OF _ t(1)] R t(2,3) by simp_all
  then show ?thesis using live_Suc [of im a 2] by blast
qed

theorem bench_run_finishes_witness:
  "in_op (isa_insn (elf_code (bench_config (bench_parse demo_args)) demo_elf)
     (isa_run (elf_code (bench_config (bench_parse demo_args)) demo_elf)
       (elf_start (bench_config (bench_parse demo_args)) demo_elf) 2)) = Op_EBREAK"
proof -
  have l: "0 \<le> sint (bo_mem_latency (bench_parse demo_args))" "0 \<le> sint (bo_imem_latency (bench_parse demo_args))"
    "(config_latency (bench_config (bench_parse demo_args)) + 1) * (2 + 1) \<le> unat (bo_max_cycles (bench_parse demo_args))"
    by (simp_all add: demo_options bench_defaults_def config_latency_def bench_config_def default_config_def port_bound_def)
  from bench_run_finishes [OF demo_headers(1,2) demo_elf_inside demo_headers(3) demo_bench_exit _ l(1,2)
      conjunct1 [OF demo_reference_halts] conjunct2 [OF demo_reference_halts] l(3)]
  show ?thesis by (simp split: if_splits)
qed


end
