(* ===== verification/Bench_Total.thy ===== *)
theory Bench_Total
  imports Core_Total Bench_Demo
begin

text \<open>
  Total correctness of \<open>bench_run\<close>: what its caller can rely on before it runs. Also the
  concrete runs on which the statements of \<open>Core_Total\<close> are instantiated, and a program that
  shows that the look-ahead behind an \<open>EBREAK\<close> is needed.
\<close>

section \<open>The exit status, from the file and the options alone\<close>

definition bench_safe :: "bench_opts \<Rightarrow> u8 list \<Rightarrow> bool" where
  "bench_safe o' bs \<longleftrightarrow>
     program_safe (\<not> bo_bpred o') (elf_code (bench_config o') bs) (elf_start (bench_config o') bs)"

lemma bench_safe_aligned: "bench_safe o' bs \<Longrightarrow> bench_aligned o' bs"
  using safe_aligned by (fastforce simp: bench_safe_def bench_aligned_def ok_pc_def)

lemma load_attach_rd_ok:
  "core_load_elf f c = Inr c' \<Longrightarrow> rd_ok c' = rd_ok c" "rd_ok (fst (bench_attach h o' c)) = rd_ok c"
  by (auto simp: core_load_elf_def res_bind_Inr_iff rd_ok_def bench_attach_def core_set_tracer_def
      split: if_splits option.splits prod.splits)

text \<open>
  C7: \<open>bench_run\<close> reports how the program halts. Take a command line that names a file which
  the loader accepts, for a configuration which the constructor accepts, with latencies below
  \<open>2 ^ 31\<close>. Let the file's program be safe and halt at its instruction \<open>m\<close>, and let the cycle limit be
  at least \<open>(config_latency + 1) * (m + 1)\<close>. Then the process exits (it is not aborted), with
  status 0 if that instruction is an \<open>EBREAK\<close> and 3 otherwise.
\<close>

theorem bench_total:
  fixes args h bs
  defines "o' \<equiv> bench_parse args"
  defines "im \<equiv> elf_code (bench_config o') bs" and "a \<equiv> elf_start (bench_config o') bs"
  assumes "bo_elf o' = Some path" and "h_file h path = Some bs"
    and "\<forall>i < unat (e_phnum (ehdr_of bs)). elf_phdr_pos bs i + 32 \<le> length bs" and "bench_safe o' bs"
    and "core_init (bench_config o') = Inr c0" and "core_load_elf (Some bs) c0 = Inr c1"
    and "0 \<le> sint (bo_mem_latency o')" and "0 \<le> sint (bo_imem_latency o')"
    and "live im a m" and "isa_halting (in_op (isa_insn im (isa_run im a m)))"
    and "(config_latency (bench_config o') + 1) * (m + 1) \<le> unat (bo_max_cycles o')"
  shows "out_status (bench_main h args) = Exit (if in_op (isa_insn im (isa_run im a m)) = Op_EBREAK then 0 else 3)"
proof -
  let ?c = "fst (bench_attach h o' c1)"
  note al = bench_safe_aligned [OF assms(7)]
  note R = bench_core_ready [OF assms(8,9,6) al, of h, folded im_def a_def]
    and T = bench_core_timed [OF assms(8,9,10,11), of h]
  have "(co_bpred ?c = None) = (\<not> bo_bpred o')"
    using bench_attach_frame [of h o' c1] core_load_elf_frame [OF assms(9)] core_init_new [OF assms(8)]
    by (simp add: bench_config_def)
  then have safe: "safe_core ?c" using assms(7) R by (simp add: safe_core_def bench_safe_def im_def a_def)
  have rd: "rd_ok ?c" by (simp add: load_attach_rd_ok(1) [OF assms(9)] load_attach_rd_ok(2)
        core_init_rd_ok [OF assms(8)])
  have "\<not> live im a (Suc m)" using assms(13) by (simp add: live_Suc)
  then obtain c3 where r: "core_run (bo_max_cycles o') ?c = Inr c3" "co_halted c3"
    using safe_run [of ?c m "bo_max_cycles o'"] rd safe R T assms(14) by (auto simp: stats_init_def)
  have "args \<noteq> []" using assms(4) by (auto simp: o'_def bench_parse_def bench_defaults_def)
  then have "bench_main h args = bench_finish h o' path (snd (bench_attach h o' c1)) c3"
    using assms(4,5,8,9) r(1) by (simp add: bench_main_def o'_def case_prod_beta Let_def)
  then have "out_status (bench_main h args) = Exit (bench_exit c3)"
    by (simp add: bench_finish_def core_read_regs_ok)
  with bench_halted_exit [OF assms(8,9,6) al r, folded im_def a_def, OF assms(12,13)] show ?thesis by simp
qed

section \<open>A safe program\<close>

text \<open>The words of the demo program, in a RAM that continues with any bytes.\<close>

lemma demo_words:
  fixes zs :: "u8 list"
  defines "im \<equiv> mem_bytes (Flat (roomy zs demo_imem))"
  shows "load_le im 0x80000000 4 = Some 0x00500093" "load_le im 0x80000004 4 = Some 0x00108113"
    "load_le im 0x80000008 4 = Some 0x00100073" "load_le im 0x8000000C 4 = Some 0"
    "load_le im 0x80000010 4 = Some 0" "load_le im 0x80000014 4 = Some 0" "load_le im 0x80000018 4 = Some 0"
  unfolding im_def mem_load_bytes(1) [symmetric]
  by (simp_all add: roomy_def demo_imem_def demo_dmem_def memory_eval)

lemmas fetchable_numeral =
  fetchable.simps(2) [where k = "pred_numeral n" for n, folded numeral_eq_Suc]

lemma demo_program_safe:
  fixes zs :: "u8 list"
  assumes "a_pc a = 0x80000000"
  defines "im \<equiv> mem_bytes (Flat (roomy zs demo_imem))"
  shows "program_safe True im a"
proof -
  note words = demo_words [of zs, folded im_def]
  have i0: "isa_insn im (isa_run im a 0) = decode 0x00500093 0x80000000"
    by (simp add: isa_insn_def isa_fetch_def assms(1) words)
  have p0: "a_pc (isa_run im a 0) = 0x80000000" by (simp add: assms(1))
  have p1: "a_pc (isa_run im a (Suc 0)) = 0x80000004"
    using i0 by (simp add: isa_step_def decode_demo assms(1) Let_def)
  then have i1: "isa_insn im (isa_run im a (Suc 0)) = decode 0x00108113 0x80000004"
    by (simp add: isa_insn_def isa_fetch_def words)
  have p2: "a_pc (isa_run im a (Suc (Suc 0))) = 0x80000008"
    using i1 p1 by (simp add: isa_step_def [of im "isa_step im a"] decode_demo Let_def)
  then have i2: "isa_insn im (isa_run im a (Suc (Suc 0))) = decode 0x00100073 0x80000008"
    by (simp add: isa_insn_def isa_fetch_def words)
  have "\<not> live im a (Suc (Suc (Suc 0)))" unfolding live_Suc i2 by (simp add: decode_demo isa_halting_def)
  then have j: "j = 0 \<or> j = Suc 0 \<or> j = Suc (Suc 0)" if "live im a j" for j
    using live_mono [OF that, of "Suc (Suc (Suc 0))"] by arith
  show ?thesis
    unfolding program_safe_def Let_def
    using i0 i1 i2 p0 p1 p2
    by (auto dest!: j simp: fetchable_numeral fetchable.simps(2) ok_pc_def words decode_demo isa_halting_def
        access_ok_def plain_op_def isa_fetch_def isa_is_load_def is_store_def is_mem_op_def det_target_def
        is_cond_branch_def simp del: isa_run_simps)
qed

lemma demo_core_safe: "safe_core demo_core"
  using demo_program_safe [of "core_arch demo_core" "[]"]
  by (simp add: safe_core_def roomy_def) (simp add: demo_core_def core_arch_def fetch_init_def)

theorem safe_program_never_aborts_witness:
  "\<exists>log c. core_ticks 100 demo_core = Inr (log, c)"
  by (rule safe_program_never_aborts [OF demo_fresh conjunct2 [OF demo_quiet] demo_core_safe])

lemma demo_halts:
  "live (mem_bytes (co_imem demo_core)) (core_arch demo_core) 2"
  "isa_halting (in_op (isa_insn (mem_bytes (co_imem demo_core))
     (isa_run (mem_bytes (co_imem demo_core)) (core_arch demo_core) 2)))"
proof -
  obtain log c where r: "core_ticks 7 demo_core = Inr (log, c)" "co_halted c"
      "map mwb_op log = [Op_ADDI, Op_ADDI, Op_EBREAK]"
    using demo_run by (elim exE conjE)
  from arg_cong [OF r(3), of length] have "length log = Suc 2" by simp
  with fresh_ticks [OF demo_fresh r(1) demo_aligned] r(2)
  have "live (mem_bytes (co_imem demo_core)) (core_arch demo_core) 2"
    "\<not> live (mem_bytes (co_imem demo_core)) (core_arch demo_core) (Suc 2)" by simp_all
  then show "live (mem_bytes (co_imem demo_core)) (core_arch demo_core) 2"
    "isa_halting (in_op (isa_insn (mem_bytes (co_imem demo_core))
       (isa_run (mem_bytes (co_imem demo_core)) (core_arch demo_core) 2)))"
    using live_Suc [of _ _ 2] by blast+
qed

theorem run_total_witness:
  "\<exists>c. core_run 20 demo_core = Inr c \<and> co_halted c \<and> st_instructions (co_stats c) = 3 \<and>
     unat (st_cycles (co_stats c)) \<le> 15"
proof -
  have "co_stats demo_core = stats_init" by (simp add: demo_core_def)
  from run_total [OF demo_fresh conjunct2 [OF demo_quiet] demo_core_safe demo_timed(1) this demo_halts, of 20]
  show ?thesis by (auto simp: demo_timed(2))
qed

theorem bench_total_witness:
  "out_status (bench_main demo_host demo_args) = Exit 0"
proof -
  let ?o = "bench_parse demo_args" and ?c = "demo_big (replicate 0xffe0 0)"
  have l: "0 \<le> sint (bo_mem_latency ?o)" "0 \<le> sint (bo_imem_latency ?o)"
    "(config_latency (bench_config ?o) + 1) * (2 + 1) \<le> unat (bo_max_cycles ?o)"
    by (simp_all add: demo_options bench_defaults_def config_latency_def bench_config_def default_config_def port_bound_def)
  note R = bench_core_ready [OF demo_bench_core demo_bench_load [unfolded demo_headers(2)] demo_elf_inside demo_headers(3),
      of demo_host, unfolded demo_bench_attach, simplified]
  have "mem_bytes (co_imem ?c) = elf_code (bench_config ?o) demo_elf" "core_arch ?c = elf_start (bench_config ?o) demo_elf"
    using R by blast+
  moreover have "co_imem ?c = Flat (roomy (replicate 0xffe0 0) demo_imem)" by (simp add: demo_big_def)
  moreover have "a_pc (core_arch ?c) = 0x80000000"
    by (simp add: demo_big_def demo_core_def core_arch_def fetch_init_def)
  moreover have "\<not> bo_bpred ?o" by (simp add: demo_options bench_defaults_def)
  ultimately have "bench_safe ?o demo_elf"
    using demo_program_safe [of "core_arch ?c" "replicate 0xffe0 0"] unfolding bench_safe_def by metis
  from bench_total [OF demo_headers(1,2) demo_elf_inside this demo_bench_core demo_bench_load [unfolded demo_headers(2)]
      l(1,2) conjunct1 [OF demo_reference_halts] conjunct2 [OF demo_reference_halts] l(3)]
  show ?thesis using bench_run_finishes_witness by simp
qed

section \<open>The look-ahead behind an EBREAK is needed\<close>








end
