(* ===== verification/Ideal_Timing.thy ===== *)
theory Ideal_Timing
  imports Bench_Total
begin

unbundle bit_operations_syntax

text \<open>
  Exact cycle counts. When both memories are \<open>FlatMem\<close>s of latency 1 and there is no branch
  predictor, nothing but the pipeline itself costs cycles, and what it costs is documented
  (\<open>docs/hazard-forwarding.md\<close>): two cycles for a taken branch or jump, one for a load whose
  result the next instruction names. This theory defines these costs on the reference machine
  and proves that they are the only ones: the cycle in which each instruction retires is a sum
  of the costs of the instructions before it.
\<close>

section \<open>The cost of an instruction\<close>

fun isa_taken :: "op \<Rightarrow> u32 \<Rightarrow> u32 \<Rightarrow> bool" where
  "isa_taken Op_JAL v1 v2 = True"
| "isa_taken Op_JALR v1 v2 = True"
| "isa_taken Op_BEQ v1 v2 = (v1 = v2)"
| "isa_taken Op_BNE v1 v2 = (v1 \<noteq> v2)"
| "isa_taken Op_BLT v1 v2 = (sint v1 < sint v2)"
| "isa_taken Op_BGE v1 v2 = (sint v1 \<ge> sint v2)"
| "isa_taken Op_BLTU v1 v2 = (uint v1 < uint v2)"
| "isa_taken Op_BGEU v1 v2 = (uint v1 \<ge> uint v2)"
| "isa_taken _ v1 v2 = False"

lemma ex_taken_isa: "ex_actual_taken i v1 v2 = isa_taken (idex_op i) v1 v2"
  by (cases "idex_op i") (simp_all add: ex_actual_taken_def word_less_def word_le_def)

text \<open>
  The interlock compares the two register fields of the word that follows a load, whatever
  its format: a field that is part of an immediate counts too.
\<close>

definition names_reg :: "u32 \<Rightarrow> u8 \<Rightarrow> bool" where
  "names_reg w r \<longleftrightarrow> r = ucast (enc_rs1 w) \<or> r = ucast (enc_rs2 w)"

definition insn_taken :: "byte_map \<Rightarrow> arch \<Rightarrow> bool" where
  "insn_taken im s = isa_taken (in_op (isa_insn im s)) (isa_v1 im s) (isa_v2 im s)"

definition load_use :: "byte_map \<Rightarrow> arch \<Rightarrow> bool" where
  "load_use im s \<longleftrightarrow>
     (let i = isa_insn im s in
      isa_is_load (in_op i) \<and> in_rd i \<noteq> 0 \<and> names_reg (isa_fetch im (a_pc (isa_step im s))) (in_rd i))"

definition penalty :: "byte_map \<Rightarrow> arch \<Rightarrow> nat" where
  "penalty im s = (if insn_taken im s then 2 else if load_use im s then 1 else 0)"

text \<open>The cycle, counted from 0, in which instruction \<open>n\<close> of a run retires.\<close>

primrec retire_cycle :: "byte_map \<Rightarrow> arch \<Rightarrow> nat \<Rightarrow> nat" where
  "retire_cycle im a 0 = 4"
| "retire_cycle im a (Suc n) = retire_cycle im a n + 1 + penalty im (isa_run im a n)"

lemma retire_cycle_sum: "retire_cycle im a n = n + 4 + (\<Sum>i<n. penalty im (isa_run im a i))"
  by (induction n) simp_all

lemma retire_cycle_mono: "m \<le> n \<Longrightarrow> retire_cycle im a m \<le> retire_cycle im a n"
  by (rule lift_Suc_mono_le) simp_all

lemma taken_not_load: "insn_taken im s \<Longrightarrow> \<not> isa_is_load (in_op (isa_insn im s))"
  by (cases "in_op (isa_insn im s)") (simp_all add: insn_taken_def isa_is_load_def)

section \<open>Steps in which the memories answer at once\<close>

text \<open>
  What such a step does to the occupancy of the latches: everything moves, and where neither a
  redirect nor the interlock interferes the fetch delivers.
\<close>

definition brisk :: "pview \<Rightarrow> pview \<Rightarrow> bool" where
  "brisk v v' \<longleftrightarrow>
     mwb_valid (v_w v') = exm_valid (v_x v) \<and> exm_valid (v_x v') = idex_valid (v_d v) \<and>
     idex_valid (v_d v') = (ifid_valid (v_f v) \<and> \<not> v_redirect v \<and> \<not> v_hazard v) \<and>
     ifid_valid (v_f v') = (\<not> v_redirect v \<and> (v_hazard v \<longrightarrow> ifid_valid (v_f v)))"

text \<open>
  The spacing behind an instruction that follows from its cost, in WB and in MEM. Behind an
  instruction that halts there is nothing to say.
\<close>

definition spaced :: "byte_map \<Rightarrow> arch \<Rightarrow> nat \<Rightarrow> pview \<Rightarrow> bool" where
  "spaced im a n v \<longleftrightarrow>
     (idex_valid (v_d v) \<longrightarrow> ifid_valid (v_f v)) \<and>
     (exm_valid (v_x v) \<and> live im a (Suc (next_w v n)) \<longrightarrow>
        (let p = penalty im (isa_run im a (next_w v n)) in
         idex_valid (v_d v) = (p = 0) \<and> ifid_valid (v_f v) = (p \<le> 1))) \<and>
     (mwb_valid (v_w v) \<and> live im a (Suc n) \<longrightarrow>
        (let p = penalty im (isa_run im a n) in
         exm_valid (v_x v) = (p = 0) \<and> (p \<noteq> 0 \<longrightarrow> idex_valid (v_d v) = (p = 1) \<and> ifid_valid (v_f v))))"

definition dist :: "pview \<Rightarrow> nat" where
  "dist v = (if mwb_valid (v_w v) then 0 else if exm_valid (v_x v) then 1 else if idex_valid (v_d v) then 2
     else if ifid_valid (v_f v) then 3 else 4)"

text \<open>With no predictor, the instruction in EX redirects iff it is taken ...\<close>

lemma redirect_taken:
  assumes "pipe_inv im a True n v" and "live im a (next_x v n)" and "idex_valid (v_d v)"
  shows "v_redirect v = insn_taken im (isa_run im a (next_x v n))"
proof -
  have f: "front_ok im True v (isa_run im a (next_x v n))" by (rule pipe_invD(7) [OF assms(1,2)])
  then have "\<not> idex_predicted_taken (v_d v)"
    using assms(3) by (simp add: front_ok_def link_def ok_pc_def)
  with f show ?thesis
    using assms(3) by (simp add: v_redirect_def ex_taken_isa insn_taken_def front_ok_def d_ok_def Let_def)
qed

text \<open>... and the interlock fires iff it is a load that the instruction behind it names.\<close>

lemma hazard_load_use:
  assumes inv: "pipe_inv im a nb n v" and lv: "live im a (next_x v n)" and dv: "idex_valid (v_d v)"
    and fv: "ifid_valid (v_f v)" and nr: "\<not> v_redirect v" and al: "ok_pc nb (a_pc (isa_run im a (next_x v n)))"
  shows "v_hazard v = load_use im (isa_run im a (next_x v n))"
proof -
  let ?s = "isa_run im a (next_x v n)"
  have f: "front_ok im nb v ?s" by (rule pipe_invD(7) [OF inv lv])
  have "a_pc (isa_step im ?s) = ifid_pc (v_f v)"
    using next_in_front [OF f al refl] dv fv nr by (simp add: front_pc_def)
  then have "ifid_raw (v_f v) = isa_fetch im (a_pc (isa_step im ?s))"
    using f fv by (simp add: front_ok_def f_ok_def)
  then show ?thesis
    using f dv by (auto simp: v_hazard_def hazard_evaluate_def load_use_def names_reg_def enc_rs1_def enc_rs2_def
        front_ok_def d_ok_def Let_def is_load_def isa_is_load_def)
qed

text \<open>A step takes the instruction in EX to MEM with the spacing of its cost.\<close>

lemma brisk_spaced:
  assumes b: "brisk v v'" and inv: "pipe_inv im a True n v" and sp: "spaced im a n v"
    and nh: "\<not> (mwb_valid (v_w v) \<and> isa_halting (mwb_op (v_w v)))"
  shows "spaced im a (next_w v n) v'"
proof -
  have nw: "next_w v' (next_w v n) = next_x v n" using b by (simp add: next_w_def [of v'] next_x_def brisk_def)
  have df: "idex_valid (v_d v) \<Longrightarrow> ifid_valid (v_f v)" using sp by (simp add: spaced_def)
  have d: "idex_valid (v_d v') \<Longrightarrow> ifid_valid (v_f v')" using b df by (auto simp: brisk_def)
  have x: "idex_valid (v_d v') = (penalty im (isa_run im a (next_x v n)) = 0) \<and>
      ifid_valid (v_f v') = (penalty im (isa_run im a (next_x v n)) \<le> 1)"
    if "exm_valid (v_x v')" "live im a (Suc (next_x v n))"
  proof -
    have dv: "idex_valid (v_d v)" using that(1) b by (simp add: brisk_def)
    have lv: "live im a (next_x v n)" using that(2) by (rule live_mono) simp
    show ?thesis
      using redirect_taken [OF inv lv dv] hazard_load_use [OF inv lv dv df [OF dv]] b df [OF dv]
      by (auto simp: brisk_def penalty_def ok_pc_def)
  qed
  have w: "exm_valid (v_x v') = (p = 0) \<and> (p \<noteq> 0 \<longrightarrow> idex_valid (v_d v') = (p = 1) \<and> ifid_valid (v_f v'))"
    if "mwb_valid (v_w v')" "live im a (Suc (next_w v n))" and p: "p = penalty im (isa_run im a (next_w v n))" for p
  proof -
    have "idex_valid (v_d v) = (p = 0)" "ifid_valid (v_f v) = (p \<le> 1)"
      using that sp b by (simp_all add: spaced_def brisk_def Let_def)
    then show ?thesis using b bubble_in_EX [of v] by (auto simp: brisk_def)
  qed
  show ?thesis unfolding spaced_def nw using d x w by (simp add: Let_def)
qed

text \<open>A step brings the next instruction closer, or retires one and leaves the next at its cost.\<close>

lemma brisk_dist:
  assumes b: "brisk v v'"
  shows "\<not> mwb_valid (v_w v) \<Longrightarrow> dist v = Suc (dist v')"
    and "mwb_valid (v_w v) \<Longrightarrow> spaced im a n v \<Longrightarrow> live im a (Suc n) \<Longrightarrow> dist v' = penalty im (isa_run im a n)"
proof -
  show "dist v = Suc (dist v')" if "\<not> mwb_valid (v_w v)"
    using that b bubble_in_EX [of v] by (auto simp: dist_def brisk_def)
  show "dist v' = penalty im (isa_run im a n)" if "mwb_valid (v_w v)" "spaced im a n v" "live im a (Suc n)"
  proof -
    have "penalty im (isa_run im a n) \<le> 2" by (simp add: penalty_def)
    with that b bubble_in_EX [of v] show ?thesis
      by (auto simp: dist_def brisk_def spaced_def Let_def)
  qed
qed

section \<open>Memories that answer at once\<close>

text \<open>A \<open>FlatMem\<close> of latency 1, between accesses or in one whose wait is over.\<close>

primrec prompt_mem :: "memsys \<Rightarrow> bool" where
  "prompt_mem (Flat f) = (fm_latency f = 1 \<and> (fm_serving f \<longrightarrow> fm_remaining f = 0))"
| "prompt_mem (Cached c b) = False"

interpretation prompt: store_frame prompt_mem
  by (rule store_frame_stack) simp_all

lemma prompt_ready:
  assumes "prompt_mem (fst b)"
  shows "fst (mem_ready a w b)" and "prompt_mem (fst (snd (mem_ready a w b)))"
  using assms by (cases b rule: mem_tick.cases; simp add: flat_ready_def Let_def)+

lemma prompt_tick: "prompt_mem (fst b) \<Longrightarrow> prompt_mem (fst (mem_tick b))"
  by (cases b rule: mem_tick.cases) (auto simp: flat_tick_def)

lemma mem_evaluate_prompt:
  assumes "mem_evaluate x ms dm out = Inr (ms', dm', out')" and "prompt_mem (fst dm)"
  shows "prompt_mem (fst dm')"
  using assms prompt_ready(2) [of dm]
  by (auto simp: mem_evaluate_def Let_def case_prod_beta res_bind_Inr_iff split: if_splits dest!: prompt.frame_access)

definition prompt_core :: "core \<Rightarrow> bool" where
  "prompt_core c \<longleftrightarrow> prompt_mem (co_imem c) \<and> prompt_mem (co_dmem c)"

definition ideal :: "core \<Rightarrow> bool" where
  "ideal c \<longleftrightarrow> prompt_core c \<and> co_bpred c = None"

lemma core_evaluate_prompt:
  assumes "core_evaluate c = Inr c1" and "prompt_core c"
  shows "prompt_mem (co_imem c1) \<and> prompt_mem (co_dmem c1) \<and> \<not> ms_stalling (co_mem c1) \<and>
    ifid_valid (la_shadow (co_if_id c1))"
proof -
  have "prompt_mem (co_dmem c1)"
    using assms by (auto simp: prompt_core_def core_evaluate_def Let_def case_prod_beta res_bind_Inr_iff
        dest!: mem_evaluate_prompt)
  then show ?thesis
    using core_evaluate_memories [OF assms(1)] assms(2) prompt_ready [of "(co_imem c, co_stats c)"]
      prompt_ready(1) [of "(co_dmem c, st)" for st]
    by (auto simp: prompt_core_def Let_def split: if_splits)
qed

lemma core_tick_prompt:
  assumes t: "core_tick c = Inr (b, c')" and h: "\<not> co_halted c" and q: "quiet c" and i: "prompt_core c"
  shows "prompt_core c' \<and> brisk (core_view c) (core_view c') \<and> (co_bpred c = None \<longrightarrow> co_bpred c' = None)"
proof -
  obtain c1 where e: "core_evaluate c = Inr c1"
    and l: "if ms_stalling (co_mem c1) then core_latch_stalled (core_observe c1) = Inr c'
         else core_latch_all (core_observe c1) = Inr c'" by (rule core_tick_split [OF t h])
  note ie = core_evaluate_prompt [OF e i]
  have la: "core_latch_all (core_observe c1) = Inr c'" using l ie by simp
  from core_tick_advance [OF e q _ la] ie
  obtain w' dm' f' pc' where s: "v_access (v_x (core_view c)) (v_dm (core_view c)) = Some (w', dm')"
    "v_front (mem_bytes (co_imem c)) (core_view c) f' pc'"
    "\<not> v_redirect (core_view c) \<Longrightarrow> \<not> v_hazard (core_view c) \<Longrightarrow> f' = la_shadow (co_if_id c1)"
    and v': "core_view c' = v_advance (core_view c) w' f' pc' dm'"
    by metis
  have "brisk (core_view c) (core_view c')"
    using s ie v_access_valid [OF s(1)]
    by (auto simp: brisk_def v' v_advance_def v_exec_valid v_decode_valid v_front_def split: if_splits)
  moreover have "co_bpred c = None \<longrightarrow> co_bpred c' = None"
    using arg_cong [OF v', of v_bp] by (simp add: core_view_def v_advance_def v_trained_def)
  moreover have "prompt_mem (co_imem c')" "prompt_mem (co_dmem c')"
    using core_latch_all_memories [OF la] ie prompt_tick by (auto simp: core_observe_frame)
  ultimately show ?thesis by (simp add: prompt_core_def)
qed

section \<open>Every instruction retires in its cycle\<close>

text \<open>\<open>t\<close> cycles have passed and \<open>n\<close> instructions have retired.\<close>

lemma core_ticks_timetable:
  assumes "core_ticks k c = Inr (log, c')" and "quiet c" and "\<not> co_halted c" and "ideal c"
    and "mem_bytes (co_imem c) = im" and "pipe_inv im a True n (core_view c)" and "spaced im a n (core_view c)"
    and "t + dist (core_view c) = retire_cycle im a n" and "n \<le> m" and x0: "a_regs a 0 = 0"
  shows "m < n + length log \<longleftrightarrow> live im a m \<and> retire_cycle im a m < t + k"
  using assms(1-9)
proof (induction k arbitrary: c n log t)
  case 0
  then show ?case using retire_cycle_mono [of n m im a] by auto
next
  case (Suc k)
  let ?v = "core_view c" and ?w = "latch_read (co_mem_wb c)"
  obtain b c1 log1 where t: "core_tick c = Inr (b, c1)" and r: "core_ticks k c1 = Inr (log1, c')"
    and log: "log = (if mwb_valid ?w then [?w] else []) @ log1"
    using Suc.prems(1,3) by (auto simp: res_bind_Inr_iff Let_def)
  have vw: "v_w ?v = ?w" by (simp add: core_view_def)
  note s = core_tick_step [OF t Suc.prems(3,2), unfolded Suc.prems(5)]
  have b: "ideal c1" "brisk ?v (core_view c1)" using core_tick_prompt [OF t Suc.prems(3,2)] Suc.prems(4) by (simp_all add: ideal_def)
  have lv: "live im a n" by (rule pipe_invD(1) [OF Suc.prems(6)])
  have halt: "co_halted c1 \<longleftrightarrow> mwb_valid ?w \<and> \<not> live im a (Suc n)"
    using s vw lv pipe_invD(4) [OF Suc.prems(6)] by (auto simp: live_Suc w_ok_def Let_def)
  have IH: "m < next_w ?v n + length log1 \<longleftrightarrow> live im a m \<and> retire_cycle im a m < t + Suc k"
    if nh: "\<not> co_halted c1" and m: "next_w ?v n \<le> m"
  proof -
    have nhw: "\<not> (mwb_valid (v_w ?v) \<and> isa_halting (mwb_op (v_w ?v)))" using s nh by simp
    have "pipe_inv im a True (next_w ?v n) (core_view c1)"
      using s by (intro pipe_step_inv [OF _ Suc.prems(6) nhw x0]) (simp_all add: ok_pc_def)
    moreover have "spaced im a (next_w ?v n) (core_view c1)"
      by (rule brisk_spaced [OF b(2) Suc.prems(6,7) nhw])
    moreover have "Suc t + dist (core_view c1) = retire_cycle im a (next_w ?v n)"
      using brisk_dist [OF b(2)] Suc.prems(7,8) nh halt vw by (auto simp: next_w_def dist_def)
    ultimately have "m < next_w ?v n + length log1 \<longleftrightarrow> live im a m \<and> retire_cycle im a m < Suc t + k"
      using s b(1) m by (intro Suc.IH [OF r _ nh]) simp_all
    then show ?thesis by simp
  qed
  show ?case
  proof (cases "mwb_valid ?w")
    case False
    then show ?thesis using IH halt Suc.prems(9) by (simp add: log next_w_def vw)
  next
    case True
    then have d: "retire_cycle im a n = t" using Suc.prems(8) by (simp add: dist_def vw)
    show ?thesis
    proof (cases "m = n")
      case eq: True
      then show ?thesis using True lv d by (simp add: log)
    next
      case ne: False
      show ?thesis
      proof (cases "co_halted c1")
        case h: True
        then have "log1 = []" using r by (simp add: core_ticks_halted)
        moreover have "\<not> live im a m" using h halt ne Suc.prems(9) live_mono [of im a m "Suc n"] by auto
        ultimately show ?thesis using ne Suc.prems(9) True by (simp add: log)
      next
        case nh: False
        then show ?thesis using IH ne Suc.prems(9) True by (simp add: log next_w_def vw)
      qed
    qed
  qed
qed

lemma fresh_timetable:
  assumes "fresh c" and "ideal c" and "core_ticks k c = Inr (log, c')"
  shows "m < length log \<longleftrightarrow> live (mem_bytes (co_imem c)) (core_arch c) m \<and>
    retire_cycle (mem_bytes (co_imem c)) (core_arch c) m < k"
proof -
  have q: "quiet c" "\<not> co_halted c" using assms(1) by (simp_all add: fresh_def)
  have e: "spaced im a 0 (core_view c)" "dist (core_view c) = 4" for im a
    using assms(1) by (simp_all add: spaced_def dist_def fresh_def core_view_def)
  have nb: "pipe_inv (mem_bytes (co_imem c)) (core_arch c) True 0 (core_view c)"
    using fresh_inv [OF assms(1)] assms(2) by (simp add: ideal_def)
  have x0: "a_regs (core_arch c) 0 = 0" using q(1) by (simp add: core_arch_def quiet_def core_regs_x0)
  show ?thesis
    using core_ticks_timetable [OF assms(3) q assms(2) refl nb e(1), of 0 m] x0 e(2) by simp
qed

text \<open>
  C13: the pipeline is exact. On a core with an empty pipeline, memories of latency 1 and no
  predictor, instruction \<open>m\<close> of the reference machine's run retires in cycle \<open>retire_cycle m\<close>,
  which is \<open>m + 4\<close> (the depth of the pipeline) plus, for every instruction before it, two if it
  was a taken branch or jump and one if it was a load whose destination the next word names. So
  after any number \<open>k\<close> of completed cycles exactly the live instructions with
  \<open>retire_cycle m < k\<close> have retired: no stall is missing and none is spurious.
\<close>

theorem ideal_timetable:
  assumes "fresh c" and "ideal c" and "core_ticks k c = Inr (log, c')"
  shows "m < length log \<longleftrightarrow>
    live (mem_bytes (co_imem c)) (core_arch c) m \<and>
    m + 4 + (\<Sum>i<m. penalty (mem_bytes (co_imem c)) (isa_run (mem_bytes (co_imem c)) (core_arch c) i)) < k"
  using fresh_timetable [OF assms, of m] by (simp add: retire_cycle_sum)

section \<open>The cycle count of a run\<close>

lemma no_pred_aligned: "co_bpred c = None \<Longrightarrow> aligned_run c"
  by (simp add: aligned_run_def)

text \<open>The tick in which a run halts.\<close>

lemma core_ticks_last:
  assumes "core_ticks k c = Inr (log, c')" and "\<not> co_halted c" and "co_halted c'"
  shows "\<exists>j log1 c1. j < k \<and> core_ticks j c = Inr (log1, c1) \<and> \<not> co_halted c1 \<and>
    core_ticks (Suc j) c = Inr (log, c') \<and> st_cycles (co_stats c') = st_cycles (co_stats c) + of_nat (Suc j)"
  using assms
proof (induction k arbitrary: c log)
  case (Suc k)
  let ?ws = "if mwb_valid (latch_read (co_mem_wb c)) then [latch_read (co_mem_wb c)] else []"
  obtain b c2 log2 where t: "core_tick c = Inr (b, c2)" and r: "core_ticks k c2 = Inr (log2, c')" and log: "log = ?ws @ log2"
    by (rule core_ticks_SucE [OF Suc.prems(1,2)])
  have cyc: "st_cycles (co_stats c2) = st_cycles (co_stats c) + 1" using core_tick_counts [OF t Suc.prems(2)] by simp
  show ?case
  proof (cases "co_halted c2")
    case True
    then have "log2 = []" "c' = c2" using r by (simp_all add: core_ticks_halted)
    then show ?thesis using t Suc.prems(2) cyc log by (intro exI [of _ 0]) simp
  next
    case False
    obtain j log1 c1 where "j < k" "core_ticks j c2 = Inr (log1, c1)" "\<not> co_halted c1" "core_ticks (Suc j) c2 = Inr (log2, c')"
      "st_cycles (co_stats c') = st_cycles (co_stats c2) + of_nat (Suc j)"
      using Suc.IH [OF r False Suc.prems(3)] by blast
    then show ?thesis
      using t Suc.prems(2) cyc log False
      by (intro exI [of _ "Suc j"] exI [of _ "?ws @ log1"] exI [of _ c1]) (simp add: Let_def)
  qed
qed simp

lemma halted_cycles:
  assumes f: "fresh c" and i: "ideal c" and t: "core_ticks k c = Inr (log, c')" and h: "co_halted c'"
    and l: "live (mem_bytes (co_imem c)) (core_arch c) n" "\<not> live (mem_bytes (co_imem c)) (core_arch c) (Suc n)"
  shows "retire_cycle (mem_bytes (co_imem c)) (core_arch c) n < k \<and> st_cycles (co_stats c') =
    st_cycles (co_stats c) + of_nat (Suc (retire_cycle (mem_bytes (co_imem c)) (core_arch c) n))"
proof -
  have al: "aligned_run c" using i by (simp add: ideal_def no_pred_aligned)
  obtain j log1 c1 where a: "core_ticks j c = Inr (log1, c1)" "\<not> co_halted c1" "core_ticks (Suc j) c = Inr (log, c')"
    and s: "j < k" "st_cycles (co_stats c') = st_cycles (co_stats c) + of_nat (Suc j)"
    using core_ticks_last [OF t _ h] f by (auto simp: fresh_def)
  have "live (mem_bytes (co_imem c)) (core_arch c) (length log1)"
    using fresh_ticks [OF f a(1) al] a(2) pipe_invD(1) by auto
  then have "\<not> n < length log1" using l(2) live_mono by (metis Suc_leI)
  moreover have "n < length log" using halted_length [OF f al a(3) h l] by simp
  ultimately have "retire_cycle (mem_bytes (co_imem c)) (core_arch c) n = j"
    using fresh_timetable [OF f i a(1), of n] fresh_timetable [OF f i a(3), of n] l(1) by simp
  with s show ?thesis by simp
qed

text \<open>A run takes as many ticks as it adds to the cycle counter, which does not wrap.\<close>

lemma core_run_exact_ticks:
  assumes "core_run m c = Inr c'"
  shows "\<exists>k log. core_ticks k c = Inr (log, c') \<and> unat (st_cycles (co_stats c')) = unat (st_cycles (co_stats c)) + k"
  using assms
proof (induction m c rule: core_run.induct)
  case (1 m c)
  show ?case
  proof (cases "\<not> co_halted c \<and> st_cycles (co_stats c) < m")
    case True
    then obtain b c1 where t: "core_tick c = Inr (b, c1)" and r: "core_run m c1 = Inr c'"
      using "1.prems" by (auto simp: core_run_step res_bind_Inr_iff)
    from "1.IH" [OF True t] r obtain k log where "core_ticks k c1 = Inr (log, c')"
      "unat (st_cycles (co_stats c')) = unat (st_cycles (co_stats c1)) + k" by auto
    moreover have "unat (st_cycles (co_stats c1)) = Suc (unat (st_cycles (co_stats c)))"
      using core_tick_counts [OF t] True order_le_less_trans [OF _ unsigned_less [where 'a = nat, of m], of "Suc (unat (st_cycles (co_stats c)))"]
      by (simp add: unat_word_ariths word_less_nat_alt)
    ultimately show ?thesis using True t by (intro exI [of _ "Suc k"]) (simp add: Let_def)
  next
    case False
    then have "core_ticks 0 c = Inr ([], c')" "c' = c" using "1.prems" core_run_stop [of c m] by (auto simp: not_less)
    then show ?thesis by fastforce
  qed
qed

text \<open>
  C14: the cycle count of \<open>Core::run\<close> is exact. Take a new core with memories of latency 1, no
  predictor and a safe program that halts at its instruction \<open>n\<close>. If \<open>max_cycles\<close> allows for
  \<open>n + 5\<close> cycles plus the penalties of the \<open>n\<close> instructions before it, \<open>run\<close> returns a halted
  core that has counted exactly that many; if it does not, \<open>run\<close> returns after \<open>max_cycles\<close> with
  the core still running.
\<close>

theorem ideal_run_cycles:
  fixes c :: core and n :: nat
  defines "im \<equiv> mem_bytes (co_imem c)" and "a \<equiv> core_arch c"
  defines "N \<equiv> n + 5 + (\<Sum>i<n. penalty im (isa_run im a i))"
  assumes "fresh c" and "rd_ok c" and "safe_core c" and "ideal c" and "co_stats c = stats_init"
    and "live im a n" and "isa_halting (in_op (isa_insn im (isa_run im a n)))"
  shows "\<exists>c'. core_run m c = Inr c' \<and> co_halted c' = (N \<le> unat m) \<and> unat (core_cycles c') = min N (unat m)"
proof -
  have N: "N = Suc (retire_cycle im a n)" by (simp add: N_def retire_cycle_sum)
  have z: "st_cycles (co_stats c) = 0" using assms(8) by (simp add: stats_init_def)
  have nl: "\<not> live im a (Suc n)" using assms(10) by (simp add: live_Suc)
  have al: "aligned_run c" using assms(7) by (simp add: ideal_def no_pred_aligned)
  obtain c' where r: "core_run m c = Inr c'"
  proof (cases "core_run m c")
    case (Inl e)
    then obtain k where "core_ticks k c = Inl e" using core_run_abort by blast
    then show thesis using fresh_safe_ticks [OF assms(4-6), of k] by simp
  qed
  obtain k log where t: "core_ticks k c = Inr (log, c')" and k: "unat (st_cycles (co_stats c')) = k"
    using core_run_exact_ticks [OF r] z by auto
  have lim: "co_halted c' \<or> m \<le> st_cycles (co_stats c')" "k \<le> unat m"
    using core_run_limit [OF r] z k by (auto simp: word_le_nat_alt)
  show ?thesis
  proof (cases "co_halted c'")
    case True
    have c: "N \<le> k" "st_cycles (co_stats c') = of_nat N"
      using halted_cycles [OF assms(4,7) t True, folded im_def a_def, OF assms(9) nl] by (simp_all add: z N)
    have "N < 2 ^ 64" using c(1) k unsigned_less [where 'a = nat, of "st_cycles (co_stats c')"] by simp
    then have "unat (st_cycles (co_stats c')) = N" unfolding c(2) by (simp add: unat_of_nat take_bit_nat_eq_self)
    with True k lim(2) r show ?thesis by (auto simp: core_cycles_def)
  next
    case False
    then have "live im a (length log)" using fresh_ticks [OF assms(4) t al] pipe_invD(1) by (auto simp: im_def a_def)
    then have "\<not> n < length log" using nl live_mono by (metis Suc_leI)
    then have "k < N" using fresh_timetable [OF assms(4,7) t, folded im_def a_def, of n] assms(9) by (simp add: N)
    moreover have "k = unat m" using lim False k by (simp add: word_le_nat_alt)
    ultimately show ?thesis using False k r by (auto simp: core_cycles_def)
  qed
qed

section \<open>Instances\<close>

text \<open>
  \<open>auipc x2, 0; lw x1, 0(x2); addi x1, x1, 1; jal x0, 8\<close>, a word that is skipped, \<open>ebreak\<close>: a load
  followed by its use, and a taken jump.
\<close>

definition demo_stalls :: core where
  "demo_stalls = demo_core\<lparr>co_imem := Flat (demo_imem\<lparr>fm_mem :=
     [0x17, 1, 0, 0, 0x83, 0x20, 1, 0, 0x93, 0x80, 0x10, 0, 0x6f, 0, 0x80, 0, 0, 0, 0, 0, 0x73, 0, 0x10, 0]
       @ replicate 24 0\<rparr>)\<rparr>"

lemma decode_stalls:
  "decode 0x00000117 pc = \<lparr>in_raw = 0x00000117, in_pc = pc, in_op = Op_AUIPC, in_rd = 2, in_rs1 = 0,
     in_rs2 = 0, in_imm = 0\<rparr>"
  "decode 0x00012083 pc = \<lparr>in_raw = 0x00012083, in_pc = pc, in_op = Op_LW, in_rd = 1, in_rs1 = 2,
     in_rs2 = 0, in_imm = 0\<rparr>"
  "decode 0x00108093 pc = \<lparr>in_raw = 0x00108093, in_pc = pc, in_op = Op_ADDI, in_rd = 1, in_rs1 = 1,
     in_rs2 = 0, in_imm = 1\<rparr>"
  "decode 0x0080006f pc = \<lparr>in_raw = 0x0080006f, in_pc = pc, in_op = Op_JAL, in_rd = 0, in_rs1 = 0,
     in_rs2 = 0, in_imm = 8\<rparr>"
  by code_simp+

lemma demo_stalls_run:
  "\<exists>log c. core_ticks 11 demo_stalls = Inr (log, c) \<and> length log = 4"
  "\<exists>log c. core_ticks 12 demo_stalls = Inr (log, c) \<and> length log = 5"
  supply [cong] = res_bind_weak_cong Let_weak_cong
  by (simp add: demo_stalls_def demo_init tick_eval decode_stalls core_ticks_numeral fetch_set_redirect_def
      decode_set_flush_def fetch_set_stall_def isa_is_load_def)+

lemma demo_stalls_fresh: "fresh demo_stalls"
  using demo_fresh by (simp add: demo_stalls_def)

lemma demo_stalls_ideal: "ideal demo_stalls" "ideal demo_core"
  by (simp_all add: ideal_def prompt_core_def demo_stalls_def demo_core_def demo_imem_def demo_dmem_def flat_init_def)

text \<open>
  Its fifth instruction retires in cycle 11, not before and not after: the penalties before it
  add up to three.
\<close>

theorem ideal_timetable_witness:
  "live (mem_bytes (co_imem demo_stalls)) (core_arch demo_stalls) 4 \<and>
     (\<Sum>i<4. penalty (mem_bytes (co_imem demo_stalls)) (isa_run (mem_bytes (co_imem demo_stalls)) (core_arch demo_stalls) i)) = 3"
proof -
  obtain l1 c1 l2 c2 where r: "core_ticks 11 demo_stalls = Inr (l1, c1)" "length l1 = 4"
    "core_ticks 12 demo_stalls = Inr (l2, c2)" "length l2 = 5" using demo_stalls_run by blast
  show ?thesis
    using ideal_timetable [OF demo_stalls_fresh demo_stalls_ideal(1) r(1), of 4]
      ideal_timetable [OF demo_stalls_fresh demo_stalls_ideal(1) r(3), of 4] r(2,4) by auto
qed

theorem ideal_run_cycles_witness:
  "\<exists>c. core_run 100 demo_core = Inr c \<and> co_halted c \<and> unat (core_cycles c) = 7"
proof -
  let ?im = "mem_bytes (co_imem demo_core)" and ?a = "core_arch demo_core"
  obtain log c where r: "core_ticks 7 demo_core = Inr (log, c)" "co_halted c"
      "map mwb_op log = [Op_ADDI, Op_ADDI, Op_EBREAK]"
    using demo_run by (elim exE conjE)
  from arg_cong [OF r(3), of length] have "length log = 3" by simp
  with fresh_timetable [OF demo_fresh demo_stalls_ideal(2) r(1), of 2]
  have p: "(\<Sum>i<2. penalty ?im (isa_run ?im ?a i)) = 0" by (simp add: retire_cycle_sum)
  have s: "co_stats demo_core = stats_init" by (simp add: demo_core_def)
  show ?thesis
    using ideal_run_cycles [OF demo_fresh conjunct2 [OF demo_quiet] demo_core_safe demo_stalls_ideal(2) s demo_halts, of 100] p
    by auto
qed

end
