(* ===== verification/Branch_Stats.thy ===== *)
theory Branch_Stats
  imports Core_Progress
begin

text \<open>
  The branch counters. EX counts a control transfer when it leaves EX, as correct or as
  mispredicted; an instruction that leaves EX is never on a wrong path, because the branch
  before it has already been resolved there. So the two counters together count the control
  transfers that have retired and those still in MEM and WB, however many wrong-path
  branches were fetched.
\<close>

definition control_op :: "op \<Rightarrow> bool" where
  "control_op p \<longleftrightarrow> is_cond_branch p \<or> p = Op_JAL \<or> p = Op_JALR"

definition core_branches :: "core \<Rightarrow> u64" where
  "core_branches c = st_branch_correct (co_stats c) + st_branch_mispredicts (co_stats c)"

definition branches_in_flight :: "core \<Rightarrow> u64" where
  "branches_in_flight c =
     of_bool (mwb_valid (latch_read (co_mem_wb c)) \<and> control_op (mwb_op (latch_read (co_mem_wb c)))) +
     of_bool (exm_valid (latch_read (co_ex_mem c)) \<and> control_op (exm_op (latch_read (co_ex_mem c))))"

lemma clock_branches: "clock_of (co_stats c) = clock_of (co_stats d) \<Longrightarrow> core_branches c = core_branches d"
  by (simp add: clock_of_def core_branches_def)

section \<open>The phases of a cycle\<close>

lemma execute_evaluate_control:
  "es_control (fst (execute_evaluate h fw x w d es out)) = (idex_valid d \<and> control_op (idex_op d))"
  by (simp add: execute_evaluate_def control_op_def Let_def)

lemma decode_evaluate_reg: "decode_evaluate rf f out = Inr out' \<Longrightarrow> latch_read out' = latch_read out"
  by (cases "ifid_valid f") (auto simp: decode_evaluate_def Let_def res_bind_Inr_iff)

lemma core_evaluate_control:
  assumes "core_evaluate c = Inr c1"
  shows "es_control (co_ex c1) \<longleftrightarrow> idex_valid (latch_read (co_id_ex c)) \<and> control_op (idex_op (latch_read (co_id_ex c)))"
  using assms execute_evaluate_control
  by (auto simp: core_evaluate_def Let_def case_prod_beta res_bind_Inr_iff dest!: decode_evaluate_reg)

lemma core_observe_branches: "core_branches (core_observe c) = core_branches c"
  by (simp add: core_observe_def core_branches_def count_instruction_def Let_def)

lemma core_count_branches: "core_branches (core_count_cycle c) = core_branches c"
  by (simp add: core_count_cycle_def count_cycle_def core_branches_def)

lemma core_latch_side_branches:
  "core_branches (core_latch_mem c) = core_branches c" "core_branches (core_latch_fetch c) = core_branches c"
  "core_branches (core_latch_decode c) = core_branches c" "core_branches (core_latch_hazard c) = core_branches c"
  "core_branches (capture_ex_operands c) = core_branches c"
  using clock_branches [OF core_latch_mem_clock(1)] clock_branches [OF core_latch_fetch_clock(1)]
  by (simp_all add: core_branches_def core_latch_side)

lemma core_latch_ex_branches: "core_branches (core_latch_ex c) = core_branches c + of_bool (es_control (co_ex c))"
  by (simp add: core_latch_ex_def execute_latch_def core_branches_def case_prod_beta Let_def ac_simps)

lemma core_latch_wb_branches: "core_latch_wb c = Inr c' \<Longrightarrow> core_branches c' = core_branches c \<and> co_ex c' = co_ex c"
  by (auto simp: core_latch_wb_def res_bind_Inr_iff core_branches_def)

lemma core_latch_branches:
  assumes "(if s then core_latch_stalled c else core_latch_all c) = Inr c'"
  shows "core_branches c' = core_branches c + of_bool (\<not> s \<and> es_control (co_ex c))"
  using assms
  by (auto simp: core_latch_stalled_def core_latch_all_def res_bind_Inr_iff core_count_branches
      core_latch_side_branches core_latch_ex_branches dest!: core_latch_wb_branches split: if_splits)

text \<open>What leaves EX enters MEM, and what leaves MEM enters WB.\<close>

lemma v_access_op: "v_access x dm = Some (w, dm') \<Longrightarrow> exm_valid x \<Longrightarrow> mwb_op w = exm_op x"
  by (auto simp: v_access_def Let_def split: if_splits)

lemma v_exec_op: "idex_valid (v_d v) \<Longrightarrow> exm_op (v_exec v) = idex_op (v_d v)"
  by (simp add: v_exec_def Let_def)

lemma core_tick_branches:
  assumes "core_tick c = Inr (b, c')" and "\<not> co_halted c" and "quiet c"
  defines "w \<equiv> latch_read (co_mem_wb c)"
  shows "core_branches c' + branches_in_flight c =
    core_branches c + branches_in_flight c' + of_bool (mwb_valid w \<and> control_op (mwb_op w))"
proof -
  obtain c1 where e: "core_evaluate c = Inr c1"
    and l: "if ms_stalling (co_mem c1) then core_latch_stalled (core_observe c1) = Inr c'
         else core_latch_all (core_observe c1) = Inr c'" by (rule core_tick_split [OF assms(1,2)])
  note ev = core_evaluate_ok [OF e assms(3)] and ob = core_observe_frame [of c1]
  have v: "v_x (core_view c) = latch_read (co_ex_mem c)" "v_d (core_view c) = latch_read (co_id_ex c)"
    by (simp_all add: core_view_def)
  obtain ws where wb: "co_wb (core_observe c1) = wb_evaluate (latch_read (co_mem_wb (core_observe c1))) ws"
    using ev(1) ob by (auto simp: core_view_def)
  have B: "core_branches c' = core_branches c + of_bool (\<not> ms_stalling (co_mem c1) \<and> es_control (co_ex c1))"
    using core_latch_branches [of "ms_stalling (co_mem c1)" "core_observe c1" c'] l core_observe_branches [of c1] ob
      clock_branches [OF conjunct1 [OF core_evaluate_clock [OF e]]] by (simp split: if_splits)
  show ?thesis
  proof (cases "ms_stalling (co_mem c1)")
    case True
    from core_latch_stalled_ok [OF _ wb] l ev(1,5) True assms(3) ob
    have "core_view c' = (core_view c)\<lparr>v_regs := wb_regs (v_w (core_view c)) (v_regs (core_view c)), v_w := mem_wb_bubble,
        v_p := v_w (core_view c), v_d := v_capture (core_view c)\<rparr>"
      by (simp add: core_view_def quiet_def)
    then have "latch_read (co_ex_mem c') = latch_read (co_ex_mem c)" "\<not> mwb_valid (latch_read (co_mem_wb c'))"
      by (simp_all add: core_view_def)
    then show ?thesis using B True by (simp add: branches_in_flight_def w_def)
  next
    case False
    have L: "latch_read (co_mem_wb c') = la_shadow (co_mem_wb c1)" "latch_read (co_ex_mem c') = v_exec (core_view c)"
      using core_latch_all_ok [OF _ wb] l False ev(1-4) ob assms(3) by (simp_all add: core_view_def quiet_def)
    have "mwb_valid (latch_read (co_mem_wb c')) = exm_valid (latch_read (co_ex_mem c)) \<and>
        (exm_valid (latch_read (co_ex_mem c)) \<longrightarrow> mwb_op (latch_read (co_mem_wb c')) = exm_op (latch_read (co_ex_mem c)))"
      using v_access_valid v_access_op ev(5) False L(1) v(1) by auto
    moreover have "exm_valid (latch_read (co_ex_mem c')) = idex_valid (latch_read (co_id_ex c)) \<and>
        (idex_valid (latch_read (co_id_ex c)) \<longrightarrow> exm_op (latch_read (co_ex_mem c')) = idex_op (latch_read (co_id_ex c)))"
      using L(2) v_exec_valid [of "core_view c"] v_exec_op [of "core_view c"] v(2) by simp
    ultimately show ?thesis
      using B False core_evaluate_control [OF e] by (auto simp: branches_in_flight_def w_def)
  qed
qed

section \<open>The counters of a run\<close>

lemma core_ticks_branches:
  assumes "core_ticks k c = Inr (log, c')" and "quiet c" and "\<not> co_halted c"
  shows "core_branches c' + branches_in_flight c =
    core_branches c + branches_in_flight c' + of_nat (length (filter (\<lambda>w. control_op (mwb_op w)) log))"
  using assms
proof (induction k arbitrary: c log)
  case (Suc k)
  obtain b c1 log1 where t: "core_tick c = Inr (b, c1)" and r: "core_ticks k c1 = Inr (log1, c')"
    and l: "log = (if mwb_valid (latch_read (co_mem_wb c)) then [latch_read (co_mem_wb c)] else []) @ log1"
    by (rule core_ticks_SucE [OF Suc.prems(1,3)])
  note T = core_tick_branches [OF t Suc.prems(3,2)]
  show ?case
  proof (cases "co_halted c1")
    case True
    then show ?thesis using r T core_ticks_halted [of c1 k] by (simp add: l)
  next
    case False
    have "quiet c1" using core_tick_step [OF t Suc.prems(3,2)] False by simp
    note IH = Suc.IH [OF r this False]
    have e: "core_branches c' = core_branches c1 + branches_in_flight c' +
        of_nat (length (filter (\<lambda>w. control_op (mwb_op w)) log1)) - branches_in_flight c1"
      using IH by (simp add: eq_diff_eq)
    have f: "branches_in_flight c = core_branches c + branches_in_flight c1 + of_bool (mwb_valid (latch_read (co_mem_wb c)) \<and>
        control_op (mwb_op (latch_read (co_mem_wb c)))) - core_branches c1"
      using T by (simp add: eq_diff_eq ac_simps)
    show ?thesis unfolding e f by (simp add: l)
  qed
qed simp

text \<open>
  C18: the branch counters count executed branches. Over a run from an empty pipeline, the sum of
  \<open>branch_correct\<close> and \<open>branch_mispredicts\<close> grows by the number of retired branches and jumps,
  plus those in MEM and WB (at most two), modulo \<open>2 ^ 64\<close>. No wrong-path branch is counted and none
  is counted twice, whatever stalls and flushes occur.
\<close>

theorem branches_count:
  assumes "fresh c" and "core_ticks k c = Inr (log, c')"
  shows "core_branches c' = core_branches c + of_nat (length (filter (\<lambda>w. control_op (mwb_op w)) log)) + branches_in_flight c' \<and>
    branches_in_flight c' \<le> 2"
proof -
  have q: "quiet c" "\<not> co_halted c" "branches_in_flight c = 0"
    using assms(1) by (simp_all add: fresh_def branches_in_flight_def)
  have "branches_in_flight c' \<le> 2" by (simp add: branches_in_flight_def)
  with core_ticks_branches [OF assms(2) q(1,2)] q(3) show ?thesis by (simp add: ac_simps)
qed

section \<open>An instance\<close>

text \<open>\<open>jal x0, 8; addi x2, x1, 1; ebreak\<close>: the addition is on the wrong path.\<close>

definition demo_jump :: core where
  "demo_jump = demo_core\<lparr>co_imem := Flat (demo_imem\<lparr>fm_mem :=
     [0x6f, 0, 0x80, 0, 0x13, 0x81, 0x10, 0, 0x73, 0, 0x10, 0] @ replicate 20 0\<rparr>)\<rparr>"

lemma decode_jump:
  "decode 0x0080006f pc = \<lparr>in_raw = 0x0080006f, in_pc = pc, in_op = Op_JAL, in_rd = 0, in_rs1 = 0,
     in_rs2 = 0, in_imm = 8\<rparr>"
  by code_simp

lemma demo_jump_run:
  "\<exists>log c. core_ticks 8 demo_jump = Inr (log, c) \<and> co_halted c \<and> map mwb_op log = [Op_JAL, Op_EBREAK] \<and>
     branches_in_flight c = 0"
  supply [cong] = res_bind_weak_cong Let_weak_cong
  by (simp add: demo_jump_def demo_init tick_eval decode_jump core_ticks_numeral fetch_set_redirect_def
      decode_set_flush_def branches_in_flight_def control_op_def)

theorem branches_count_witness:
  "\<exists>log c. core_ticks 8 demo_jump = Inr (log, c) \<and> core_branches c = 1"
proof -
  obtain log c where r: "core_ticks 8 demo_jump = Inr (log, c)" "map mwb_op log = [Op_JAL, Op_EBREAK]"
      "branches_in_flight c = 0"
    using demo_jump_run by (elim exE conjE)
  have f: "fresh demo_jump" using demo_fresh by (simp add: demo_jump_def)
  have z: "core_branches demo_jump = 0" by (simp add: demo_jump_def demo_core_def core_branches_def stats_init_def)
  have "length (filter (\<lambda>w. control_op (mwb_op w)) log) = length (filter control_op (map mwb_op log))"
    by (simp add: filter_map o_def)
  also have "\<dots> = 1" unfolding r(2) by (simp add: control_op_def is_cond_branch_def)
  finally show ?thesis using branches_count [OF f r(1)] r z by auto
qed

end
