(* ===== verification/Cycle_Equation.thy ===== *)
theory Cycle_Equation
  imports Ideal_Timing Branch_Stats
begin

unbundle bit_operations_syntax

text \<open>
  The cycle counter balances against the other counters. With memories of latency 1, and with any
  branch predictor, the cycles of a run are its instructions, four cycles to fill the pipeline,
  one per load-use pair and two per misprediction that the statistics count; so the statistics
  that a run reports explain its cycle count. At most one misprediction counts that costs
  nothing, that of a branch behind the instruction that halts the core.

  The proof follows the instruction that is next to enter EX: every cycle in which EX holds a
  bubble belongs to the filling of the pipeline, to an interlock or to a redirect.
\<close>

section \<open>Mispredictions\<close>

lemma clock_mis: "clock_of (co_stats c) = clock_of (co_stats d) \<Longrightarrow> core_mispredicts c = core_mispredicts d"
  by (simp add: clock_of_def core_mispredicts_def)

lemma core_observe_mis: "core_mispredicts (core_observe c) = core_mispredicts c"
  by (simp add: core_observe_def core_mispredicts_def count_instruction_def Let_def)

lemma core_count_mis: "core_mispredicts (core_count_cycle c) = core_mispredicts c"
  by (simp add: core_count_cycle_def count_cycle_def core_mispredicts_def)

lemma core_latch_side_mis:
  "core_mispredicts (core_latch_mem c) = core_mispredicts c" "core_mispredicts (core_latch_fetch c) = core_mispredicts c"
  "core_mispredicts (core_latch_decode c) = core_mispredicts c" "core_mispredicts (core_latch_hazard c) = core_mispredicts c"
  using clock_mis [OF core_latch_mem_clock(1)] clock_mis [OF core_latch_fetch_clock(1)]
  by (simp_all add: core_mispredicts_def core_latch_side)

lemma core_latch_ex_mis:
  "core_mispredicts (core_latch_ex c) = core_mispredicts c + of_bool (es_control (co_ex c) \<and> es_redirect (co_ex c))"
  by (simp add: core_latch_ex_def execute_latch_def core_mispredicts_def case_prod_beta Let_def)

lemma core_latch_wb_mis: "core_latch_wb c = Inr c' \<Longrightarrow> core_mispredicts c' = core_mispredicts c \<and> co_ex c' = co_ex c"
  by (auto simp: core_latch_wb_def res_bind_Inr_iff core_mispredicts_def)

text \<open>A cycle without a memory stall counts the redirect of a control transfer.\<close>

lemma core_tick_mis:
  assumes "core_tick c = Inr (b, c')" and "\<not> co_halted c" and "quiet c" and "prompt_core c"
  shows "core_mispredicts c' = core_mispredicts c +
    of_bool (v_redirect (core_view c) \<and> control_op (idex_op (v_d (core_view c))))"
proof -
  obtain c1 where e: "core_evaluate c = Inr c1"
    and l: "if ms_stalling (co_mem c1) then core_latch_stalled (core_observe c1) = Inr c'
         else core_latch_all (core_observe c1) = Inr c'" by (rule core_tick_split [OF assms(1,2)])
  have la: "core_latch_all (core_observe c1) = Inr c'" using l core_evaluate_prompt [OF e assms(4)] by simp
  have "core_mispredicts c' = core_mispredicts c1 + of_bool (es_control (co_ex c1) \<and> es_redirect (co_ex c1))"
    using la core_observe_mis [of c1]
    by (auto simp: core_latch_all_def res_bind_Inr_iff core_count_mis core_latch_side_mis core_latch_ex_mis
        core_observe_frame dest!: core_latch_wb_mis)
  moreover have "core_mispredicts c1 = core_mispredicts c" using clock_mis [OF conjunct1 [OF core_evaluate_clock [OF e]]] by simp
  moreover have "es_redirect (co_ex c1) = v_redirect (core_view c)" using core_evaluate_ok(4) [OF e assms(3)] by blast
  moreover have "v_redirect (core_view c) \<Longrightarrow> idex_valid (latch_read (co_id_ex c))"
    by (simp add: v_redirect_def core_view_def)
  ultimately show ?thesis using core_evaluate_control [OF e] by (auto simp: core_view_def)
qed

text \<open>What redirects is a control transfer, neither a load nor halting.\<close>

lemma redirect_control:
  assumes "front_ok im nb v s" and "ok_pc nb (a_pc s)" and "v_redirect v"
  shows "control_op (idex_op (v_d v)) \<and> \<not> isa_is_load (idex_op (v_d v)) \<and> \<not> isa_halting (idex_op (v_d v))"
proof -
  have d: "idex_valid (v_d v)" and ne: "ex_actual_taken (v_d v) (v_op1 v) (v_op2 v) \<noteq> idex_predicted_taken (v_d v)"
    using assms(3) by (simp_all add: v_redirect_def)
  have "idex_pc (v_d v) = a_pc s" using assms(1) d by (simp add: front_ok_def d_ok_def Let_def)
  then have "idex_predicted_taken (v_d v) \<Longrightarrow> det_target (idex_op (v_d v))"
    using assms(1,2) d by (simp add: front_ok_def link_def)
  with ne have "ex_actual_taken (v_d v) (v_op1 v) (v_op2 v) \<or> det_target (idex_op (v_d v))" by auto
  then show ?thesis
    by (cases "idex_op (v_d v)")
      (simp_all add: ex_taken_isa control_op_def det_target_def is_cond_branch_def isa_is_load_def isa_halting_def)
qed

section \<open>The equation\<close>

definition load_uses :: "byte_map \<Rightarrow> arch \<Rightarrow> nat \<Rightarrow> nat" where
  "load_uses im a m = (\<Sum>i<m. of_bool (load_use im (isa_run im a i)))"

lemma load_uses_Suc: "load_uses im a (Suc m) = load_uses im a m + of_bool (load_use im (isa_run im a m))"
  by (simp add: load_uses_def)

text \<open>The cycles until the next instruction is in EX.\<close>

definition lead :: "pview \<Rightarrow> nat" where
  "lead v = (if idex_valid (v_d v) then 0 else if ifid_valid (v_f v) then 1 else 2)"

text \<open>
  \<open>cyc\<close> cycles and \<open>mis\<close> mispredictions have been counted since the start of the run, and \<open>n\<close>
  instructions have retired. The first clause holds until the halting instruction leaves EX, the
  others while it is in MEM and in WB.
\<close>

definition balanced :: "byte_map \<Rightarrow> arch \<Rightarrow> nat \<Rightarrow> pview \<Rightarrow> u64 \<Rightarrow> u64 \<Rightarrow> bool" where
  "balanced im a n v cyc mis \<longleftrightarrow>
     (let j = next_w v n; m = next_x v n in
      (idex_valid (v_d v) \<longrightarrow> ifid_valid (v_f v)) \<and>
      (live im a m \<longrightarrow> cyc + of_nat (lead v) = of_nat (m + 2 + load_uses im a m) + 2 * mis) \<and>
      (exm_valid (v_x v) \<and> live im a j \<and> \<not> live im a (Suc j) \<longrightarrow>
         cyc = of_nat (j + 3 + load_uses im a j) + 2 * mis) \<and>
      (mwb_valid (v_w v) \<and> live im a n \<and> \<not> live im a (Suc n) \<longrightarrow>
         (\<exists>e. (e = 0 \<or> e = 1 \<and> \<not> idex_valid (v_d v)) \<and>
            cyc + 2 * e = of_nat (n + 4 + load_uses im a n) + 2 * mis)))"

text \<open>The step in EX, for a live instruction.\<close>

lemma ex_step:
  assumes b: "brisk v v'" and inv: "pipe_inv im a nb n v" and lv: "live im a (next_x v n)"
    and al: "ok_pc nb (a_pc (isa_run im a (next_x v n)))" and df: "idex_valid (v_d v) \<longrightarrow> ifid_valid (v_f v)"
    and bal: "cyc + of_nat (lead v) = of_nat (next_x v n + 2 + load_uses im a (next_x v n)) + 2 * (mis :: u64)"
  defines "m' \<equiv> next_x v n + of_bool (idex_valid (v_d v))"
    and "mis' \<equiv> mis + of_bool (v_redirect v \<and> control_op (idex_op (v_d v)))"
  shows "live im a m' \<Longrightarrow> cyc + 1 + of_nat (lead v') = of_nat (m' + 2 + load_uses im a m') + 2 * mis'"
    and "idex_valid (v_d v) \<Longrightarrow> \<not> live im a m' \<Longrightarrow>
      cyc + 1 = of_nat (next_x v n + 3 + load_uses im a (next_x v n)) + 2 * mis'"
proof -
  let ?s = "isa_run im a (next_x v n)"
  have f: "front_ok im nb v ?s" by (rule pipe_invD(7) [OF inv lv])
  note rc = redirect_control [OF f al]
  have op: "idex_valid (v_d v) \<Longrightarrow> idex_op (v_d v) = in_op (isa_insn im ?s)"
    using f by (simp add: front_ok_def d_ok_def Let_def)
  show "cyc + 1 + of_nat (lead v') = of_nat (m' + 2 + load_uses im a m') + 2 * mis'"
  proof (cases "idex_valid (v_d v)")
    case False
    then have "lead v = Suc (lead v')" "\<not> v_redirect v"
      using b bubble_in_EX [of v] by (auto simp: lead_def brisk_def)
    with bal False show ?thesis by (simp add: m'_def mis'_def ac_simps)
  next
    case True
    have fv: "ifid_valid (v_f v)" using df True by blast
    have lu: "v_redirect v \<Longrightarrow> \<not> load_use im ?s" using rc op True by (auto simp: load_use_def Let_def)
    have "lead v' = (if v_redirect v then 2 else of_bool (load_use im ?s))"
      using b True fv hazard_load_use [OF inv lv True fv _ al] by (auto simp: lead_def brisk_def)
    with bal True lu rc show ?thesis
      by (cases "v_redirect v") (simp_all add: m'_def mis'_def lead_def load_uses_Suc algebra_simps)
  qed
  show "cyc + 1 = of_nat (next_x v n + 3 + load_uses im a (next_x v n)) + 2 * mis'"
    if d: "idex_valid (v_d v)" and nl: "\<not> live im a m'"
  proof -
    have "isa_halting (idex_op (v_d v))" using nl lv op d by (simp add: m'_def live_Suc)
    then have "\<not> v_redirect v" using rc by blast
    with bal d show ?thesis by (simp add: mis'_def lead_def)
  qed
qed

lemma balanced_step:
  assumes b: "brisk v v'" and inv: "pipe_inv im a nb n v" and bal: "balanced im a n v cyc mis"
    and nh: "\<not> (mwb_valid (v_w v) \<and> isa_halting (mwb_op (v_w v)))"
    and al: "\<forall>k. live im a k \<longrightarrow> ok_pc nb (a_pc (isa_run im a k))"
  shows "balanced im a (next_w v n) v' (cyc + 1) (mis + of_bool (v_redirect v \<and> control_op (idex_op (v_d v))))"
proof -
  let ?mis = "mis + of_bool (v_redirect v \<and> control_op (idex_op (v_d v)))"
  have nw: "next_w v' (next_w v n) = next_x v n" using b by (simp add: next_w_def [of v'] next_x_def brisk_def)
  have nx: "next_x v' (next_w v n) = next_x v n + of_bool (idex_valid (v_d v))"
    using b by (simp add: next_x_def [of v'] nw brisk_def)
  note B = bal [unfolded balanced_def Let_def]
  have df: "idex_valid (v_d v) \<longrightarrow> ifid_valid (v_f v)" using B by blast
  have "live im a (next_x v n)" if "live im a (next_x v' (next_w v n))"
    using live_mono [OF that] nx by simp
  moreover note E = ex_step [OF b inv _ al [rule_format] df]
  show ?thesis
    unfolding balanced_def Let_def nw
  proof (intro conjI impI)
    show "idex_valid (v_d v') \<Longrightarrow> ifid_valid (v_f v')" using b df by (auto simp: brisk_def)
  next
    assume l: "live im a (next_x v' (next_w v n))"
    then have "live im a (next_x v n)" by (rule live_mono) (simp add: nx)
    with E(1) [of cyc mis] B l show "cyc + 1 + of_nat (lead v') =
        of_nat (next_x v' (next_w v n) + 2 + load_uses im a (next_x v' (next_w v n))) + 2 * ?mis"
      unfolding nx by blast
  next
    assume l: "exm_valid (v_x v') \<and> live im a (next_x v n) \<and> \<not> live im a (Suc (next_x v n))"
    then have "idex_valid (v_d v)" using b by (simp add: brisk_def)
    with E(2) [of cyc mis] B l show "cyc + 1 = of_nat (next_x v n + 3 + load_uses im a (next_x v n)) + 2 * ?mis"
      by simp
  next
    assume l: "mwb_valid (v_w v') \<and> live im a (next_w v n) \<and> \<not> live im a (Suc (next_w v n))"
    then have "exm_valid (v_x v)" using b by (simp add: brisk_def)
    with B l have c: "cyc = of_nat (next_w v n + 3 + load_uses im a (next_w v n)) + 2 * mis" by blast
    let ?e = "of_bool (v_redirect v \<and> control_op (idex_op (v_d v))) :: u64"
    have "?e = 0 \<or> ?e = 1 \<and> \<not> idex_valid (v_d v')" using b by (auto simp: brisk_def)
    moreover have "cyc + 1 + 2 * ?e = of_nat (next_w v n + 4 + load_uses im a (next_w v n)) + 2 * ?mis"
      unfolding c by (simp add: algebra_simps)
    ultimately show "\<exists>e. (e = 0 \<or> e = 1 \<and> \<not> idex_valid (v_d v')) \<and>
        cyc + 1 + 2 * e = of_nat (next_w v n + 4 + load_uses im a (next_w v n)) + 2 * ?mis" by blast
  qed
qed

section \<open>Runs\<close>

lemma core_ticks_balanced:
  assumes "core_ticks k c = Inr (log, c')" and "quiet c" and "\<not> co_halted c" and "prompt_core c"
    and "mem_bytes (co_imem c) = im" and "pipe_inv im a nb n (core_view c)"
    and "balanced im a n (core_view c) (st_cycles (co_stats c) - cyc0) (core_mispredicts c - mis0)"
    and h: "co_halted c'" and x0: "a_regs a 0 = 0" and al: "\<forall>k. live im a k \<longrightarrow> ok_pc nb (a_pc (isa_run im a k))"
  shows "\<exists>e \<le> 1. st_cycles (co_stats c') - cyc0 + 2 * e =
    of_nat (n + length log + 4 + load_uses im a (n + length log - 1)) + 2 * (core_mispredicts c' - mis0)"
  using assms(1-7)
proof (induction k arbitrary: c n log)
  case 0
  then show ?case using h by simp
next
  case (Suc k)
  let ?v = "core_view c" and ?w = "latch_read (co_mem_wb c)"
  let ?r = "v_redirect ?v \<and> control_op (idex_op (v_d ?v))"
  obtain b c1 log1 where t: "core_tick c = Inr (b, c1)" and r: "core_ticks k c1 = Inr (log1, c')"
    and log: "log = (if mwb_valid ?w then [?w] else []) @ log1"
    by (rule core_ticks_SucE [OF Suc.prems(1,3)])
  have vw: "v_w ?v = ?w" by (simp add: core_view_def)
  note s = core_tick_step [OF t Suc.prems(3,2), unfolded Suc.prems(5)]
  have p: "prompt_core c1" "brisk ?v (core_view c1)" using core_tick_prompt [OF t Suc.prems(3,2,4)] by blast+
  have cyc: "st_cycles (co_stats c1) - cyc0 = st_cycles (co_stats c) - cyc0 + 1"
    using core_tick_counts [OF t Suc.prems(3)] by simp
  have mis: "core_mispredicts c1 - mis0 = core_mispredicts c - mis0 + of_bool ?r"
    using core_tick_mis [OF t Suc.prems(3,2,4)] by simp
  show ?case
  proof (cases "co_halted c1")
    case True
    then have w: "mwb_valid ?w" "isa_halting (mwb_op ?w)" using s vw by auto
    have e: "log = [?w]" "c' = c1" using r True w log by (simp_all add: core_ticks_halted)
    have "live im a n" "\<not> live im a (Suc n)"
      using pipe_invD(1,4) [OF Suc.prems(6)] w vw by (auto simp: live_Suc w_ok_def Let_def)
    then obtain e where e1: "e = 0 \<or> e = 1 \<and> \<not> idex_valid (v_d ?v)"
      and eq: "st_cycles (co_stats c) - cyc0 + 2 * e = of_nat (n + 4 + load_uses im a n) + 2 * (core_mispredicts c - mis0)"
      using Suc.prems(7) w(1) vw by (auto simp: balanced_def Let_def)
    have "e + of_bool ?r \<le> 1" using e1 by (auto simp: v_redirect_def)
    moreover have "st_cycles (co_stats c1) - cyc0 + 2 * (e + of_bool ?r) =
        of_nat (n + length log + 4 + load_uses im a (n + length log - 1)) + 2 * (core_mispredicts c1 - mis0)"
      using eq unfolding cyc mis e(1) by (simp add: algebra_simps)
    ultimately show ?thesis unfolding e(2) by blast
  next
    case False
    have nhw: "\<not> (mwb_valid (v_w ?v) \<and> isa_halting (mwb_op (v_w ?v)))" using s False by simp
    have "pipe_inv im a nb (next_w ?v n) (core_view c1)"
      using s by (intro pipe_step_inv [OF _ Suc.prems(6) nhw x0 al]) simp
    moreover have "balanced im a (next_w ?v n) (core_view c1) (st_cycles (co_stats c1) - cyc0) (core_mispredicts c1 - mis0)"
      unfolding cyc mis by (rule balanced_step [OF p(2) Suc.prems(6,7) nhw al])
    ultimately have "\<exists>e \<le> 1. st_cycles (co_stats c') - cyc0 + 2 * e =
        of_nat (next_w ?v n + length log1 + 4 + load_uses im a (next_w ?v n + length log1 - 1)) + 2 * (core_mispredicts c' - mis0)"
      using s p(1) by (intro Suc.IH [OF r _ False]) simp_all
    moreover have "next_w ?v n + length log1 = n + length log" by (simp add: log next_w_def vw)
    ultimately show ?thesis by simp
  qed
qed

text \<open>
  C16: the statistics of a run explain its cycle count. Run a core with an empty pipeline, memories
  of latency 1 and any branch predictor until it halts. The cycles it has counted are the
  instructions retired, plus four to fill the pipeline, plus one for each load whose destination
  the word executed next names, plus two for each misprediction counted, less two if the branch
  counted last stands behind the halting instruction (all modulo \<open>2 ^ 64\<close>). With a predictor
  the addresses executed must be word-aligned.
\<close>

theorem cycle_equation:
  fixes c :: core and log :: "mem_wb list"
  defines "im \<equiv> mem_bytes (co_imem c)" and "a \<equiv> core_arch c"
  assumes "fresh c" and "prompt_core c" and "aligned_run c"
    and "core_ticks k c = Inr (log, c')" and "co_halted c'"
  shows "\<exists>e \<le> 1. core_cycles c' - core_cycles c + 2 * e =
    of_nat (length log + 4 + (\<Sum>i < length log - 1. of_bool (load_use im (isa_run im a i)))) +
    2 * (core_mispredicts c' - core_mispredicts c)"
proof -
  have q: "quiet c" "\<not> co_halted c" using assms(3) by (simp_all add: fresh_def)
  have x0: "a_regs (core_arch c) 0 = 0" using q(1) by (simp add: core_arch_def quiet_def core_regs_x0)
  have al: "\<forall>j. live im a j \<longrightarrow> ok_pc (co_bpred c = None) (a_pc (isa_run im a j))"
    using assms(5) by (simp add: ok_pc_def aligned_run_def im_def a_def)
  have "balanced im a 0 (core_view c) (st_cycles (co_stats c) - st_cycles (co_stats c)) (core_mispredicts c - core_mispredicts c)"
    using assms(3) by (simp add: balanced_def Let_def fresh_def core_view_def lead_def next_x_def next_w_def load_uses_def)
  from core_ticks_balanced [OF assms(6) q assms(4) refl fresh_inv [OF assms(3)] this [unfolded im_def a_def]
      assms(7) x0 al [unfolded im_def a_def]]
  show ?thesis by (simp add: core_cycles_def load_uses_def im_def a_def)
qed

section \<open>An instance\<close>

text \<open>The program with a load-use pair and a jump takes twelve cycles for five instructions.\<close>

lemma demo_stalls_halts:
  "\<exists>log c. core_ticks 12 demo_stalls = Inr (log, c) \<and> co_halted c \<and> length log = 5 \<and>
     core_cycles c = 12 \<and> core_mispredicts c = 1"
  supply [cong] = res_bind_weak_cong Let_weak_cong
  by (simp add: core_cycles_def core_mispredicts_def demo_stalls_def demo_init tick_eval decode_stalls core_ticks_numeral fetch_set_redirect_def
      decode_set_flush_def fetch_set_stall_def isa_is_load_def)

theorem cycle_equation_witness:
  "\<exists>e \<le> (1 :: u64). 12 + 2 * e =
     of_nat (5 + 4 + (\<Sum>i < 4. of_bool (load_use (mem_bytes (co_imem demo_stalls))
       (isa_run (mem_bytes (co_imem demo_stalls)) (core_arch demo_stalls) i)))) + 2 * 1"
proof -
  obtain log c where r: "core_ticks 12 demo_stalls = Inr (log, c)" "co_halted c" "length log = 5"
    "core_cycles c = 12" "core_mispredicts c = 1"
    using demo_stalls_halts by (elim exE conjE)
  have z: "core_cycles demo_stalls = 0" "core_mispredicts demo_stalls = 0"
    by (simp_all add: core_cycles_def core_mispredicts_def demo_stalls_def demo_core_def stats_init_def)
  have p: "prompt_core demo_stalls" "aligned_run demo_stalls"
    using demo_stalls_ideal(1) by (simp_all add: ideal_def no_pred_aligned)
  have l: "length log - 1 = 4" using r(3) by simp
  show ?thesis
    using cycle_equation [OF demo_stalls_fresh p r(1,2), unfolded z l] unfolding r(3-5) diff_zero .
qed

end
