(* ===== verification/Timing_Bound.thy ===== *)
theory Timing_Bound
  imports Ideal_Timing
begin

text \<open>
  The ideal timetable is a lower bound. Whatever the memories, caches and latencies, no
  instruction retires before the cycle in which it would retire with memories of latency 1; with
  a predictor the same holds without the cost of taken branches, which a prediction can save. The
  proof bounds, for what every stage holds, the cycle in which it can reach WB at the earliest.
\<close>

section \<open>The earliest cycle\<close>

definition least_penalty :: "bool \<Rightarrow> byte_map \<Rightarrow> arch \<Rightarrow> nat" where
  "least_penalty nb im s = (if nb then penalty im s else of_bool (load_use im s))"

primrec earliest :: "bool \<Rightarrow> byte_map \<Rightarrow> arch \<Rightarrow> nat \<Rightarrow> nat" where
  "earliest nb im a 0 = 4"
| "earliest nb im a (Suc n) = earliest nb im a n + 1 + least_penalty nb im (isa_run im a n)"

lemma earliest_sum: "earliest nb im a n = n + 4 + (\<Sum>i<n. least_penalty nb im (isa_run im a i))"
  by (induction n) simp_all

text \<open>\<open>t\<close> cycles have passed and \<open>n\<close> instructions have retired.\<close>

definition not_early :: "bool \<Rightarrow> byte_map \<Rightarrow> arch \<Rightarrow> nat \<Rightarrow> nat \<Rightarrow> pview \<Rightarrow> bool" where
  "not_early nb im a t n v \<longleftrightarrow>
     (mwb_valid (v_w v) \<and> live im a n \<longrightarrow> earliest nb im a n \<le> t) \<and>
     (exm_valid (v_x v) \<and> live im a (next_w v n) \<longrightarrow> earliest nb im a (next_w v n) \<le> t + 1) \<and>
     (live im a (next_x v n) \<longrightarrow> earliest nb im a (next_x v n) \<le>
        t + (if idex_valid (v_d v) then 2 else if ifid_valid (v_f v) then 3 else 4))"

text \<open>What an instruction costs is not more than the bubbles EX lets in behind it.\<close>

lemma penalty_gap:
  assumes inv: "pipe_inv im a nb n v" and lv: "live im a (next_x v n)" and dv: "idex_valid (v_d v)"
    and al: "ok_pc nb (a_pc (isa_run im a (next_x v n)))"
  shows "least_penalty nb im (isa_run im a (next_x v n)) \<le>
    (if v_redirect v then 2 else if ifid_valid (v_f v) then of_bool (v_hazard v) else 1)"
proof -
  let ?s = "isa_run im a (next_x v n)"
  have f: "front_ok im nb v ?s" by (rule pipe_invD(7) [OF inv lv])
  have le: "least_penalty nb im ?s \<le> 2" by (simp add: least_penalty_def penalty_def)
  show ?thesis
  proof (cases "v_redirect v")
    case False
    have "nb \<Longrightarrow> \<not> insn_taken im ?s" using redirect_taken [of im a n v] inv lv dv False by auto
    then have "least_penalty nb im ?s = of_bool (load_use im ?s)" by (simp add: least_penalty_def penalty_def)
    then show ?thesis using hazard_load_use [OF inv lv dv _ False al] False by simp
  qed (use le in simp)
qed

lemma not_early_step:
  assumes st: "pipe_step im v v'" and inv: "pipe_inv im a nb n v" and ne: "not_early nb im a t n v"
    and al: "\<forall>k. live im a k \<longrightarrow> ok_pc nb (a_pc (isa_run im a k))"
  shows "not_early nb im a (Suc t) (next_w v n) v'"
  using st
proof (cases rule: pipe_step.cases)
  case stall
  have v': "v_x v' = v_x v" "idex_valid (v_d v') = idex_valid (v_d v)" "v_f v' = v_f v" "\<not> mwb_valid (v_w v')"
    using stall by (simp_all add: v_capture_def mem_wb_bubble_def)
  have nw: "next_w v' (next_w v n) = next_w v n" using v'(4) by (simp add: next_w_def)
  have nx: "next_x v' (next_w v n) = next_x v n" using v'(1) nw by (simp add: next_x_def)
  show ?thesis
    using ne v' unfolding not_early_def nw nx by (auto split: if_splits)
next
  case (advance w' dm' f' pc')
  have v': "mwb_valid (v_w v') = exm_valid (v_x v)" "exm_valid (v_x v') = idex_valid (v_d v)"
    "idex_valid (v_d v') = (ifid_valid (v_f v) \<and> \<not> v_redirect v \<and> \<not> v_hazard v)" "v_f v' = f'"
    using advance v_access_valid by (auto simp: v_exec_valid v_decode_valid)
  have f': "v_redirect v \<Longrightarrow> \<not> ifid_valid f'" "\<not> v_redirect v \<Longrightarrow> v_hazard v \<Longrightarrow> f' = v_f v"
    using advance(3) by (auto simp: v_front_def)
  have nw: "next_w v' (next_w v n) = next_x v n" using v'(1) by (simp add: next_w_def [of v'] next_x_def)
  have nx: "next_x v' (next_w v n) = next_x v n + of_bool (idex_valid (v_d v))"
    using v'(2) by (simp add: next_x_def [of v'] nw)
  have front: "earliest nb im a (next_x v n + of_bool (idex_valid (v_d v))) \<le>
      Suc t + (if idex_valid (v_d v') then 2 else if ifid_valid (v_f v') then 3 else 4)"
    if l: "live im a (next_x v n + of_bool (idex_valid (v_d v)))"
  proof (cases "idex_valid (v_d v)")
    case False
    then show ?thesis using ne l v' f' bubble_in_EX [of v] by (auto simp: not_early_def split: if_splits)
  next
    case True
    have lv: "live im a (next_x v n)" using live_mono [OF l] by simp
    have "earliest nb im a (next_x v n) \<le> t + 2" using ne lv True by (simp add: not_early_def)
    then show ?thesis
      using penalty_gap [OF inv lv True al [rule_format, OF lv]] True v' f' by (auto split: if_splits)
  qed
  have "mwb_valid (v_w v') \<and> live im a (next_w v n) \<longrightarrow> earliest nb im a (next_w v n) \<le> Suc t"
    using ne v'(1) by (simp add: not_early_def)
  moreover have "exm_valid (v_x v') \<and> live im a (next_x v n) \<longrightarrow> earliest nb im a (next_x v n) \<le> Suc t + 1"
    using ne v'(2) by (auto simp: not_early_def)
  ultimately show ?thesis using front unfolding not_early_def nw nx by blast
qed

section \<open>Runs\<close>

lemma core_ticks_not_early:
  assumes "core_ticks k c = Inr (log, c')" and "quiet c" and "\<not> co_halted c"
    and "mem_bytes (co_imem c) = im" and "pipe_inv im a nb n (core_view c)" and "not_early nb im a t n (core_view c)"
    and "n \<le> m" and "m < n + length log"
    and x0: "a_regs a 0 = 0" and al: "\<forall>k. live im a k \<longrightarrow> ok_pc nb (a_pc (isa_run im a k))"
  shows "earliest nb im a m < t + k"
  using assms(1-8)
proof (induction k arbitrary: c n log t)
  case (Suc k)
  let ?v = "core_view c" and ?w = "latch_read (co_mem_wb c)"
  obtain b c1 log1 where t: "core_tick c = Inr (b, c1)" and r: "core_ticks k c1 = Inr (log1, c')"
    and log: "log = (if mwb_valid ?w then [?w] else []) @ log1"
    by (rule core_ticks_SucE [OF Suc.prems(1,3)])
  have vw: "v_w ?v = ?w" by (simp add: core_view_def)
  note s = core_tick_step [OF t Suc.prems(3,2), unfolded Suc.prems(4)]
  show ?case
  proof (cases "mwb_valid ?w \<and> m = n")
    case True
    then have "earliest nb im a m \<le> t"
      using Suc.prems(6) vw pipe_invD(1) [OF Suc.prems(5)] by (simp add: not_early_def)
    then show ?thesis by simp
  next
    case F: False
    have m: "next_w ?v n \<le> m" "m < next_w ?v n + length log1"
      using F Suc.prems(7,8) by (auto simp: log next_w_def vw split: if_splits)
    have nh: "\<not> co_halted c1" using m core_ticks_halted [of c1 k] r by auto
    then have nhw: "\<not> (mwb_valid (v_w ?v) \<and> isa_halting (mwb_op (v_w ?v)))" using s by simp
    have "pipe_inv im a nb (next_w ?v n) (core_view c1)"
      using s by (intro pipe_step_inv [OF _ Suc.prems(5) nhw x0 al]) simp
    moreover have "not_early nb im a (Suc t) (next_w ?v n) (core_view c1)"
      using s by (intro not_early_step [OF _ Suc.prems(5,6) al]) simp
    ultimately have "earliest nb im a m < Suc t + k"
      using s by (intro Suc.IH [OF r _ nh _ _ _ m]) simp_all
    then show ?thesis by simp
  qed
qed simp

text \<open>
  C15: nothing beats the ideal timetable. On a core with an empty pipeline and any caches,
  latencies and prefetcher, an instruction that has retired within \<open>k\<close> cycles is one whose cycle in
  the timetable of memories of latency 1 is among those \<open>k\<close>: a memory can only add cycles. With
  a predictor the timetable leaves out the cost of taken branches, but not that of load-use
  pairs; the addresses executed must then be word-aligned.
\<close>

theorem no_retirement_before_ideal:
  fixes c :: core and log :: "mem_wb list"
  defines "im \<equiv> mem_bytes (co_imem c)" and "a \<equiv> core_arch c"
  assumes "fresh c" and "aligned_run c" and "core_ticks k c = Inr (log, c')" and "m < length log"
  shows "m + 4 + (\<Sum>i<m. if co_bpred c = None then penalty im (isa_run im a i)
    else of_bool (load_use im (isa_run im a i))) < k"
proof -
  have q: "quiet c" "\<not> co_halted c" using assms(3) by (simp_all add: fresh_def)
  have x0: "a_regs (core_arch c) 0 = 0" using q(1) by (simp add: core_arch_def quiet_def core_regs_x0)
  have al: "\<forall>j. live im a j \<longrightarrow> ok_pc (co_bpred c = None) (a_pc (isa_run im a j))"
    using assms(4) by (simp add: ok_pc_def aligned_run_def im_def a_def)
  have "not_early (co_bpred c = None) im a 0 0 (core_view c)"
    using assms(3) by (simp add: not_early_def fresh_def core_view_def next_x_def next_w_def)
  from core_ticks_not_early [OF assms(5) q refl fresh_inv [OF assms(3)] this [unfolded im_def a_def] le0 _
      x0 al [unfolded im_def a_def], of m] assms(6)
  show ?thesis unfolding im_def a_def earliest_sum least_penalty_def by simp
qed

text \<open>The slow instruction memory of \<open>demo_slow\<close>: the third instruction retires, not before cycle 6.\<close>

theorem no_retirement_before_ideal_witness:
  "2 + 4 + (\<Sum>i<2. penalty (mem_bytes (co_imem demo_slow)) (isa_run (mem_bytes (co_imem demo_slow)) (core_arch demo_slow) i)) < 12"
proof -
  obtain log c where r: "core_ticks 12 demo_slow = Inr (log, c)" "length log = 3" using demo_slow_run by blast
  have f: "fresh demo_slow" using demo_fresh by (simp add: demo_slow_def)
  have n: "co_bpred demo_slow = None" by (simp add: demo_slow_def demo_core_def)
  from no_retirement_before_ideal [OF f no_pred_aligned [OF n] r(1), of 2] r(2) n show ?thesis by simp
qed

end
