(* ===== verification/Trace_Bounds.thy ===== *)
theory Trace_Bounds
  imports Core_Safety
begin

unbundle bit_operations_syntax

text \<open>
  The buffers of the tracer are large enough. \<open>snprintf\<close> cuts a text that does not fit; no text
  that the tracer formats is ever cut (in the cycle format: for cycle numbers of up to
  thirteen digits).
\<close>

section \<open>Lengths of numbers\<close>

lemma digits_length: "2 \<le> b \<Longrightarrow> n < b ^ Suc k \<Longrightarrow> length (digits b n) \<le> Suc k"
proof (induction k arbitrary: n)
  case 0
  then show ?case by (simp add: digits.simps [of b n])
next
  case (Suc k)
  show ?case
  proof (cases "n < b")
    case False
    have "n div b < b ^ Suc k" using Suc.prems by (intro div_less_iff_less_mult [THEN iffD2]) (auto simp: ac_simps)
    from Suc.IH [OF Suc.prems(1) this] False Suc.prems(1) show ?thesis by (simp add: digits.simps [of b n])
  qed (simp add: digits.simps [of b n])
qed

lemma hex_length: "length (hex w v) \<le> max w 8"
proof -
  have "unat v < 16 ^ Suc 7" using unsigned_less [of v] by simp
  then have "length (digits 16 (unat v)) \<le> 8" using digits_length [of 16 "unat v" 7] by simp
  then show ?thesis by (simp add: hex_def pad_left_def)
qed

lemma dec_length_reg: "length (dec (uint (r :: u8))) \<le> 3"
proof -
  have "unat r < 10 ^ Suc 2" using unsigned_less [of r] by (rule less_le_trans) simp
  then show ?thesis using digits_length [of 10 "unat r" 2] by (simp add: dec_def)
qed



lemma pad_right_length: "length (pad_right w s) = max w (length s)"
  by (simp add: pad_right_def)



section \<open>Lengths of lines\<close>

definition effect_text :: "mem_wb \<Rightarrow> string" where
  "effect_text wb =
     (if mwb_is_store wb
      then '' mem 0x'' @ hex 8 (mwb_mem_addr wb) @ '' 0x'' @ hex (store_hex_digits (mwb_op wb)) (mwb_mem_val wb)
      else if mwb_rd wb \<noteq> 0
      then '' x'' @ pad_right 2 (dec (uint (mwb_rd wb))) @ '' 0x'' @ hex 8 (mwb_wb_val wb) @
           (if is_load_op (mwb_op wb) then '' mem 0x'' @ hex 8 (mwb_mem_addr wb) else [])
      else [])"

lemma effect_text_length: "length (effect_text wb) \<le> 31"
  using hex_length [of 8 "mwb_mem_addr wb"] hex_length [of 8 "mwb_wb_val wb"] dec_length_reg [of "mwb_rd wb"]
    hex_length [of "store_hex_digits (mwb_op wb)" "mwb_mem_val wb"]
  by (auto simp: effect_text_def pad_right_length store_hex_digits_def split: if_splits)

lemma format_effect_text: "format_effect cap wb = buffer cap (effect_text wb)"
  by (simp add: format_effect_def effect_text_def buffer_def)





section \<open>The line of an illegal instruction\<close>

text \<open>
  C34: a retired illegal instruction whose \<open>rd\<close> field is not 0 is traced as if it had written the
  value in its \<open>wb_val\<close> field to that register, although WB leaves every register as it was: the
  tracer looks at \<open>rd\<close> only, WB at the operation.
\<close>

theorem illegal_traced_as_write:
  assumes "mwb_op w = Op_ILLEGAL" and "mwb_rd w \<noteq> 0" and "\<not> mwb_is_store w"
  shows "commit_line w = ''core   0: 3 0x'' @ hex 8 (mwb_pc w) @ '' (0x'' @ hex 8 (mwb_raw w) @ '')'' @
      '' x'' @ pad_right 2 (dec (uint (mwb_rd w))) @ '' 0x'' @ hex 8 (mwb_wb_val w) \<and>
    (\<exists>ws'. wb_latch (wb_evaluate w ws) rf = Inr (ws', rf))"
proof -
  have e: "format_effect 64 w = '' x'' @ pad_right 2 (dec (uint (mwb_rd w))) @ '' 0x'' @ hex 8 (mwb_wb_val w)"
    using effect_text_length [of w] assms by (simp add: format_effect_text buffer_def) (simp add: effect_text_def is_load_op_def)
  have "length (format_effect 64 w) \<le> 31" using effect_text_length [of w] by (simp add: format_effect_text buffer_def)
  then have "commit_line w = ''core   0: 3 0x'' @ hex 8 (mwb_pc w) @ '' (0x'' @ hex 8 (mwb_raw w) @ '')'' @ format_effect 64 w"
    using hex_length [of 8 "mwb_pc w"] hex_length [of 8 "mwb_raw w"] by (simp add: commit_line_def buffer_def)
  then show ?thesis unfolding e using assms(1) by (simp add: wb_latch_def wb_evaluate_def has_writeback_def)
qed

theorem illegal_traced_as_write_witness:
  "commit_line (mem_wb_bubble\<lparr>mwb_op := in_op (decode 0xfe0000b3 0), mwb_rd := in_rd (decode 0xfe0000b3 0)\<rparr>) =
     ''core   0: 3 0x00000000 (0x00000000) x1  0x00000000''"
proof -
  have d: "in_op (decode 0xfe0000b3 0) = Op_ILLEGAL" "in_rd (decode 0xfe0000b3 0) = 1" by code_simp+
  from illegal_traced_as_write [of "mem_wb_bubble\<lparr>mwb_op := Op_ILLEGAL, mwb_rd := 1\<rparr>"] show ?thesis
    by (simp add: d mem_wb_bubble_def hex_def dec_def pad_left_def pad_right_def digits.simps digit_char_def numeral_list)
qed

end
