(* ===== verification/Program_Words.thy ===== *)
theory Program_Words
  imports Core_Safety
begin

text \<open>
  \<open>Core::load_program\<close>, which the tests use in place of an ELF file: what it stores is what the
  core, and the reference machine, fetch.
\<close>

section \<open>Loading words\<close>

lemma next_word: "unat (a :: u32) + 4 < 2 ^ 32 \<Longrightarrow> unat (a + 4) = unat a + 4"
  by (simp add: unat_word_ariths take_bit_nat_eq_self)

lemma store_word_bytes_other:
  assumes "mem_store_word m a v = Inr m'" and "n < unat a \<or> unat a + 4 \<le> n"
  shows "mem_bytes m' n = mem_bytes m n"
proof -
  have "store_le (mem_bytes m) a 4 v = Some (mem_bytes m')" using mem_store_bytes(1) [of m a v] assms(1) by simp
  then show ?thesis using write_le_other [of n "unat a" 4 "mem_bytes m" v] assms(2)
    by (auto simp: store_le_def split: if_splits)
qed

lemma store_program_other:
  assumes "store_program a ws m = Inr m'" and "unat a + 4 * length ws \<le> 2 ^ 32"
    and "n < unat a \<or> unat a + 4 * length ws \<le> n"
  shows "mem_bytes m' n = mem_bytes m n"
  using assms
proof (induction ws arbitrary: a m)
  case (Cons w ws)
  from Cons.prems(1) obtain m1 where s: "mem_store_word m a w = Inr m1" and r: "store_program (a + 4) ws m1 = Inr m'"
    by (auto simp: res_bind_Inr_iff)
  have "mem_bytes m' n = mem_bytes m1 n"
  proof (cases ws)
    case (Cons v vs)
    then have "unat (a + 4) = unat a + 4" using Cons.prems(2) by (intro next_word) simp
    then show ?thesis using Cons.prems(2,3) by (intro Cons.IH [OF r]) auto
  qed (use r in simp)
  then show ?case using store_word_bytes_other [OF s, of n] Cons.prems(3) by auto
qed simp

lemma load_le_same: "(\<And>n. unat a \<le> n \<Longrightarrow> n < unat a + k \<Longrightarrow> m n = m' n) \<Longrightarrow> load_le m a k = load_le m' a k"
  using read_le_cong [of "unat a" k m m'] by (auto simp: load_le_def mapped_def)

lemma store_program_words:
  assumes "store_program a ws m = Inr m'" and "unat a + 4 * length ws \<le> 2 ^ 32" and "i < length ws"
  shows "load_le (mem_bytes m') (a + 4 * of_nat i) 4 = Some (ws ! i)"
  using assms
proof (induction ws arbitrary: a m i)
  case (Cons w ws)
  from Cons.prems(1) obtain m1 where s: "mem_store_word m a w = Inr m1" and r: "store_program (a + 4) ws m1 = Inr m'"
    by (auto simp: res_bind_Inr_iff)
  have next_a: "unat (a + 4) = unat a + 4" if "ws \<noteq> []"
    using that Cons.prems(2) by (intro next_word) (cases ws; simp)
  show ?case
  proof (cases i)
    case 0
    have "store_le (mem_bytes m) a 4 w = Some (mem_bytes m1)" using mem_store_bytes(1) [of m a w] s by simp
    from load_store_le [OF this] have "load_le (mem_bytes m1) a 4 = Some w" by (simp add: take_bit_word_eq_self)
    moreover have "mem_bytes m' n = mem_bytes m1 n" if "n < unat a + 4" for n
      using that r Cons.prems(2) next_a by (cases "ws = []") (auto intro: store_program_other [OF r])
    ultimately show ?thesis using load_le_same [of a 4 "mem_bytes m'" "mem_bytes m1"] 0 by simp
  next
    case (Suc j)
    then have "ws \<noteq> []" "j < length ws" using Cons.prems(3) by auto
    then show ?thesis
      using Cons.IH [OF r, of j] Cons.prems(2) next_a Suc by (simp add: algebra_simps)
  qed
qed simp

text \<open>
  \<open>load_program\<close> loads the program. After it succeeds (and the words fit below the top of the
  address space), the word fetched at the base plus \<open>4 * i\<close> is the \<open>i\<close>-th word of the program,
  both by the code's load and by the reference machine; every other byte of the instruction
  memory and every other part of the core is as before.
\<close>

theorem load_program_words:
  assumes "load_program ws c = Inr c'" and "unat (co_base c) + 4 * length ws \<le> 2 ^ 32"
  shows "(\<forall>i < length ws. mem_load_word (co_imem c') (co_base c + 4 * of_nat i) = Inr (ws ! i) \<and>
      isa_fetch (mem_bytes (co_imem c')) (co_base c + 4 * of_nat i) = ws ! i) \<and>
    (\<forall>n. n < unat (co_base c) \<or> unat (co_base c) + 4 * length ws \<le> n \<longrightarrow>
      mem_bytes (co_imem c') n = mem_bytes (co_imem c) n) \<and>
    c' = c\<lparr>co_imem := co_imem c'\<rparr>"
proof -
  obtain m where s: "store_program (co_base c) ws (co_imem c) = Inr m" and c': "c' = c\<lparr>co_imem := m\<rparr>"
    using assms(1) by (auto simp: load_program_def res_bind_Inr_iff)
  have l: "load_le (mem_bytes m) (co_base c + 4 * of_nat i) 4 = Some (ws ! i)" if "i < length ws" for i
    by (rule store_program_words [OF s assms(2) that])
  have "mem_load_word m a = Inr v" if "load_le (mem_bytes m) a 4 = Some v" for a v
    using mem_load_bytes(1) [of m a] that by (simp add: res_option_Some)
  then show ?thesis using l store_program_other [OF s assms(2)] by (auto simp: c' isa_fetch_def load_le_def split: if_splits)
qed

theorem load_program_words_witness:
  "mem_load_word (co_imem demo_core) 0x80000004 = Inr 0x00108113"
proof -
  obtain c where c: "core_init demo_config = Inr c" "load_program demo_prog c = Inr (demo_core\<lparr>co_tracer := None\<rparr>)"
    using demo_loads by (auto simp: res_bind_Inr_iff)
  have "co_base c = 0x80000000"
    using core_init_fresh [OF c(1)] by (simp add: demo_config_def default_config_def)
  with load_program_words [OF c(2)] have "\<forall>i < length demo_prog.
      mem_load_word (co_imem demo_core) (0x80000000 + 4 * of_nat i) = Inr (demo_prog ! i)"
    by (simp add: demo_prog_def)
  from this [rule_format, of 1] show ?thesis by (simp add: demo_prog_def)
qed

end
