(* ===== verification/Cycle_Trace.thy ===== *)
theory Cycle_Trace
  imports Commit_Log
begin

text \<open>
  The cycle view of the tracer: one line per cycle, with the number of the cycle and what is at
  the input of WB in it.
\<close>

lemma core_ticks_cycle_trace:
  assumes "core_ticks k c = Inr (log, c')" and "co_tracer c = Some t" and "tr_fmt t = Fmt_Cycle"
  shows "\<exists>ws. co_tracer c' = Some (t\<lparr>tr_out := tr_out t @
      map (\<lambda>j. cycle_line (ws ! j) (st_cycles (co_stats c) + of_nat j)) [0 ..< length ws]\<rparr>) \<and>
    filter mwb_valid ws = log \<and> st_cycles (co_stats c') = st_cycles (co_stats c) + of_nat (length ws) \<and>
    length ws \<le> k \<and> (\<not> co_halted c' \<longrightarrow> length ws = k)"
  using assms
proof (induction k arbitrary: c log t)
  case 0
  then show ?case by (intro exI [of _ "[]"]) simp
next
  case (Suc k)
  let ?w = "latch_read (co_mem_wb c)"
  show ?case
  proof (cases "co_halted c")
    case True
    then show ?thesis using Suc.prems by (intro exI [of _ "[]"]) simp
  next
    case False
    with Suc.prems(1) obtain b c1 log1 where t: "core_tick c = Inr (b, c1)" and r: "core_ticks k c1 = Inr (log1, c')"
      and l: "log = (if mwb_valid ?w then [?w] else []) @ log1" by (rule core_ticks_SucE)
    note n = core_tick_counts [OF t False]
    let ?t = "t\<lparr>tr_out := tr_out t @ [cycle_line ?w (st_cycles (co_stats c))]\<rparr>"
    have "co_tracer c1 = Some ?t" using n Suc.prems(2,3) by (simp add: tracer_record_def)
    from Suc.IH [OF r this] Suc.prems(3) obtain ws where
      ws: "co_tracer c' = Some (?t\<lparr>tr_out := tr_out ?t @
        map (\<lambda>j. cycle_line (ws ! j) (st_cycles (co_stats c1) + of_nat j)) [0 ..< length ws]\<rparr>)"
      "filter mwb_valid ws = log1" "st_cycles (co_stats c') = st_cycles (co_stats c1) + of_nat (length ws)"
      "length ws \<le> k" "\<not> co_halted c' \<longrightarrow> length ws = k" by auto
    have "map (\<lambda>j. cycle_line ((?w # ws) ! j) (st_cycles (co_stats c) + of_nat j)) [0 ..< length (?w # ws)] =
        cycle_line ?w (st_cycles (co_stats c)) #
          map (\<lambda>j. cycle_line (ws ! j) (st_cycles (co_stats c1) + of_nat j)) [0 ..< length ws]"
      using n by (simp add: upt_conv_Cons map_Suc_upt [symmetric] ac_simps del: upt_Suc)
    then show ?thesis using ws n by (intro exI [of _ "?w # ws"]) (simp add: l ac_simps)
  qed
qed

text \<open>
  C17: the cycle view. With a tracer in \<open>Cycle\<close> format a run prints exactly one line per cycle, and
  the lines are numbered consecutively from the cycle counter. The lines that show an
  instruction show, in order, the instructions that retire, at the addresses and with the words
  of the reference machine's run; the other lines are bubbles.
\<close>

theorem cycle_trace_correct:
  assumes "fresh c" and "aligned_run c" and "core_ticks k c = Inr (log, c')"
    and "co_tracer c = Some t" and "tr_fmt t = Fmt_Cycle"
  shows "\<exists>ws. co_tracer c' = Some (t\<lparr>tr_out := tr_out t @
      map (\<lambda>j. cycle_line (ws ! j) (st_cycles (co_stats c) + of_nat j)) [0 ..< length ws]\<rparr>) \<and>
    filter mwb_valid ws = log \<and> st_cycles (co_stats c') = st_cycles (co_stats c) + of_nat (length ws) \<and>
    (\<not> co_halted c' \<longrightarrow> length ws = k) \<and>
    map (\<lambda>w. (mwb_pc w, mwb_raw w)) log =
      map (\<lambda>j. let pc = a_pc (isa_run (mem_bytes (co_imem c)) (core_arch c) j) in
        (pc, isa_fetch (mem_bytes (co_imem c)) pc)) [0 ..< length log]"
proof -
  have "map (\<lambda>w. (mwb_pc w, mwb_raw w)) log =
      map (\<lambda>j. let pc = a_pc (isa_run (mem_bytes (co_imem c)) (core_arch c) j) in
        (pc, isa_fetch (mem_bytes (co_imem c)) pc)) [0 ..< length log]"
    using fresh_ticks [OF assms(1,3,2)]
    by (intro nth_equalityI) (simp_all add: list_all2_conv_all_nth w_ok_def Let_def)
  with core_ticks_cycle_trace [OF assms(3-5)] show ?thesis by blast
qed

text \<open>The demonstration core with a tracer in this format.\<close>

definition demo_cycles :: core where
  "demo_cycles = demo_core\<lparr>co_tracer := Some \<lparr>tr_out = [], tr_fmt = Fmt_Cycle\<rparr>\<rparr>"

lemma demo_cycles_run: "\<exists>log c. core_ticks 5 demo_cycles = Inr (log, c) \<and> \<not> co_halted c \<and> length log = 1"
  supply [cong] = res_bind_weak_cong Let_weak_cong
  by (simp add: demo_cycles_def demo_init tick_eval core_ticks_numeral)

theorem cycle_trace_correct_witness:
  "\<exists>log c ws. core_ticks 5 demo_cycles = Inr (log, c) \<and> length ws = 5 \<and> filter mwb_valid ws = log \<and> length log = 1 \<and>
     co_tracer c = Some \<lparr>tr_out = map (\<lambda>j. cycle_line (ws ! j) (of_nat j)) [0 ..< 5], tr_fmt = Fmt_Cycle\<rparr>"
proof -
  obtain log c where r: "core_ticks 5 demo_cycles = Inr (log, c)" "\<not> co_halted c" "length log = 1"
    using demo_cycles_run by (elim exE conjE)
  have f: "fresh demo_cycles" using demo_fresh by (simp add: demo_cycles_def)
  have a: "aligned_run demo_cycles" by (simp add: demo_cycles_def aligned_run_def demo_core_def)
  from cycle_trace_correct [OF f a r(1), of "\<lparr>tr_out = [], tr_fmt = Fmt_Cycle\<rparr>"] r
  obtain ws where "length ws = 5" "filter mwb_valid ws = log"
    "co_tracer c = Some \<lparr>tr_out = map (\<lambda>j. cycle_line (ws ! j) (st_cycles (co_stats demo_cycles) + of_nat j))
       [0 ..< length ws], tr_fmt = Fmt_Cycle\<rparr>"
    by (auto simp: demo_cycles_def)
  moreover have "st_cycles (co_stats demo_cycles) = 0" by (simp add: demo_cycles_def demo_core_def stats_init_def)
  ultimately show ?thesis using r by auto
qed

end
