(* ===== verification/Core_Wf.thy ===== *)
theory Core_Wf
  imports Core_Progress
begin

text \<open>
  The types of the C++ members say less than the code relies on. \<open>core_wf\<close> is the missing part,
  as a type invariant of \<open>Core\<close>: 32 registers with \<open>x0\<close> zero, register numbers below 32 in
  every latch, transient signals down between cycles, caches with unique tags and consistent
  engines, a predictor whose indices and counters are in range. The constructor establishes it
  and every public operation keeps it.
\<close>

section \<open>The invariant\<close>





section \<open>Cycles\<close>







section \<open>The reachable cores\<close>










end
