(* ===== verification/Prefetch_Stats.thy ===== *)
theory Prefetch_Stats
  imports Memsys
begin

unbundle bit_operations_syntax

text \<open>
  The prefetch counters of \<open>SimStats\<close> (\<open>icache_prefetch_useful\<close>, \<open>icache_prefetch_useless\<close>) as an
  account that balances: every line the prefetch engine brings in is, at any time, exactly one
  of used by a demand access, evicted unused, or still in the cache with its flag up.
\<close>

section \<open>The account\<close>

definition unused_line :: "line \<Rightarrow> bool" where
  "unused_line l \<longleftrightarrow> ln_valid l \<and> ln_prefetched l"

definition unused_lines :: "cache \<Rightarrow> nat" where
  "unused_lines c = length (filter unused_line (c_lines c))"

definition prefetch_account :: "cache \<Rightarrow> sim_stats \<Rightarrow> u64" where
  "prefetch_account c st = st_prefetch_useful st + st_prefetch_useless st + of_nat (unused_lines c)"

text \<open>
  The ticks in which a prefetched line arrives: the engine's request is served, or that of a
  demand access that has merged with it.
\<close>

definition prefetch_arrives :: "cache \<Rightarrow> mem_state \<Rightarrow> bool" where
  "prefetch_arrives c b \<longleftrightarrow>
     (if c_phase c = Ph_PrefetchWait then fst (mem_ready (c_cur_addr c) False b)
      else c_phase c \<in> {Ph_Idle, Ph_HitWait} \<and> c_pf_active c \<and> fst (mem_ready (c_pf_addr c) False b))"

section \<open>One line at a time\<close>

lemma filter_update:
  "i < length xs \<Longrightarrow>
     length (filter P (xs[i := y])) + of_bool (P (xs ! i)) = length (filter P xs) + of_bool (P y)"
proof (induction xs arbitrary: i)
  case (Cons x xs)
  then show ?case by (cases i) auto
qed simp

lemma unused_set_line:
  assumes "cache_geom c" and "unat s < 2 ^ c_index_bits c" and "w < c_ways c"
  shows "(of_nat (unused_lines (touch_way (set_line c s w l) s w)) :: u64) + of_bool (unused_line (line_at c s w)) =
    of_nat (unused_lines c) + of_bool (unused_line l)"
proof -
  have "unused_lines (touch_way (set_line c s w l) s w) + of_bool (unused_line (line_at c s w)) =
      unused_lines c + of_bool (unused_line l)"
    using filter_update [OF slot_less [OF assms], of unused_line l]
    by (simp add: unused_lines_def touch_way_def set_line_def line_at_def)
  from arg_cong [OF this, of "of_nat :: nat \<Rightarrow> u64"] show ?thesis by simp
qed

lemma install_line_account:
  assumes "cache_geom c" and "unat s < 2 ^ c_index_bits c" and "w < c_ways c" and "c_stats_on c"
    and "install_line s w a d p c st = (c', st')"
  shows "prefetch_account c' st' = prefetch_account c st + of_bool p"
proof -
  let ?l = "line_at c s w"
  define l' where "l' = \<lparr>ln_valid = True, ln_dirty = d, ln_prefetched = p, ln_tag = tag_of c a\<rparr>"
  have c: "c' = touch_way (set_line c s w l') s w" "st' = (if unused_line ?l then count_useless st else st)"
    using assms(4,5) by (auto simp: install_line_def l'_def Let_def unused_line_def)
  from unused_set_line [OF assms(1-3), of l'] show ?thesis
    unfolding c by (auto simp: prefetch_account_def count_useless_def unused_line_def l'_def algebra_simps)
qed

section \<open>Queries and ticks\<close>

lemma start_hit_account:
  assumes "cache_geom c" and "unat s < 2 ^ c_index_bits c" and "w < c_ways c" and "c_stats_on c"
    and "ln_valid (line_at c s w)" and "start_hit s w d c st = (c', st')"
  shows "prefetch_account c' st' = prefetch_account c st"
proof -
  let ?l = "line_at c s w"
  define l1 where "l1 = (if d then ?l\<lparr>ln_dirty := True\<rparr> else ?l)"
  define l2 where "l2 = (if ln_prefetched l1 then l1\<lparr>ln_prefetched := False\<rparr> else l1)"
  have "unused_lines c' = unused_lines (touch_way (set_line c s w l2) s w)"
    and st: "st' = (if ln_prefetched ?l then count_useful st else st)"
    using assms(4,6) by (auto simp: start_hit_def l1_def l2_def Let_def unused_lines_def)
  moreover have "\<not> unused_line l2" "unused_line ?l = ln_prefetched ?l"
    using assms(5) by (auto simp: unused_line_def l1_def l2_def)
  ultimately show ?thesis
    using unused_set_line [OF assms(1-3), of l2]
    by (auto simp: prefetch_account_def count_useful_def algebra_simps)
qed

lemma cache_ready_account:
  assumes "cache_wf c" and "c_stats_on c" and "cache_ready a d c st = (r, c', st')"
  shows "prefetch_account c' st' = prefetch_account c st"
proof (cases "c_phase c = Ph_Idle")
  case True
  define c1 where "c1 = c\<lparr>c_cur_addr := a, c_cur_is_write := d\<rparr>"
  define c2 where "c2 = maybe_start_prefetch a (c1\<lparr>c_last_hit := (find_way c1 a \<noteq> None)\<rparr>)"
  have tags: "same_tags c c2"
    using maybe_start_prefetch_frame(1) [of "c1\<lparr>c_last_hit := (find_way c1 a \<noteq> None)\<rparr>" a]
    by (simp add: c2_def c1_def same_tags_def same_geom_def)
  note same = same_tagsD [OF tags]
  have f1: "find_way c1 a = find_way c a" "index_of c1 a = index_of c a"
    by (simp_all add: c1_def find_way_def index_of_def tag_of_def line_at_def slot_def)
  have un: "unused_lines c2 = unused_lines c" using tags by (simp add: unused_lines_def same_tags_def)
  have on: "c_stats_on c2" using maybe_start_prefetch_frame(6) assms(2) by (simp add: c2_def c1_def)
  have g: "cache_geom c2" "unat (index_of c a) < 2 ^ c_index_bits c2"
    using assms(1) same index_less [of c a] by (simp_all add: cache_wf_def)
  show ?thesis
  proof (cases "find_way c a")
    case None
    then have "c' = start_miss (index_of c a) a c2" "st' = st"
      using assms(3) True f1 by (simp_all add: cache_ready_def cache_start_def c2_def c1_def Let_def)
    moreover have "unused_lines (start_miss s a c2) = unused_lines c2" for s
      by (simp add: start_miss_def unused_lines_def Let_def)
    ultimately show ?thesis using un by (simp add: prefetch_account_def)
  next
    case (Some w)
    then have h: "start_hit (index_of c a) w d c2 st = (c', st')"
      using assms(3) True f1
      by (simp add: cache_ready_def cache_start_def c2_def c1_def Let_def case_prod_beta prod_eq_iff)
    have "w < c_ways c2" "ln_valid (line_at c2 (index_of c a) w)"
      using find_way_Some [OF Some] same by (auto simp: holds_def)
    from start_hit_account [OF g this(1) on this(2) h] un show ?thesis by (simp add: prefetch_account_def)
  qed
qed (use assms(3) in \<open>simp add: cache_ready_def\<close>)

lemma chain_prefetch_lines: "c_lines (chain_prefetch c) = c_lines c"
  by (simp add: chain_prefetch_def Let_def split: option.split)

lemma flat_ready_stats: "snd (snd (mem_ready a d (Flat f, st))) = st"
  by (simp add: case_prod_beta)

lemma service_prefetch_account:
  assumes "cache_geom c" and "c_pf_active c \<longrightarrow> c_pf_way c < c_ways c" and "c_stats_on c" and "service_prefetch c (Flat f, st) = (t, c', b', st')"
  shows "prefetch_account c' st' = prefetch_account c st +
    of_bool (c_pf_active c \<and> fst (mem_ready (c_pf_addr c) False (Flat f, st)))"
proof (cases "c_pf_active c \<and> fst (mem_ready (c_pf_addr c) False (Flat f, st))")
  case True
  obtain c1 st1 where i: "install_line (index_of c (c_pf_addr c)) (c_pf_way c) (c_pf_addr c) False True c st = (c1, st1)"
    by (metis surj_pair)
  have "c' = chain_prefetch (c1\<lparr>c_pf_active := False\<rparr>)" "st' = st1"
    using assms(4) True i by (auto simp: service_prefetch_def case_prod_beta Let_def)
  then have "prefetch_account c' st' = prefetch_account c1 st1"
    by (simp add: prefetch_account_def unused_lines_def chain_prefetch_lines)
  then show ?thesis
    using install_line_account [OF assms(1) index_less [OF assms(1)] _ assms(3) i] assms(2) True by simp
next
  case False
  then show ?thesis using assms(4) by (auto simp: service_prefetch_def case_prod_beta Let_def split: if_splits)
qed

lemma finish_miss_account:
  assumes "cache_wf c" and "c_stats_on c" and "c_phase c \<in> {Ph_MissFetch, Ph_PrefetchWait}"
    and "finish_miss c st = (c', st')"
  shows "prefetch_account c' st' = prefetch_account c st \<and> c_stats_on c'"
proof -
  obtain c1 st1 where i: "install_line (index_of c (c_cur_addr c)) (c_victim_way c) (c_cur_addr c)
      (c_cur_is_write c) False c st = (c1, st1)" by (metis surj_pair)
  have wf: "cache_geom c" "c_victim_way c < c_ways c" using assms(1,3) by (auto simp: cache_wf_defs)
  have "prefetch_account c' st' = prefetch_account c1 st1" "c_stats_on c' = c_stats_on c1"
    using assms(4) i by (auto simp: finish_miss_def prefetch_account_def unused_lines_def Let_def)
  moreover have "c_stats_on c1 = c_stats_on c"
    using i by (auto simp: install_line_def Let_def touch_way_def set_line_def)
  ultimately show ?thesis
    using install_line_account [OF wf(1) index_less [OF wf(1)] wf(2) assms(2) i] assms(2) by simp
qed

lemma cache_drive_account:
  assumes "cache_wf c" and "c_stats_on c" and "cache_drive c (Flat f, st) = (t, c', b', st')"
  shows "prefetch_account c' st' = prefetch_account c st + of_bool (prefetch_arrives c (Flat f, st))"
proof -
  have wf: "cache_geom c" "c_pf_active c \<longrightarrow> c_pf_way c < c_ways c" using assms(1) by (auto simp: cache_wf_defs)
  show ?thesis
  proof (cases "c_phase c")
    case Ph_Idle
    then show ?thesis
      using service_prefetch_account [OF wf assms(2)] assms(3) by (simp add: cache_drive_def prefetch_arrives_def)
  next
    case Ph_HitWait
    define k where "k = (if c_hit_remaining c > 0 then c\<lparr>c_hit_remaining := c_hit_remaining c - 1\<rparr>
      else c\<lparr>c_phase := Ph_Idle\<rparr>)"
    have k: "cache_geom k" "c_pf_active k \<longrightarrow> c_pf_way k < c_ways k" "c_stats_on k" "c_pf_active k = c_pf_active c"
      "c_pf_addr k = c_pf_addr c" "unused_lines k = unused_lines c"
      using wf assms(2) by (simp_all add: k_def cache_geom_def unused_lines_def)
    have "service_prefetch k (Flat f, st) = (t, c', b', st')"
      using assms(3) Ph_HitWait by (simp add: cache_drive_def k_def)
    from service_prefetch_account [OF k(1-3) this] Ph_HitWait k(4-6) show ?thesis
      by (simp add: prefetch_arrives_def prefetch_account_def)
  next
    case Ph_WriteBack
    then show ?thesis using assms(3)
      by (auto simp: cache_drive_def prefetch_arrives_def prefetch_account_def unused_lines_def case_prod_beta)
  next
    case Ph_MissFetch
    obtain c1 st1 where i: "finish_miss c st = (c1, st1)" by (metis surj_pair)
    then show ?thesis using assms(3) Ph_MissFetch finish_miss_account [OF assms(1,2) _ i]
      by (auto simp: cache_drive_def prefetch_arrives_def case_prod_beta split: if_splits)
  next
    case Ph_PrefetchWait
    obtain c1 st1 where i: "finish_miss c st = (c1, st1)" by (metis surj_pair)
    have "prefetch_account (c1\<lparr>c_pf_active := False\<rparr>) (count_useful st1) = prefetch_account c1 st1 + 1"
      by (simp add: prefetch_account_def unused_lines_def count_useful_def)
    then show ?thesis using assms(3) Ph_PrefetchWait finish_miss_account [OF assms(1,2) _ i] i
      by (auto simp: cache_drive_def prefetch_arrives_def case_prod_beta split: if_splits)
  qed
qed

text \<open>
  C20: the prefetch counters balance. For the instruction cache over its RAM, in any state the
  invariant allows: a query leaves \<open>useful + useless + unused\<close> (the two counters and the lines
  that were prefetched and not yet used) as it is, and a tick adds one to it exactly when a
  prefetched line arrives. So no prefetched line is counted twice, and none is lost: neither
  by a hit that uses it, nor by a fill that evicts it, nor by a demand miss that merges with it.
\<close>

theorem prefetch_counters_balance:
  assumes "cache_wf c" and "c_stats_on c"
    and "mem_ready a w (Cached c (Flat f), st) = (r, Cached c1 b1, st1)"
    and "mem_tick (Cached c (Flat f), st) = (Cached c2 b2, st2)"
  shows "prefetch_account c1 st1 = prefetch_account c st \<and>
    prefetch_account c2 st2 = prefetch_account c st + of_bool (prefetch_arrives c (Flat f, st))"
proof
  obtain r' c' st' where q: "cache_ready a w c st = (r', c', st')" by (metis surj_pair)
  then have "c1 = c'" "st1 = st'" using assms(3) by simp_all
  with cache_ready_account [OF assms(1,2) q] show "prefetch_account c1 st1 = prefetch_account c st" by simp
  obtain t k b' s' where d: "cache_drive c (Flat f, st) = (t, k, b', s')" by (metis surj_pair)
  obtain f' where "b' = Flat f'"
    using d by (rule cache_drive_backing) (auto simp: case_prod_beta)
  then have "c2 = k" "st2 = s'" using assms(4) d by (auto split: if_splits)
  with cache_drive_account [OF assms(1,2) d]
  show "prefetch_account c2 st2 = prefetch_account c st + of_bool (prefetch_arrives c (Flat f, st))" by simp
qed

text \<open>
  A cache of two lines of four bytes that has just missed at address 0, and has fetched that line:
  in the next tick the engine, which waits with the following line, finds the port free.
\<close>

definition pf_demo :: cache where
  "pf_demo =
     \<lparr>c_offset_bits = 2, c_index_bits = 1, c_index_mask = 1, c_hit_latency = 1, c_ways = 1,
      c_lines = [line_init, line_init], c_repl = \<lparr>pl_ways = 1, pl_bits = [0, 0]\<rparr>,
      c_phase = Ph_Idle, c_cur_addr = 0, c_cur_is_write = False, c_victim_way = 0, c_wb_addr = 0,
      c_hit_remaining = 0, c_last_hit = False, c_pf_policy = Some \<lparr>sp_line_bytes = 4\<rparr>, c_pf_degree = 1,
      c_pf_active = False, c_pf_addr = 0, c_pf_way = 0, c_pf_chain = 0, c_stats_on = True\<rparr>"

definition pf_demo_hit :: cache where
  "pf_demo_hit = pf_demo\<lparr>c_lines := [line_init\<lparr>ln_valid := True\<rparr>, line_init], c_phase := Ph_HitWait,
     c_pf_active := True, c_pf_addr := 4, c_pf_chain := 1\<rparr>"

lemma pf_demo_init: "cache_init 4 2 1 1 True 1 True = Inr pf_demo"
  by code_simp

lemma pf_demo_run:
  "mem_tick (snd (mem_ready 0 False (Cached pf_demo (Flat (flat_init 0 16 1)), stats_init))) =
     (Cached pf_demo_hit (Flat (flat_init 0 16 1)), stats_init)"
  by code_simp

lemma pf_demo_wf: "cache_wf pf_demo_hit"
proof -
  have "cache_wf pf_demo" using cache_init_wf [OF pf_demo_init] by (simp add: pf_demo_def)
  then have "mem_wf (fst (mem_tick (snd (mem_ready 0 False (Cached pf_demo (Flat (flat_init 0 16 1)), stats_init)))))"
    by (intro mem_tick_wf mem_ready_wf) simp
  then show ?thesis unfolding pf_demo_run by simp
qed

theorem prefetch_counters_balance_witness:
  "\<exists>c b st. mem_tick (Cached pf_demo_hit (Flat (flat_init 0 16 1)), stats_init) = (Cached c b, st) \<and>
     prefetch_account c st = 1"
proof -
  obtain r c1 b1 st1 where q: "mem_ready 0 False (Cached pf_demo_hit (Flat (flat_init 0 16 1)), stats_init) = (r, Cached c1 b1, st1)"
    by (simp add: case_prod_beta)
  obtain c2 b2 st2 where t: "mem_tick (Cached pf_demo_hit (Flat (flat_init 0 16 1)), stats_init) = (Cached c2 b2, st2)"
    by (cases "fst (cache_drive pf_demo_hit (Flat (flat_init 0 16 1), stats_init))") (auto simp: case_prod_beta)
  have "prefetch_account pf_demo_hit stats_init = 0" "c_stats_on pf_demo_hit"
    "prefetch_arrives pf_demo_hit (Flat (flat_init 0 16 1), stats_init)"
    by code_simp+
  with prefetch_counters_balance [OF pf_demo_wf _ q t] t show ?thesis by auto
qed

end
