(* ===== verification/Prog_Arrays.thy ===== *)
theory Prog_Arrays
  imports Flat_Mem
begin

unbundle bit_operations_syntax

text \<open>
  The C programs that the repository runs on the simulator (\<open>benchmarks/*.c\<close>) are modelled in the
  theories \<open>Prog_*\<close>. An array is a list, and an access past its end the fault \<open>Out_of_bounds\<close>; that
  a program returns a value therefore says that no access leaves its array. Loop counters, which
  stay within the bounds of the loops, are natural numbers; \<open>int\<close> and \<open>unsigned\<close> values are 32-bit
  words, with the comparisons of their type. This theory holds the accesses within bounds.
\<close>

lemma vec_simps [simp]:
  "i < length xs \<Longrightarrow> vec_get xs i = Inr (xs ! i)"
  "i < length xs \<Longrightarrow> vec_set xs i x = Inr (xs[i := x])"
  by (simp_all add: vec_get_def vec_set_def)

end
