(* ===== verification/Prog_Bubble_Sort.thy ===== *)
theory Prog_Bubble_Sort
  imports Prog_Arrays "HOL-Library.Multiset"
begin

unbundle bit_operations_syntax

text \<open>
  \<open>benchmarks/bubble_sort.c\<close>: the three loops, for any size of the array. The sort returns a sorted
  permutation; \<open>main\<close> returns the smallest element of 64, ..., 1.
\<close>

function init_descending :: "nat \<Rightarrow> nat \<Rightarrow> u32 list \<Rightarrow> u32 list res" where
  "init_descending N i arr =
     (if i < N then res_bind (vec_set arr i (of_nat N - of_nat i)) (\<lambda>arr'. init_descending N (i + 1) arr')
      else Inr arr)"
  by pat_completeness auto
termination by (relation "measure (\<lambda>(N, i, arr). N - i)") auto

text \<open>The body of the inner loop.\<close>

definition bubble_step :: "nat \<Rightarrow> u32 list \<Rightarrow> u32 list res" where
  "bubble_step j arr =
     res_bind (vec_get arr j) (\<lambda>x.
     res_bind (vec_get arr (j + 1)) (\<lambda>y.
       if sint x > sint y
       then res_bind (vec_set arr j y) (\<lambda>arr'. vec_set arr' (j + 1) x)
       else Inr arr))"

function bubble_inner :: "nat \<Rightarrow> nat \<Rightarrow> u32 list \<Rightarrow> u32 list res" where
  "bubble_inner m j arr =
     (if j < m then res_bind (bubble_step j arr) (\<lambda>arr'. bubble_inner m (j + 1) arr') else Inr arr)"
  by pat_completeness auto
termination by (relation "measure (\<lambda>(m, j, arr). m - j)") auto

function bubble_outer :: "nat \<Rightarrow> nat \<Rightarrow> u32 list \<Rightarrow> u32 list res" where
  "bubble_outer N i arr =
     (if i < N - 1 then res_bind (bubble_inner (N - 1 - i) 0 arr) (\<lambda>arr'. bubble_outer N (i + 1) arr')
      else Inr arr)"
  by pat_completeness auto
termination by (relation "measure (\<lambda>(N, i, arr). N - i)") auto

definition bubble_sort :: "nat \<Rightarrow> u32 list \<Rightarrow> u32 list res" where
  "bubble_sort N arr = bubble_outer N 0 arr"

definition bubble_main :: "u32 res" where
  "bubble_main =
     res_bind (init_descending 64 0 (replicate 64 0)) (\<lambda>arr.
     res_bind (bubble_sort 64 arr) (\<lambda>arr'. vec_get arr' 0))"

declare init_descending.simps [simp del] bubble_inner.simps [simp del] bubble_outer.simps [simp del]

lemma bubble_step_ok:
  assumes "Suc j < length arr"
  shows "bubble_step j arr =
    Inr (if sint (arr ! j) > sint (arr ! Suc j) then arr[j := arr ! Suc j, Suc j := arr ! j] else arr)"
  using assms by (simp add: bubble_step_def)

text \<open>The values at the positions up to \<open>m\<close> are rearranged among those positions.\<close>

definition shuffled :: "nat \<Rightarrow> u32 list \<Rightarrow> u32 list \<Rightarrow> bool" where
  "shuffled m xs ys \<longleftrightarrow> mset ys = mset xs \<and> (\<forall>k > m. ys ! k = xs ! k) \<and> (\<forall>k \<le> m. \<exists>k' \<le> m. ys ! k = xs ! k')"

lemma shuffled_refl: "shuffled m xs xs"
  by (auto simp: shuffled_def)

lemma shuffled_trans: "shuffled m xs ys \<Longrightarrow> shuffled m ys zs \<Longrightarrow> shuffled m xs zs"
  unfolding shuffled_def by metis

lemma shuffled_length: "shuffled m xs ys \<Longrightarrow> length ys = length xs"
  unfolding shuffled_def by (metis size_mset)

lemma shuffled_swap:
  assumes "i < length xs" and "j < length xs" and "i \<le> m" and "j \<le> m"
  shows "shuffled m xs (xs[i := xs ! j, j := xs ! i])"
  using assms by (auto simp: shuffled_def mset_swap nth_list_update)

lemma bubble_inner_ok:
  assumes "j \<le> m" and "m < length arr" and "\<forall>k < j. sint (arr ! k) \<le> sint (arr ! j)"
  shows "\<exists>arr'. bubble_inner m j arr = Inr arr' \<and> shuffled m arr arr' \<and> (\<forall>k \<le> m. sint (arr' ! k) \<le> sint (arr' ! m))"
  using assms
proof (induction m j arr rule: bubble_inner.induct)
  case (1 m j arr)
  show ?case
  proof (cases "j < m")
    case False
    then have "j = m" using "1.prems"(1) by simp
    then show ?thesis using "1.prems"(3) shuffled_refl by (auto simp: bubble_inner.simps order_le_less)
  next
    case True
    define arr1 where "arr1 = (if sint (arr ! j) > sint (arr ! Suc j) then arr[j := arr ! Suc j, Suc j := arr ! j] else arr)"
    have s: "bubble_step j arr = Inr arr1" using True "1.prems"(2) by (simp add: bubble_step_ok arr1_def)
    have sh: "shuffled m arr arr1"
      using True "1.prems"(2) shuffled_refl shuffled_swap [of j arr "Suc j" m] by (simp add: arr1_def)
    have "m < length arr1" using shuffled_length [OF sh] "1.prems"(2) by simp
    moreover have "\<forall>k < Suc j. sint (arr1 ! k) \<le> sint (arr1 ! Suc j)"
      using "1.prems"(2,3) True by (auto simp: arr1_def nth_list_update less_Suc_eq) 
    ultimately obtain arr' where "bubble_inner m (Suc j) arr1 = Inr arr'" "shuffled m arr1 arr'"
      "\<forall>k \<le> m. sint (arr' ! k) \<le> sint (arr' ! m)" using "1.IH" [OF True, of arr1] True by auto
    then show ?thesis using True s shuffled_trans [OF sh] by (simp add: bubble_inner.simps [of m j])
  qed
qed

text \<open>After \<open>i\<close> rounds the last \<open>i\<close> positions hold the \<open>i\<close> largest values in order.\<close>

definition settled :: "nat \<Rightarrow> u32 list \<Rightarrow> bool" where
  "settled m arr \<longleftrightarrow> (\<forall>p q. p < q \<and> m \<le> q \<and> q < length arr \<longrightarrow> sint (arr ! p) \<le> sint (arr ! q))"

lemma bubble_outer_ok:
  assumes "length arr = N" and "settled (N - i) arr" and "i < N"
  shows "\<exists>arr'. bubble_outer N i arr = Inr arr' \<and> mset arr' = mset arr \<and> settled 1 arr'"
  using assms
proof (induction N i arr rule: bubble_outer.induct)
  case (1 N i arr)
  show ?case
  proof (cases "i < N - 1")
    case False
    then have "N - i = 1" using "1.prems"(3) by simp
    then show ?thesis using "1.prems"(2) False by (simp add: bubble_outer.simps)
  next
    case True
    let ?m = "N - 1 - i"
    obtain arr1 where b: "bubble_inner ?m 0 arr = Inr arr1" and sh: "shuffled ?m arr arr1"
      and mx: "\<forall>k \<le> ?m. sint (arr1 ! k) \<le> sint (arr1 ! ?m)"
      using bubble_inner_ok [of 0 ?m arr] "1.prems"(1,3) by auto
    have len: "length arr1 = N" using shuffled_length [OF sh] "1.prems"(1) by simp
    have "settled (N - Suc i) arr1"
      unfolding settled_def
    proof (intro allI impI)
      fix p q
      assume pq: "p < q \<and> N - Suc i \<le> q \<and> q < length arr1"
      show "sint (arr1 ! p) \<le> sint (arr1 ! q)"
      proof (cases "q = ?m")
        case False
        then have q: "?m < q" "arr1 ! q = arr ! q" using pq sh by (auto simp: shuffled_def)
        obtain p' where "arr1 ! p = arr ! p'" "p' < q"
          using sh pq q(1) unfolding shuffled_def by (cases "p \<le> ?m") (force, force)
        then show ?thesis using "1.prems"(1,2) pq q len by (auto simp: settled_def)
      qed (use mx pq in auto)
    qed
    moreover have "Suc i < N" using True by simp
    ultimately obtain arr' where "bubble_outer N (Suc i) arr1 = Inr arr'" "mset arr' = mset arr1" "settled 1 arr'"
      using "1.IH" [OF True, of arr1] len True by auto
    moreover have "mset arr1 = mset arr" using sh by (simp add: shuffled_def)
    ultimately show ?thesis using True b by (simp add: bubble_outer.simps [of N i])
  qed
qed

lemma bubble_sort_sorts:
  assumes "length arr = N" and "0 < N"
  shows "\<exists>arr'. bubble_sort N arr = Inr arr' \<and> mset arr' = mset arr \<and> sorted (map sint arr')"
proof -
  have "settled (N - 0) arr" using assms(1) by (simp add: settled_def)
  from bubble_outer_ok [OF assms(1) this assms(2)] obtain arr' where
    "bubble_outer N 0 arr = Inr arr'" "mset arr' = mset arr" "settled 1 arr'" by blast
  moreover from this(3) have "sorted (map sint arr')" by (auto simp: sorted_iff_nth_mono_less settled_def)
  ultimately show ?thesis by (simp add: bubble_sort_def)
qed

lemma init_descending_ok:
  assumes "length arr = N" and "i \<le> N"
  shows "init_descending N i arr = Inr (take i arr @ map (\<lambda>k. of_nat N - of_nat k) [i..<N])"
  using assms
proof (induction N i arr rule: init_descending.induct)
  case (1 N i arr)
  show ?case
  proof (cases "i < N")
    case True
    have "take (Suc i) (arr[i := w]) = take i arr @ [w]" for w using True "1.prems"(1) by (simp add: take_Suc_conv_app_nth)
    then show ?thesis
      using "1.IH" [OF True, of "arr[i := of_nat N - of_nat i]"] "1.prems" True
      by (simp add: init_descending.simps [of N i] upt_conv_Cons)
  qed (use "1.prems" in \<open>simp add: init_descending.simps\<close>)
qed

text \<open>The smallest of 1, ..., 64 is at the front.\<close>

lemma bubble_main_value: "bubble_main = Inr 1"
proof -
  define xs where "xs = map (\<lambda>k. 64 - of_nat k :: u32) [0..<64]"
  have i: "init_descending 64 0 (replicate 64 0) = Inr xs"
    by (simp add: init_descending_ok xs_def del: upt.simps replicate.simps)
  have len: "length xs = 64" by (simp add: xs_def)
  obtain ys where b: "bubble_sort 64 xs = Inr ys" "mset ys = mset xs" "sorted (map sint ys)"
    using bubble_sort_sorts [OF len] by auto
  have set: "set ys = set xs" "length ys = 64" using b(2) len by (metis set_mset_mset, metis size_mset)
  have "ys ! 0 \<in> set xs" using set by (metis nth_mem zero_less_numeral)
  moreover have "\<forall>x \<in> set xs. 1 \<le> sint x" unfolding xs_def by code_simp
  ultimately have "1 \<le> sint (ys ! 0)" by blast
  moreover have "1 \<in> set xs" unfolding xs_def by code_simp
  then obtain k where "k < 64" "ys ! k = 1" using set by (metis in_set_conv_nth)
  then have "sint (ys ! 0) \<le> 1"
    using sorted_nth_mono [OF b(3), of 0 k] set(2) by simp
  ultimately have "sint (ys ! 0) = sint (1 :: u32)" by simp
  then have "ys ! 0 = 1" by (rule signed_word_eqI)
  then show ?thesis using set(2) by (simp add: bubble_main_def i b(1))
qed

text \<open>
  C39: the sort of \<open>bubble_sort.c\<close> sorts. For an array of any length \<open>N > 0\<close> and any contents, the
  nested loops make no access outside the array and leave a permutation of the values in
  ascending order of their \<open>int\<close> values.
\<close>

theorem bubble_sort_correct:
  assumes "length arr = N" and "0 < N"
  shows "\<exists>arr'. bubble_sort N arr = Inr arr' \<and> mset arr' = mset arr \<and> sorted (map sint arr')"
  using bubble_sort_sorts [OF assms] .

theorem bubble_sort_correct_witness:
  "\<exists>arr'. bubble_sort 3 [5, - 1, 5] = Inr arr' \<and> mset arr' = {# - 1, 5, 5 #} \<and> sorted (map sint arr')"
  using bubble_sort_correct [of "[5, - 1, 5]" 3] by (simp add: add_mset_commute)

end
