(* ===== verification/Prog_Crc32.thy ===== *)
theory Prog_Crc32
  imports Prog_Arrays
begin

unbundle bit_operations_syntax

text \<open>
  \<open>benchmarks/crc32.c\<close>: the table of 256 entries and the byte-wise CRC that reads it. The result is
  the CRC computed bit by bit: a round is linear over exclusive or, so eight rounds of a word are
  the table entry of its low byte and a shift of the rest.
\<close>

definition crc_round :: "u32 \<Rightarrow> u32" where
  "crc_round c = (if c AND 1 \<noteq> 0 then 0xEDB88320 XOR drop_bit 1 c else drop_bit 1 c)"

function build_table :: "nat \<Rightarrow> u32 list \<Rightarrow> u32 list res" where
  "build_table i table =
     (if i < 256 then res_bind (vec_set table i ((crc_round ^^ 8) (of_nat i))) (\<lambda>t. build_table (i + 1) t)
      else Inr table)"
  by pat_completeness auto
termination by (relation "measure (\<lambda>(i, t). 256 - i)") auto

function crc_loop :: "u32 list \<Rightarrow> u8 list \<Rightarrow> nat \<Rightarrow> nat \<Rightarrow> u32 \<Rightarrow> u32 res" where
  "crc_loop table buf len i c =
     (if i < len
      then res_bind (vec_get buf i) (\<lambda>b.
           res_bind (vec_get table (unat ((c XOR ucast b) AND 0xFF))) (\<lambda>t.
             crc_loop table buf len (i + 1) (t XOR drop_bit 8 c)))
      else Inr c)"
  by pat_completeness auto
termination by (relation "measure (\<lambda>(t, b, len, i, c). len - i)") auto

definition crc32 :: "u32 list \<Rightarrow> u8 list \<Rightarrow> nat \<Rightarrow> u32 res" where
  "crc32 table buf len =
     res_bind (crc_loop table buf len 0 0xFFFFFFFF) (\<lambda>c. Inr (c XOR 0xFFFFFFFF))"

definition crc_msg :: "u8 list" where
  "crc_msg = map of_char ''The quick brown fox jumps over the lazy dog''"

definition crc_main :: "u32 res" where
  "crc_main =
     res_bind (build_table 0 (replicate 256 0)) (\<lambda>table. crc32 table crc_msg (length crc_msg))"

declare build_table.simps [simp del] crc_loop.simps [simp del]

text \<open>The definition of the code by its shift register: the message enters bit by bit.\<close>

definition crc_bitwise :: "u8 list \<Rightarrow> u32" where
  "crc_bitwise buf = foldl (\<lambda>c b. (crc_round ^^ 8) (c XOR ucast b)) 0xFFFFFFFF buf XOR 0xFFFFFFFF"

lemma crc_round_odd: "crc_round c = (if odd c then 0xEDB88320 XOR drop_bit 1 c else drop_bit 1 c)"
proof -
  have "c AND 1 = of_bool (odd c)" by (simp add: and_one_eq mod_2_eq_odd)
  then show ?thesis by (simp add: crc_round_def del: and_one_eq)
qed

lemma crc_round_xor: "crc_round (a XOR b) = crc_round a XOR crc_round b"
  by (cases "odd a"; cases "odd b") (simp_all add: crc_round_odd even_xor_iff drop_bit_xor ac_simps)

lemma crc_rounds_xor: "(crc_round ^^ n) (a XOR b) = (crc_round ^^ n) a XOR (crc_round ^^ n) b"
  by (induction n arbitrary: a b) (simp_all add: crc_round_xor)

lemma crc_rounds_high: "take_bit n h = 0 \<Longrightarrow> (crc_round ^^ n) h = drop_bit n h"
proof (induction n arbitrary: h)
  case (Suc n)
  have b: "\<not> bit h k" if "k < Suc n" for k
    using arg_cong [OF Suc.prems, of "\<lambda>w. bit w k"] that by (simp add: bit_take_bit_iff)
  have "crc_round h = drop_bit 1 h" using b [of 0] by (simp add: crc_round_odd bit_0)
  moreover have "take_bit n (drop_bit 1 h) = 0"
    by (rule bit_word_eqI) (use b in \<open>auto simp: bit_simps\<close>)
  ultimately show ?case using Suc.IH [of "drop_bit 1 h"] by (simp add: funpow_swap1 drop_bit_drop_bit ac_simps)
qed simp

lemma crc_table_step: "(crc_round ^^ 8) c = (crc_round ^^ 8) (c AND 0xFF) XOR drop_bit 8 c"
proof -
  have ff: "(0xFF :: u32) = mask 8" by (simp add: mask_eq_exp_minus_1)
  have c: "c = take_bit 8 c XOR push_bit 8 (drop_bit 8 c)"
    by (rule bit_word_eqI) (auto simp: bit_simps)
  have "take_bit 8 (push_bit 8 (drop_bit 8 c)) = 0" by (rule bit_word_eqI) (auto simp: bit_simps)
  from crc_rounds_high [OF this] have "(crc_round ^^ 8) (push_bit 8 (drop_bit 8 c)) = drop_bit 8 (push_bit 8 (drop_bit 8 c))" .
  also have "\<dots> = drop_bit 8 c" by (rule bit_word_eqI) (auto simp: bit_simps dest: bit_imp_le_length)
  finally show ?thesis
    using crc_rounds_xor [of 8 "take_bit 8 c" "push_bit 8 (drop_bit 8 c)"] c
    by (simp only: ff take_bit_eq_mask [symmetric])
qed

definition crc_table :: "u32 list" where
  "crc_table = map (\<lambda>i. (crc_round ^^ 8) (of_nat i)) [0..<256]"

lemma build_table_ok:
  assumes "length t = 256" and "i \<le> 256"
  shows "build_table i t = Inr (take i t @ drop i crc_table)"
  using assms
proof (induction i t rule: build_table.induct)
  case (1 i t)
  show ?case
  proof (cases "i < 256")
    case True
    have "take (Suc i) (t[i := w]) = take i t @ [w]" for w using True "1.prems"(1) by (simp add: take_Suc_conv_app_nth)
    moreover have "drop i crc_table = (crc_round ^^ 8) (of_nat i) # drop (Suc i) crc_table"
      using True by (subst Cons_nth_drop_Suc [symmetric]) (simp_all add: crc_table_def del: upt.simps)
    ultimately show ?thesis
      using "1.IH" [OF True, of "t[i := (crc_round ^^ 8) (of_nat i)]"] "1.prems" True
      by (simp add: build_table.simps [of i])
  next
    case False
    have "length crc_table = 256" by (simp add: crc_table_def)
    with False "1.prems" show ?thesis by (simp add: build_table.simps)
  qed
qed

lemma crc_loop_ok:
  assumes "i \<le> len" and "len \<le> length buf"
  shows "crc_loop crc_table buf len i c =
    Inr (foldl (\<lambda>c b. (crc_round ^^ 8) (c XOR ucast b)) c (drop i (take len buf)))"
  using assms
proof (induction "len - i" arbitrary: i c)
  case 0
  then show ?case by (simp add: crc_loop.simps)
next
  case (Suc n)
  then have i: "i < len" "i < length buf" by simp_all
  let ?x = "c XOR ucast (buf ! i)"
  have ff: "(0xFF :: u32) = mask 8" by (simp add: mask_eq_exp_minus_1)
  have "?x AND 0xFF \<le> 0xFF" by (rule word_and_le1)
  then have "unat (?x AND 0xFF) < 256" by (simp add: word_le_nat_alt)
  then have t: "vec_get crc_table (unat (?x AND 0xFF)) = Inr ((crc_round ^^ 8) (?x AND 0xFF))"
    by (simp add: crc_table_def del: upt.simps)
  have "drop_bit 8 ?x = drop_bit 8 c" by (rule bit_word_eqI) (auto simp: bit_simps dest: bit_imp_le_length)
  then have "(crc_round ^^ 8) ?x = (crc_round ^^ 8) (?x AND 0xFF) XOR drop_bit 8 c"
    using crc_table_step [of ?x] by simp
  moreover have "drop i (take len buf) = buf ! i # drop (Suc i) (take len buf)"
    using i by (subst Cons_nth_drop_Suc [symmetric]) simp_all
  moreover have "n = len - Suc i" "Suc i \<le> len" using Suc.hyps(2) by simp_all
  ultimately show ?case
    using Suc.hyps(1) [of "Suc i"] assms(2) i t by (simp add: crc_loop.simps [of _ _ _ i])
qed

lemma crc32_bitwise:
  assumes "build_table 0 (replicate 256 0) = Inr table"
  shows "crc32 table buf (length buf) = Inr (crc_bitwise buf)"
proof -
  have "table = crc_table" using assms build_table_ok [of "replicate 256 0" 0] by simp
  then show ?thesis using crc_loop_ok [of 0 "length buf" buf] by (simp add: crc32_def crc_bitwise_def)
qed

lemma crc_msg_bytes: "crc_msg = [84, 104, 101, 32, 113, 117, 105, 99, 107, 32, 98, 114, 111, 119, 110, 32, 102, 111, 120, 32, 106, 117, 109, 112, 115, 32, 111, 118, 101, 114, 32, 116, 104, 101, 32, 108, 97, 122, 121, 32, 100, 111, 103]"
  by code_simp

text \<open>The same on integers, on which the simplifier computes.\<close>

definition crc_round_int :: "int \<Rightarrow> int" where
  "crc_round_int c = (if odd c then 0xEDB88320 XOR c div 2 else c div 2)"

lemma uint_crc_round: "uint (crc_round c) = crc_round_int (uint c)"
proof -
  have "uint (drop_bit 1 c) = uint c div 2" by (simp add: drop_bit_eq_div uint_div_distrib)
  moreover have "odd (uint c) = odd c" using bit_uint_iff [of c 0] by (simp add: bit_0)
  ultimately show ?thesis by (simp add: crc_round_odd crc_round_int_def unsigned_xor_eq)
qed

lemma uint_crc_rounds: "uint ((crc_round ^^ n) c) = (crc_round_int ^^ n) (uint c)"
  by (induction n) (simp_all add: uint_crc_round)

definition crc_byte_int :: "int \<Rightarrow> int \<Rightarrow> int" where
  "crc_byte_int c b = (crc_round_int ^^ 8) (c XOR b)"

lemma uint_ucast_u8: "uint (ucast (b :: u8) :: u32) = uint b"
  by (rule uint_up_ucast) (simp add: is_up)

lemma crc_eight_rounds:
  "(crc_round_int ^^ 8) c = crc_round_int (crc_round_int (crc_round_int (crc_round_int
     (crc_round_int (crc_round_int (crc_round_int (crc_round_int c)))))))"
  by (simp add: eval_nat_numeral)

lemma uint_crc_fold:
  fixes bs :: "u8 list"
  shows "uint (foldl (\<lambda>c b. (crc_round ^^ 8) (c XOR ucast b)) c bs) = foldl crc_byte_int (uint c) (map uint bs)"
  by (induction bs arbitrary: c) (simp_all add: uint_crc_rounds unsigned_xor_eq crc_byte_int_def uint_ucast_u8)

lemma crc_main_value: "crc_main = Inr 0x414FA339"
proof -
  have b: "build_table 0 (replicate 256 0) = Inr crc_table" using build_table_ok [of "replicate 256 0" 0] by simp
  have "uint (foldl (\<lambda>c b. (crc_round ^^ 8) (c XOR ucast b)) 0xFFFFFFFF crc_msg) = uint (0xBEB05CC6 :: u32)"
    unfolding uint_crc_fold crc_msg_bytes by (simp add: crc_byte_int_def crc_round_int_def crc_eight_rounds)
  then have "foldl (\<lambda>c b. (crc_round ^^ 8) (c XOR ucast b)) 0xFFFFFFFF crc_msg = 0xBEB05CC6"
    by (rule unsigned_word_eqI)
  then have "crc_bitwise crc_msg = 0x414FA339" by (simp add: crc_bitwise_def)
  then show ?thesis using crc32_bitwise [OF b] b by (simp add: crc_main_def)
qed

text \<open>
  C38: the table-driven CRC of \<open>crc32.c\<close> is the CRC. Once \<open>build_table\<close> has filled the table, which
  it does without leaving it, the byte-wise loop returns for every message the CRC-32 that the
  shift register computes bit by bit; no lookup leaves the table.
\<close>

theorem crc32_table_driven:
  "\<exists>table. build_table 0 (replicate 256 0) = Inr table \<and>
     (\<forall>buf. crc32 table buf (length buf) = Inr (crc_bitwise buf))"
proof -
  have "build_table 0 (replicate 256 0) = Inr crc_table" using build_table_ok [of "replicate 256 0" 0] by simp
  then show ?thesis using crc32_bitwise by blast
qed

end
