(* ===== verification/Prog_Sieve.thy ===== *)
theory Prog_Sieve
  imports Prog_Arrays
begin

unbundle bit_operations_syntax

text \<open>
  \<open>benchmarks/sieve.c\<close>, for any size of the array: the sieve counts the primes below it. For the
  size of the program there are 303.
\<close>

text \<open>The inner loop; its step \<open>i\<close> is at least 2 in the program.\<close>

function sieve_mark :: "nat \<Rightarrow> nat \<Rightarrow> nat \<Rightarrow> u8 list \<Rightarrow> u8 list res" where
  "sieve_mark N i j marks =
     (if j < N \<and> i \<noteq> 0 then res_bind (vec_set marks j 1) (\<lambda>marks'. sieve_mark N i (j + i) marks') else Inr marks)"
  by pat_completeness auto
termination by (relation "measure (\<lambda>(N, i, j, marks). N - j)") auto

function sieve_loop :: "nat \<Rightarrow> nat \<Rightarrow> u32 \<Rightarrow> u8 list \<Rightarrow> u32 res" where
  "sieve_loop N i cnt marks =
     (if i < N
      then res_bind (vec_get marks i) (\<lambda>c.
           if c = 0
           then res_bind (sieve_mark N i (i + i) marks) (\<lambda>marks'. sieve_loop N (i + 1) (cnt + 1) marks')
           else sieve_loop N (i + 1) cnt marks)
      else Inr cnt)"
  by pat_completeness auto
termination by (relation "measure (\<lambda>(N, i, cnt, marks). N - i)") auto

definition sieve :: "nat \<Rightarrow> u32 res" where
  "sieve N = sieve_loop N 2 0 (replicate N 0)"

declare sieve_mark.simps [simp del] sieve_loop.simps [simp del]

definition is_prime :: "nat \<Rightarrow> bool" where
  "is_prime p \<longleftrightarrow> 2 \<le> p \<and> (\<forall>d. d dvd p \<longrightarrow> d = 1 \<or> d = p)"

lemma prime_divisor: "2 \<le> n \<Longrightarrow> \<exists>p. is_prime p \<and> p dvd n"
proof (induction n rule: less_induct)
  case (less n)
  show ?case
  proof (cases "is_prime n")
    case False
    then obtain d where d: "d dvd n" "d \<noteq> 1" "d \<noteq> n" using less.prems by (auto simp: is_prime_def)
    then have "d < n" "2 \<le> d" using less.prems by (auto dest: dvd_imp_le dvd_pos_nat intro: Suc_leI le_neq_implies_less) 
    then show ?thesis using less.IH d(1) dvd_trans by blast
  qed (metis dvd_refl)
qed

text \<open>When the loop reaches \<open>i\<close>, the marked positions are the proper multiples of the primes below \<open>i\<close>.\<close>

definition sieved :: "nat \<Rightarrow> u8 list \<Rightarrow> bool" where
  "sieved i marks \<longleftrightarrow> (\<forall>k < length marks. marks ! k \<noteq> 0 \<longleftrightarrow> (\<exists>p < i. is_prime p \<and> p dvd k \<and> p < k))"

lemma sieve_mark_ok:
  assumes "length marks = N" and "i \<noteq> 0"
  shows "\<exists>marks'. sieve_mark N i j marks = Inr marks' \<and> length marks' = N \<and>
    (\<forall>k < N. marks' ! k = (if \<exists>m. k = j + m * i then 1 else marks ! k))"
  using assms
proof (induction N i j marks rule: sieve_mark.induct)
  case (1 N i j marks)
  show ?case
  proof (cases "j < N")
    case True
    obtain marks' where r: "sieve_mark N i (j + i) (marks[j := 1]) = Inr marks'" "length marks' = N"
      and v: "\<forall>k < N. marks' ! k = (if \<exists>m. k = j + i + m * i then 1 else marks[j := 1] ! k)"
      using "1.IH" [of "marks[j := 1]"] True "1.prems" by auto
    have m: "(\<exists>m. k = j + m * i) \<longleftrightarrow> k = j \<or> (\<exists>m. k = j + i + m * i)" for k
    proof
      assume "\<exists>m. k = j + m * i"
      then obtain m where "k = j + m * i" by blast
      then show "k = j \<or> (\<exists>m. k = j + i + m * i)" by (cases m) auto
    next
      assume "k = j \<or> (\<exists>m. k = j + i + m * i)"
      then show "\<exists>m. k = j + m * i" by (metis add.assoc mult_Suc add_0_right mult_0)
    qed
    have "\<forall>k < N. marks' ! k = (if \<exists>m. k = j + m * i then 1 else marks ! k)"
      using v "1.prems"(1) by (auto simp: m nth_list_update)
    then show ?thesis using r True "1.prems" by (simp add: sieve_mark.simps [of N i j])
  next
    case False
    then show ?thesis using "1.prems" by (auto simp: sieve_mark.simps)
  qed
qed

lemma sieved_prime:
  assumes "sieved i marks" and "2 \<le> i" and "i < length marks"
  shows "marks ! i = 0 \<longleftrightarrow> is_prime i"
proof -
  have "(\<exists>p < i. is_prime p \<and> p dvd i) \<longleftrightarrow> \<not> is_prime i"
  proof
    assume "\<exists>p < i. is_prime p \<and> p dvd i"
    then show "\<not> is_prime i" by (auto simp: is_prime_def)
  next
    assume n: "\<not> is_prime i"
    obtain p where p: "is_prime p" "p dvd i" using prime_divisor [OF assms(2)] by blast
    then have "p \<noteq> i" using n by blast
    moreover have "p \<le> i" using p(2) assms(2) by (intro dvd_imp_le) auto
    ultimately show "\<exists>p < i. is_prime p \<and> p dvd i" using p by (intro exI [of _ p]) simp
  qed
  then show ?thesis using assms by (auto simp: sieved_def)
qed

definition primes :: "nat \<Rightarrow> nat \<Rightarrow> nat" where
  "primes i N = card {p. i \<le> p \<and> p < N \<and> is_prime p}"

lemma primes_none: "\<not> i < N \<Longrightarrow> primes i N = 0"
  by (auto simp: primes_def)

lemma primes_step:
  assumes "i < N"
  shows "primes i N = of_bool (is_prime i) + primes (Suc i) N"
proof -
  have "{p. i \<le> p \<and> p < N \<and> is_prime p} =
      (if is_prime i then insert i {p. Suc i \<le> p \<and> p < N \<and> is_prime p} else {p. Suc i \<le> p \<and> p < N \<and> is_prime p})"
    using assms by (auto simp: Suc_le_eq order_le_less)
  then show ?thesis by (simp add: primes_def)
qed

lemma sieve_loop_ok:
  assumes "sieved i marks" and "length marks = N" and "2 \<le> i"
  shows "sieve_loop N i cnt marks = Inr (cnt + of_nat (primes i N))"
  using assms
proof (induction N i cnt marks rule: sieve_loop.induct)
  case (1 N i cnt marks)
  show ?case
  proof (cases "i < N")
    case False
    then show ?thesis by (simp add: sieve_loop.simps primes_none)
  next
    case True
    note pr = sieved_prime [OF "1.prems"(1,3), unfolded "1.prems"(2), OF True]
    note step = primes_step [OF True]
    show ?thesis
    proof (cases "is_prime i")
      case False
      then have "sieved (Suc i) marks" using "1.prems"(1) by (auto simp: sieved_def less_Suc_eq)
      then show ?thesis using "1.IH"(2) True pr False "1.prems" step by (simp add: sieve_loop.simps [of N i])
    next
      case p: True
      obtain marks' where m: "sieve_mark N i (i + i) marks = Inr marks'" "length marks' = N"
        and v: "\<forall>k < N. marks' ! k = (if \<exists>m. k = i + i + m * i then 1 else marks ! k)"
        using sieve_mark_ok [OF "1.prems"(2), of i "i + i"] "1.prems"(3) by auto
      have mult: "(\<exists>m. k = i + i + m * i) \<longleftrightarrow> i dvd k \<and> i < k" if "0 < k" for k
      proof
        assume "\<exists>m. k = i + i + m * i"
        then show "i dvd k \<and> i < k" using "1.prems"(3) by auto
      next
        assume "i dvd k \<and> i < k"
        then obtain q where "k = i * q" "i < k" by (auto elim: dvdE)
        moreover from this obtain m where "q = Suc (Suc m)" by (cases q; cases "q - 1") auto
        ultimately show "\<exists>m. k = i + i + m * i" by (intro exI [of _ m]) (simp add: algebra_simps)
      qed
      have "sieved (Suc i) marks'"
        unfolding sieved_def m(2)
      proof (intro allI impI)
        fix k assume k: "k < N"
        show "marks' ! k \<noteq> 0 \<longleftrightarrow> (\<exists>p < Suc i. is_prime p \<and> p dvd k \<and> p < k)"
        proof (cases "k = 0")
          case True
          then show ?thesis using v k "1.prems" by (auto simp: sieved_def)
        next
          case False
          then show ?thesis using v k mult [of k] p "1.prems"(1,2) by (auto simp: sieved_def less_Suc_eq)
        qed
      qed
      then show ?thesis
        using "1.IH"(1) True pr p "1.prems" m step by (simp add: sieve_loop.simps [of N i] ac_simps)
    qed
  qed
qed

lemma sieve_value: "sieve N = Inr (of_nat (primes 2 N))"
proof -
  have "sieved 2 (replicate N 0)" by (auto simp: sieved_def is_prime_def)
  then show ?thesis using sieve_loop_ok [of 2 "replicate N 0" N 0] by (simp add: sieve_def)
qed

lemma primes_below: "primes 2 N = card {p. p < N \<and> is_prime p}"
  unfolding primes_def by (rule arg_cong [of _ _ card]) (auto simp: is_prime_def)

text \<open>
  The program's own \<open>N\<close>. A number below \<open>45 * 45\<close> that is not prime has a prime divisor up to 44.
\<close>

definition sieve_main :: "u32 res" where
  "sieve_main = sieve 2000"

definition small_primes :: "nat list" where
  "small_primes = [2, 3, 5, 7, 11, 13, 17, 19, 23, 29, 31, 37, 41, 43]"

lemma small_primes_all:
  assumes "is_prime p" and "p < 45"
  shows "p \<in> set small_primes"
proof -
  have "\<forall>p \<in> set [0..<45]. p \<in> set small_primes \<or> p < 2 \<or> 2 dvd p \<and> p \<noteq> 2 \<or> 3 dvd p \<and> p \<noteq> 3 \<or> 5 dvd p \<and> p \<noteq> 5"
    by code_simp
  moreover have "p \<in> set [0..<45]" using assms(2) by simp
  ultimately have "p \<in> set small_primes \<or> p < 2 \<or> 2 dvd p \<and> p \<noteq> 2 \<or> 3 dvd p \<and> p \<noteq> 3 \<or> 5 dvd p \<and> p \<noteq> 5" by blast
  moreover have "\<not> p < 2" "d dvd p \<Longrightarrow> d = 1 \<or> d = p" for d using assms(1) by (auto simp: is_prime_def)
  ultimately show ?thesis by (metis numeral_eq_one_iff semiring_norm(83,86,84,85))
qed

lemma small_divisor:
  assumes "2 \<le> n" and "n < 45 * 45" and "\<not> is_prime n"
  shows "\<exists>p \<in> set small_primes. p dvd n \<and> p < n"
proof -
  obtain d e where n: "n = d * e" "d \<noteq> 1" "d \<noteq> n" using assms(1,3) by (auto simp: is_prime_def elim!: dvdE)
  then have pos: "0 < d" "0 < e" "e \<noteq> 1" "e \<noteq> n" using assms(1) by (auto intro: Nat.gr0I)
  have "d < 45 \<or> e < 45"
  proof (rule ccontr)
    assume "\<not> (d < 45 \<or> e < 45)"
    then have "45 * 45 \<le> d * e" by (intro mult_le_mono) simp_all
    then show False using assms(2) n(1) by simp
  qed
  then obtain f where f: "f < 45" "f dvd n" "2 \<le> f" "f < n"
  proof (elim disjE)
    assume "d < 45"
    then show thesis using n pos assms(1) by (intro that [of d]) (auto intro: le_neq_implies_less dvd_imp_le)
  next
    assume "e < 45"
    then show thesis using n pos assms(1) by (intro that [of e]) (auto intro: le_neq_implies_less dvd_imp_le)
  qed
  obtain p where p: "is_prime p" "p dvd f" using prime_divisor [OF f(3)] by blast
  then have "p \<le> f" using f(3) by (intro dvd_imp_le) auto
  then show ?thesis using small_primes_all [OF p(1)] f dvd_trans [OF p(2) f(2)] by auto
qed

definition no_small_divisor :: "int \<Rightarrow> bool" where
  "no_small_divisor n \<longleftrightarrow>
     list_all (\<lambda>p. n mod p \<noteq> 0 \<or> n \<le> p) [2, 3, 5, 7, 11, 13, 17, 19, 23, 29, 31, 37, 41, 43]"

function count_primes :: "int \<Rightarrow> int \<Rightarrow> int \<Rightarrow> int" where
  "count_primes a b k =
     (if a < b
      then count_primes (a + 1) b (if no_small_divisor a then k + 1 else k)
      else k)"
  by pat_completeness auto
termination by (relation "measure (\<lambda>(a, b, k). nat (b - a))") auto

declare count_primes.simps [simp del]

lemma prime_test:
  assumes "2 \<le> n" and "n < 2000"
  shows "no_small_divisor (int n) \<longleftrightarrow> is_prime n"
proof -
  have "int n mod int p \<noteq> 0 \<or> int n \<le> int p \<longleftrightarrow> \<not> (p dvd n \<and> p < n)" for p
    by (auto simp: mod_eq_0_iff_dvd)
  then have "list_all (\<lambda>p. int n mod p \<noteq> 0 \<or> int n \<le> p) (map int small_primes) \<longleftrightarrow>
      (\<forall>p \<in> set small_primes. \<not> (p dvd n \<and> p < n))"
    by (simp only: list_all_iff set_map ball_simps)
  also have "\<dots> \<longleftrightarrow> is_prime n"
  proof
    assume "\<forall>p \<in> set small_primes. \<not> (p dvd n \<and> p < n)"
    then show "is_prime n" using small_divisor [OF assms(1)] assms(2) by force
  next
    assume p: "is_prime n"
    have "1 \<notin> set small_primes" by (simp add: small_primes_def)
    then show "\<forall>p \<in> set small_primes. \<not> (p dvd n \<and> p < n)" using p unfolding is_prime_def by fastforce
  qed
  finally show ?thesis by (simp add: small_primes_def no_small_divisor_def)
qed

lemma count_primes_ok:
  assumes "2 \<le> i" and "N \<le> 2000"
  shows "count_primes (int i) (int N) k = k + int (primes i N)"
  using assms(1)
proof (induction "N - i" arbitrary: i k)
  case 0
  then show ?case by (simp add: count_primes.simps primes_none)
next
  case (Suc n)
  then have i: "i < N" "n = N - Suc i" "2 \<le> Suc i" by simp_all
  have "count_primes (int i) (int N) k = count_primes (int (Suc i)) (int N) (if is_prime i then k + 1 else k)"
    using i(1) prime_test [OF Suc.prems] assms(2) by (subst count_primes.simps) (simp add: add.commute)
  then show ?case
    unfolding primes_step [OF i(1)] Suc.hyps(1) [OF i(2,3)] by simp
qed

lemma sieve_main_value: "sieve_main = Inr 303"
proof -
  have "count_primes 2 2000 0 = 303" by code_simp
  then have "primes 2 2000 = 303" using count_primes_ok [of 2 2000 0] by simp
  then show ?thesis by (simp add: sieve_main_def sieve_value)
qed

end
