(* ===== verification/Prog_Results.thy ===== *)
theory Prog_Results
  imports Prog_Bubble_Sort Prog_Crc32 Prog_Sieve
begin

unbundle bit_operations_syntax

text \<open>
  \<open>benchmarks/fibonacci.c\<close> and \<open>benchmarks/matmul.c\<close>, and what the five programs return.
\<close>

section \<open>Fibonacci\<close>








section \<open>Matrix multiplication\<close>

definition mat_get :: "u32 list list \<Rightarrow> nat \<Rightarrow> nat \<Rightarrow> u32 res" where
  "mat_get m i j = res_bind (vec_get m i) (\<lambda>row. vec_get row j)"

definition mat_set :: "u32 list list \<Rightarrow> nat \<Rightarrow> nat \<Rightarrow> u32 \<Rightarrow> u32 list list res" where
  "mat_set m i j x =
     res_bind (vec_get m i) (\<lambda>row. res_bind (vec_set row j x) (\<lambda>row'. vec_set m i row'))"

function mat_init_row :: "nat \<Rightarrow> nat \<Rightarrow> nat \<Rightarrow> u32 list list \<Rightarrow> u32 list list \<Rightarrow> (u32 list list \<times> u32 list list) res" where
  "mat_init_row N i j a b =
     (if j < N
      then res_bind (mat_set a i j (of_nat i + of_nat j)) (\<lambda>a'.
           res_bind (mat_set b i j (of_nat i - of_nat j)) (\<lambda>b'. mat_init_row N i (j + 1) a' b'))
      else Inr (a, b))"
  by pat_completeness auto
termination by (relation "measure (\<lambda>(N, i, j, a, b). N - j)") auto

function mat_init :: "nat \<Rightarrow> nat \<Rightarrow> u32 list list \<Rightarrow> u32 list list \<Rightarrow> (u32 list list \<times> u32 list list) res" where
  "mat_init N i a b =
     (if i < N then res_bind (mat_init_row N i 0 a b) (\<lambda>r. mat_init N (i + 1) (fst r) (snd r)) else Inr (a, b))"
  by pat_completeness auto
termination by (relation "measure (\<lambda>(N, i, a, b). N - i)") auto

function mat_dot :: "nat \<Rightarrow> u32 list list \<Rightarrow> u32 list list \<Rightarrow> nat \<Rightarrow> nat \<Rightarrow> nat \<Rightarrow> u32 \<Rightarrow> u32 res" where
  "mat_dot N a b i j k s =
     (if k < N
      then res_bind (mat_get a i k) (\<lambda>x. res_bind (mat_get b k j) (\<lambda>y. mat_dot N a b i j (k + 1) (s + x * y)))
      else Inr s)"
  by pat_completeness auto
termination by (relation "measure (\<lambda>(N, a, b, i, j, k, s). N - k)") auto

function mat_mul_row :: "nat \<Rightarrow> u32 list list \<Rightarrow> u32 list list \<Rightarrow> nat \<Rightarrow> nat \<Rightarrow> u32 list list \<Rightarrow> u32 list list res" where
  "mat_mul_row N a b i j c =
     (if j < N
      then res_bind (mat_dot N a b i j 0 0) (\<lambda>s. res_bind (mat_set c i j s) (\<lambda>c'. mat_mul_row N a b i (j + 1) c'))
      else Inr c)"
  by pat_completeness auto
termination by (relation "measure (\<lambda>(N, a, b, i, j, c). N - j)") auto

function mat_mul :: "nat \<Rightarrow> u32 list list \<Rightarrow> u32 list list \<Rightarrow> nat \<Rightarrow> u32 list list \<Rightarrow> u32 list list res" where
  "mat_mul N a b i c =
     (if i < N then res_bind (mat_mul_row N a b i 0 c) (\<lambda>c'. mat_mul N a b (i + 1) c') else Inr c)"
  by pat_completeness auto
termination by (relation "measure (\<lambda>(N, a, b, i, c). N - i)") auto


declare mat_init_row.simps [simp del] mat_init.simps [simp del] mat_dot.simps [simp del]
  mat_mul_row.simps [simp del] mat_mul.simps [simp del]













section \<open>What the programs return\<close>


end
