(* ===== verification/Spec2Isabelle.thy ===== *)
theory Spec2Isabelle
  imports Assembler Bench_Total Cycle_Equation Timing_Bound Trace_Bounds Program_Words Cycle_Trace Core_Wf Prefetch_Stats
    Prog_Results
begin

text \<open>
  A verification development for \<open>cpu-sim\<close>, a cycle-level simulator of a five-stage, in-order
  RV32I core in C++ (\<open>src/include/cpusim\<close>, \<open>src/src\<close>).

  \<^bold>\<open>The program.\<close> \<open>Core\<close> (\<open>sim/core\<close>) wires the stages IF, ID, EX, MEM and WB
  (\<open>uarch/pipeline\<close>) with the pipeline registers between them (\<open>uarch/latch.h\<close>), a forwarding
  unit and a load-use interlock (\<open>uarch/hazard\<close>), a register file, an optional branch predictor
  and two memories: a flat memory (\<open>memory/flat_mem\<close>), or a cache with tree pseudo-LRU
  replacement and an optional next-line prefetcher over it (\<open>memory/cache\<close>). Each \<open>tick\<close>
  evaluates every stage and then latches every stage; a memory access that is not yet served
  stalls the front of the pipeline. A tracer (\<open>sim/tracer\<close>) prints a commit log that the
  repository compares with Spike.

  \<^bold>\<open>The model.\<close> One record per class with a field per member, one function per method. A
  method that changes its object returns it updated; references to other objects are
  arguments, and are returned when they change. Fixed-width integers are words of that width;
  an \<open>int\<close> countdown is an \<open>int\<close>. A failed \<open>assert\<close> and an index past the end of a vector are
  values of the type \<open>fault\<close> (\<open>Prelude\<close>), propagated by \<open>res_bind\<close>. All definitions execute.

  \<^item> \<open>Prelude\<close>: machine integers, faults, shared lemmas on words. \<open>Encoding\<close>, \<open>Decoder\<close>: the
    constants, field extractors and \<open>decode\<close>; \<open>Assembler\<close>: the RV32I encodings as a
    specification, and the two round trips between words and instructions.
  \<^item> \<open>Alu\<close>, \<open>Regfile\<close>: the datapath and the register file (locale \<open>register_bank\<close>).
  \<^item> \<open>Mem_Interface\<close>: \<open>IMemory\<close> as a locale (data path, timing path, and the law that time
    never changes data), byte maps, the client protocol of waiting for \<open>ready\<close>. \<open>Flat_Mem\<close>,
    \<open>Pow2\<close>, \<open>Tree_Plru\<close> (locale \<open>eviction_policy\<close>), \<open>Cache\<close> (tags, invariant \<open>cache_wf\<close>, locale
    \<open>prefetch_policy\<close>) and \<open>Memsys\<close> (a cache over any memory, so a hierarchy of any depth)
    interpret it. Results: transparency, exact latencies, the replacement guarantee.
    \<open>Prefetch_Stats\<close>: the prefetch counters balance with the flags of the lines.
  \<^item> \<open>Branch_Predictor\<close>, \<open>Latch\<close> (locale \<open>pipe_register\<close>), \<open>Fetch\<close>, \<open>Decode_Stage\<close>, \<open>Forward\<close>,
    \<open>Execute\<close>, \<open>Mem_Access\<close>, \<open>Writeback\<close>, \<open>Hazard\<close>, \<open>Sim_Config\<close>, \<open>Tracer\<close>, \<open>Core\<close>: the rest
    of the machine, one theory per source file.
  \<^item> \<open>Isa\<close>: the reference machine, one instruction per step. \<open>Pipe_Model\<close>: the pipeline without
    time, as an inductive step relation on what the latches hold. \<open>Pipe_Invariant\<close>: each latch
    agrees with one instruction of the reference machine, and every step keeps this.
    \<open>Core_Refinement\<close>: one \<open>tick\<close> of the core is one such step. \<open>Core_Run\<close>: \<open>Core::run\<close> and
    the counters. \<open>Commit_Log\<close>: the log, the trace, the registers and the data memory of a run
    are the reference machine's, for every configuration. \<open>Demo_Core\<close>: a concrete run.
  \<^item> \<open>Core_Safety\<close>: a cycle aborts only on a memory access outside the RAM. \<open>Mem_Timing\<close> (locale
    \<open>bounded_service\<close>): a hierarchy of any depth answers within a bound. \<open>Core_Progress\<close>: the
    distance of the next instruction from WB falls every cycle, so instructions retire at a
    bounded rate and \<open>run\<close> reaches the halt.
  \<^item> \<open>Pipe_Safety\<close>: \<open>program_safe\<close>, a condition on the run of the reference machine under which
    no access of the pipeline leaves the memories, as progress and preservation of an invariant.
    \<open>Core_Total\<close>: total correctness of \<open>Core::run\<close> on such programs.
  \<^item> \<open>Store_Frame\<close> (locale \<open>store_frame\<close>): what stores, and so the loaders, leave alone.
    \<open>Core_Wf\<close>: the cores a client can reach, and the type invariant they all satisfy.
  \<^item> \<open>Branch_Stats\<close>: the branch counters count executed branches, none of a wrong path.
    \<open>Trace_Bounds\<close>: no line of the trace is cut by its buffer. \<open>Cycle_Trace\<close>: the cycle view.
    \<open>Program_Words\<close>: \<open>Core::load_program\<close>.
  \<^item> \<open>Elf_Loader\<close> (\<open>sim/elf_loader.cpp\<close>): the stream, the headers, the checks, the segments; the
    memories after a load are the image of the file. \<open>Program_Run\<close>: from the file to the log.
  \<^item> \<open>Bench_Run\<close> (\<open>tools/bench_run.cpp\<close>): \<open>main\<close>, with the host as a parameter. \<open>Bench_Options\<close>:
    the command line is read back as it was written. \<open>Bench_Correct\<close>, \<open>Bench_Progress\<close>: the exit
    status, the report and the trace file are those of the reference machine's run of the
    file. \<open>Bench_Demo\<close>: a concrete invocation. \<open>Bench_Total\<close>: total correctness of \<open>bench_run\<close>, and
    a program that shows that the look-ahead behind an \<open>EBREAK\<close> is needed.

  \<^item> \<open>Ideal_Timing\<close>: with memories of latency 1 and no predictor, the exact cycle in which every
    instruction retires, and the exact cycle count of \<open>run\<close>. The costs are defined on the reference
    machine: two cycles for a taken branch or jump, one for a load whose destination the next
    word names. \<open>Timing_Bound\<close>: with any memories no instruction retires earlier than in this
    timetable. \<open>Cycle_Equation\<close>: with any predictor, the counters balance: cycles are
    instructions, four, load-use pairs, and two per misprediction.
  \<^item> \<open>Prog_Arrays\<close>, \<open>Prog_Bubble_Sort\<close>, \<open>Prog_Crc32\<close>, \<open>Prog_Sieve\<close>, \<open>Prog_Results\<close> (\<open>benchmarks/*.c\<close>):
    the C programs that the repository runs on the simulator: the sort sorts, the table-driven CRC
    is the CRC, the sieve counts primes, and what the five programs return. They are models of
    the C source, not of its compiled form.

  \<^bold>\<open>Loops.\<close> Every loop of the code is a terminating function; there is no fuel. \<open>Core::run\<close>
  terminates because a tick adds one to the cycle counter (measure \<open>max_cycles - cycles\<close>). The
  inner loop of the sieve carries the guard that its step is not 0, which holds wherever the
  program calls it.

  \<^bold>\<open>Assumptions of the main theorems.\<close> The partial-correctness theorems are about cycles that
  complete: the simulator asserts on a fetch or data access outside the RAM, also on a wrong
  path and behind an \<open>EBREAK\<close>. The total-correctness theorems assume \<open>program_safe\<close> instead: at
  every address the reference machine executes, two further fetches (next instruction, or
  predicted target) are backed, four behind the halting instruction, whose successor is neither
  a memory access nor a jump. With a predictor the executed addresses are word-aligned
  (\<open>aligned_run\<close>, which \<open>program_safe\<close> implies), because the predictor ignores the two low bits
  of the PC. The bytes of the data memory are compared while the core runs, not at the halt,
  because a store behind an \<open>EBREAK\<close> is already performed.

  \<^bold>\<open>Parameters.\<close> The host of \<open>bench_run\<close> (\<open>Bench_Run.host\<close>): the contents of the files, the
  paths that can be opened for writing, the wall-clock time, and the text \<open>printf\<close> makes of a
  \<open>double\<close>. Nothing is assumed of them.

  \<^bold>\<open>Not modelled.\<close> Failures of the host while it writes (a full disk), allocation failure, the
  tests and scripts of the repository, and the startup assembly of the benchmark programs. \<open>StallSignals\<close> and \<open>FlushSignals\<close> of
  \<open>uarch/latch.h\<close> are declared and never used.
\<close>

end
